(* ===== verification/Prelude.thy ===== *)
theory Prelude
  imports Main "HOL-Library.Word" "HOL-Library.Multiset"
begin

text \<open>
  Generic material shared by every component: named collections of rewrite rules, the
  signed 64-bit reading of an integer (Go's \<open>int64\<close> arithmetic wraps around),
  association lists as Go maps, and lists whose \<open>k\<close>-th element carries the index
  \<open>s + k\<close>.
\<close>

section \<open>Rule collections\<close>

named_theorems law_simps \<open>consequences of the documented laws of third-party code\<close>

section \<open>Signed 64-bit integers\<close>

text \<open>
  \<open>wrap64 x\<close> is the \<open>int64\<close> with the same low 64 bits as \<open>x\<close>: the result of an
  \<open>int64\<close> addition, subtraction, multiplication or conversion in Go.
\<close>

definition wrap64 :: "int \<Rightarrow> int" where
  "wrap64 x = (x + 2 ^ 63) mod 2 ^ 64 - 2 ^ 63"

definition int64_range :: "int \<Rightarrow> bool" where
  "int64_range x \<longleftrightarrow> - (2 ^ 63) \<le> x \<and> x < 2 ^ 63"

lemma wrap64_id [simp]: "int64_range x \<Longrightarrow> wrap64 x = x"
  by (simp add: wrap64_def int64_range_def)

lemma wrap64_range [simp]: "int64_range (wrap64 x)"
proof -
  have "0 \<le> (x + 2 ^ 63) mod 2 ^ 64" and "(x + 2 ^ 63) mod 2 ^ 64 < 2 ^ 64"
    by simp_all
  then show ?thesis by (simp add: wrap64_def int64_range_def)
qed

lemma wrap64_idem [simp]: "wrap64 (wrap64 x) = wrap64 x"
  by (rule wrap64_id) simp

lemma wrap64_cong: "wrap64 x mod 2 ^ 64 = x mod 2 ^ 64"
  by (simp add: wrap64_def mod_diff_left_eq)

lemma int64_rangeI: "- (2 ^ 63) \<le> x \<Longrightarrow> x < 2 ^ 63 \<Longrightarrow> int64_range x"
  by (simp add: int64_range_def)

lemma int64_range_uint:
  assumes "uint x < 2 ^ 63"
  shows "int64_range (uint x)"
proof -
  have "0 \<le> uint x" and c: "(2::int) ^ 63 = 9223372036854775808" by simp_all
  with assms show ?thesis unfolding int64_range_def c by linarith
qed

section \<open>Consecutively indexed lists\<close>

text \<open>\<open>indexed f s xs\<close>: the \<open>k\<close>-th element of \<open>xs\<close> carries the index \<open>s + k\<close>.\<close>

fun indexed :: "('a \<Rightarrow> int) \<Rightarrow> int \<Rightarrow> 'a list \<Rightarrow> bool" where
  "indexed f s [] = True"
| "indexed f s (x # xs) = (f x = s \<and> indexed f (s + 1) xs)"

lemma indexed_append [simp]:
  "indexed f s (xs @ ys) \<longleftrightarrow> indexed f s xs \<and> indexed f (s + int (length xs)) ys"
  by (induction xs arbitrary: s) (auto simp: algebra_simps)

lemma indexed_nth: "indexed f s xs \<Longrightarrow> k < length xs \<Longrightarrow> f (xs ! k) = s + int k"
proof (induction xs arbitrary: s k)
  case Nil
  then show ?case by simp
next
  case (Cons x xs)
  then show ?case by (cases k) auto
qed

lemma indexed_last: "indexed f s xs \<Longrightarrow> xs \<noteq> [] \<Longrightarrow> f (last xs) = s + int (length xs) - 1"
  by (induction xs arbitrary: s) auto

lemma indexed_iff_map: "indexed f s xs \<longleftrightarrow> map f xs = map (\<lambda>k. s + int k) [0..<length xs]"
proof
  assume "indexed f s xs"
  then show "map f xs = map (\<lambda>k. s + int k) [0..<length xs]"
    by (intro nth_equalityI) (auto simp: indexed_nth)
next
  have "map f xs = map (\<lambda>k. s + int k) [0..<length xs] \<Longrightarrow> indexed f s xs"
  proof (induction xs rule: rev_induct)
    case (snoc x xs)
    then show ?case by simp
  qed simp
  then show "map f xs = map (\<lambda>k. s + int k) [0..<length xs] \<Longrightarrow> indexed f s xs" .
qed

lemma indexed_distinct: "indexed f s xs \<Longrightarrow> distinct (map f xs)"
  by (simp add: indexed_iff_map distinct_map inj_on_def)

section \<open>Go maps as association lists\<close>

text \<open>
  A Go map is an association list with distinct keys. \<open>gm_put\<close> overwrites or inserts,
  \<open>gm_del\<close> removes; the order of the entries has no meaning, and code that ranges over a
  map takes the order as a parameter.
\<close>

fun gm_put :: "'k \<Rightarrow> 'v \<Rightarrow> ('k \<times> 'v) list \<Rightarrow> ('k \<times> 'v) list" where
  "gm_put k v [] = [(k, v)]"
| "gm_put k v ((k', v') # m) = (if k = k' then (k, v) # m else (k', v') # gm_put k v m)"

definition gm_del :: "'k \<Rightarrow> ('k \<times> 'v) list \<Rightarrow> ('k \<times> 'v) list" where
  "gm_del k m = filter (\<lambda>e. fst e \<noteq> k) m"

definition gm_ok :: "('k \<times> 'v) list \<Rightarrow> bool" where
  "gm_ok m \<longleftrightarrow> distinct (map fst m)"

lemma map_of_gm_put [simp]: "map_of (gm_put k v m) = (map_of m)(k \<mapsto> v)"
  by (induction k v m rule: gm_put.induct) auto

lemma keys_gm_put [simp]: "fst ` set (gm_put k v m) = insert k (fst ` set m)"
  by (induction k v m rule: gm_put.induct) auto

lemma gm_ok_put [simp]: "gm_ok m \<Longrightarrow> gm_ok (gm_put k v m)"
  unfolding gm_ok_def
proof (induction k v m rule: gm_put.induct)
  case (2 k v k' v' m)
  moreover have "set (map fst (gm_put k v m)) = insert k (set (map fst m))"
    using keys_gm_put [of k v m] by simp
  ultimately show ?case by auto
qed simp

lemma map_of_gm_del [simp]: "map_of (gm_del k m) = (map_of m)(k := None)"
  unfolding gm_del_def by (induction m) auto

lemma gm_ok_del [simp]: "gm_ok m \<Longrightarrow> gm_ok (gm_del k m)"
  unfolding gm_ok_def gm_del_def by (induction m) auto

lemma gm_ok_Nil [simp]: "gm_ok []"
  by (simp add: gm_ok_def)

lemma gm_del_subset: "set (gm_del k m) \<subseteq> set m"
  by (auto simp: gm_del_def)

lemma gm_ok_mem_iff: "gm_ok m \<Longrightarrow> (k, v) \<in> set m \<longleftrightarrow> map_of m k = Some v"
  unfolding gm_ok_def by (metis map_of_eq_Some_iff)

text \<open>
  A loop that ranges over a map visits its keys in an order Go leaves open: \<open>ord\<close> arranges the
  keys, and the entries are visited in that order.
\<close>

definition key_order :: "(string list \<Rightarrow> string list) \<Rightarrow> bool" where
  "key_order ord \<longleftrightarrow> (\<forall>ks. mset (ord ks) = mset ks)"

definition range_entries :: "(string list \<Rightarrow> string list) \<Rightarrow> (string \<times> 'v) list \<Rightarrow> (string \<times> 'v) list" where
  "range_entries ord m = map (\<lambda>k. (k, the (map_of m k))) (ord (map fst m))"

lemma key_order_examples [simp]: "key_order (\<lambda>ks. ks)" "key_order rev"
  by (simp_all add: key_order_def)

lemma mset_range_entries:
  assumes "key_order ord" and "gm_ok m"
  shows "mset (range_entries ord m) = mset m"
proof -
  have "mset (range_entries ord m) = image_mset (\<lambda>k. (k, the (map_of m k))) (mset (map fst m))"
    using assms(1) by (simp add: range_entries_def key_order_def)
  also have "\<dots> = mset (map (\<lambda>e. (fst e, the (map_of m (fst e)))) m)"
    by (simp add: multiset.map_comp o_def)
  also have "map (\<lambda>e. (fst e, the (map_of m (fst e)))) m = m"
    using assms(2) by (intro map_idI) (auto simp: gm_ok_def)
  finally show ?thesis .
qed

text \<open>Decoding a JSON object into a map: a later entry overwrites an earlier one.\<close>

fun gm_of_list :: "('k \<times> 'v) list \<Rightarrow> ('k \<times> 'v) list \<Rightarrow> ('k \<times> 'v) list" where
  "gm_of_list [] m = m"
| "gm_of_list ((k, v) # es) m = gm_of_list es (gm_put k v m)"

lemma gm_ok_of_list [simp]: "gm_ok m \<Longrightarrow> gm_ok (gm_of_list es m)"
  by (induction es m rule: gm_of_list.induct) simp_all

end
