(* ===== verification/GoRuntime.thy ===== *)
theory GoRuntime
  imports Prelude
begin

text \<open>
  What the source uses of Go and its standard library: results of calls that may return
  an error or panic, error chains (\<open>fmt.Errorf\<close> with \<open>%w\<close>, \<open>errors.Is\<close>), calls that also
  change the outside world, decimal and hexadecimal text of integers (\<open>big.Int\<close>,
  \<open>strconv\<close>), 53-bit floating point products (\<open>float64\<close>, \<open>big.Float\<close>) and JSON documents
  as syntax trees.
\<close>

section \<open>Errors\<close>

text \<open>
  A Go \<open>error\<close>. \<open>Sentinel\<close> are the variables of \<open>ethereum/errors.go\<close>, \<open>External\<close> is an
  error value made by third-party code, \<open>ErrorNew\<close> is \<open>errors.New\<close> or \<open>fmt.Errorf\<close>
  without \<open>%w\<close>, and \<open>Wrapf e s\<close> is \<open>fmt.Errorf("%w" + s, e)\<close>: every wrapping format of the
  source starts with \<open>%w\<close>.
\<close>

datatype sentinel =
    ErrBlockOrphaned
  | ErrCallParametersInvalid
  | ErrCallOutputMarshal
  | ErrCallMethodInvalid

datatype gerr =
    Sentinel sentinel
  | External string
  | ErrorNew string
  | Wrapf gerr string

fun sentinel_text :: "sentinel \<Rightarrow> string" where
  "sentinel_text ErrBlockOrphaned = ''block orphaned''"
| "sentinel_text ErrCallParametersInvalid = ''call parameters invalid''"
| "sentinel_text ErrCallOutputMarshal = ''call output marshal''"
| "sentinel_text ErrCallMethodInvalid = ''call method invalid''"

text \<open>\<open>err.Error()\<close>.\<close>

fun error_text :: "gerr \<Rightarrow> string" where
  "error_text (Sentinel s) = sentinel_text s"
| "error_text (External m) = m"
| "error_text (ErrorNew m) = m"
| "error_text (Wrapf e m) = error_text e @ m"

text \<open>\<open>errors.Is(err, s)\<close> for a sentinel \<open>s\<close>: some error of the chain is \<open>s\<close>.\<close>

fun errors_is :: "gerr \<Rightarrow> sentinel \<Rightarrow> bool" where
  "errors_is (Sentinel t) s = (t = s)"
| "errors_is (Wrapf e m) s = errors_is e s"
| "errors_is _ s = False"

text \<open>A chain holds at most one sentinel.\<close>

lemma errors_is_unique: "errors_is e s \<Longrightarrow> errors_is e t \<Longrightarrow> s = t"
  by (induction e) auto

section \<open>Outcomes\<close>

text \<open>
  A call returns a value, returns an error, or does not return: it panics (a nil pointer is
  dereferenced, an index or slice bound is out of range) or ends the process
  (\<open>log.Fatalf\<close>). The error type is a parameter: the \<open>ethereum\<close> package returns Go errors,
  the services return Rosetta errors.
\<close>

datatype crash = NilDeref | IndexOutOfRange | LogFatal string

datatype ('e, 'a) result = Ok 'a | Err 'e | Crash crash

type_synonym 'a outcome = "(gerr, 'a) result"

fun andThen :: "('e, 'a) result \<Rightarrow> ('a \<Rightarrow> ('e, 'b) result) \<Rightarrow> ('e, 'b) result" where
  "andThen (Ok x) f = f x"
| "andThen (Err e) f = Err e"
| "andThen (Crash c) f = Crash c"

text \<open>\<open>if err != nil { return ..., g(err) }\<close>\<close>

fun mapErr :: "('e \<Rightarrow> 'f) \<Rightarrow> ('e, 'a) result \<Rightarrow> ('f, 'a) result" where
  "mapErr g (Ok x) = Ok x"
| "mapErr g (Err e) = Err (g e)"
| "mapErr g (Crash c) = Crash c"

definition wrapWith :: "string \<Rightarrow> 'a outcome \<Rightarrow> 'a outcome" where
  "wrapWith m = mapErr (\<lambda>e. Wrapf e m)"

text \<open>Dereference of a pointer that may be nil.\<close>

fun deref :: "'a option \<Rightarrow> ('e, 'a) result" where
  "deref None = Crash NilDeref"
| "deref (Some x) = Ok x"

text \<open>\<open>xs[i]\<close>, and the slice \<open>s[n:]\<close>.\<close>

fun index :: "'a list \<Rightarrow> nat \<Rightarrow> ('e, 'a) result" where
  "index [] i = Crash IndexOutOfRange"
| "index (x # xs) 0 = Ok x"
| "index (x # xs) (Suc i) = index xs i"

definition slice_from :: "nat \<Rightarrow> 'a list \<Rightarrow> ('e, 'a list) result" where
  "slice_from n xs = (if n \<le> length xs then Ok (drop n xs) else Crash IndexOutOfRange)"

text \<open>A loop that runs its body on every element and collects the results.\<close>

fun mapM :: "('a \<Rightarrow> ('e, 'b) result) \<Rightarrow> 'a list \<Rightarrow> ('e, 'b list) result" where
  "mapM f [] = Ok []"
| "mapM f (x # xs) = andThen (f x) (\<lambda>y. andThen (mapM f xs) (\<lambda>ys. Ok (y # ys)))"

text \<open>A loop that passes a state through its body.\<close>

fun foldM :: "('a \<Rightarrow> 's \<Rightarrow> ('e, 's) result) \<Rightarrow> 'a list \<Rightarrow> 's \<Rightarrow> ('e, 's) result" where
  "foldM f [] s = Ok s"
| "foldM f (x # xs) s = andThen (f x s) (foldM f xs)"

lemma andThen_Ok_iff [simp]: "andThen m f = Ok y \<longleftrightarrow> (\<exists>x. m = Ok x \<and> f x = Ok y)"
  by (cases m) auto

lemma andThen_Crash_iff: "andThen m f = Crash c \<longleftrightarrow> m = Crash c \<or> (\<exists>x. m = Ok x \<and> f x = Crash c)"
  by (cases m) auto

lemma andThen_Err_iff: "andThen m f = Err e \<longleftrightarrow> m = Err e \<or> (\<exists>x. m = Ok x \<and> f x = Err e)"
  by (cases m) auto

lemma mapErr_Ok_iff [simp]: "mapErr g m = Ok y \<longleftrightarrow> m = Ok y"
  by (cases m) auto

lemma mapErr_Crash_iff [simp]: "mapErr g m = Crash c \<longleftrightarrow> m = Crash c"
  by (cases m) auto

lemma mapErr_Err_iff: "mapErr g m = Err e \<longleftrightarrow> (\<exists>e'. m = Err e' \<and> e = g e')"
  by (cases m) auto

lemma wrapWith_simps [simp]:
  "wrapWith m (Ok x) = Ok x" "wrapWith m (Err e) = Err (Wrapf e m)" "wrapWith m (Crash c) = Crash c"
  "wrapWith m r = Ok y \<longleftrightarrow> r = Ok y" "wrapWith m r = Crash c \<longleftrightarrow> r = Crash c"
  by (simp_all add: wrapWith_def)

lemma deref_Ok_iff [simp]: "deref p = Ok x \<longleftrightarrow> p = Some x"
  by (cases p) auto

lemma deref_Err [simp]: "deref p \<noteq> Err e"
  by (cases p) auto

lemma deref_Crash_iff [simp]: "deref p = Crash c \<longleftrightarrow> p = None \<and> c = NilDeref"
  by (cases p) auto

lemma index_Ok_iff: "index xs i = Ok x \<longleftrightarrow> i < length xs \<and> xs ! i = x"
  by (induction xs i rule: index.induct) auto

lemma index_in_range [simp]: "i < length xs \<Longrightarrow> index xs i = Ok (xs ! i)"
  by (simp add: index_Ok_iff)

lemma index_not_Err [simp]: "index xs i \<noteq> Err e"
  by (induction xs i rule: index.induct) auto

lemma slice_from_Ok_iff [simp]: "slice_from n xs = Ok ys \<longleftrightarrow> n \<le> length xs \<and> ys = drop n xs"
  by (auto simp: slice_from_def)

lemma foldM_append: "foldM f (xs @ ys) s = andThen (foldM f xs s) (foldM f ys)"
proof (induction xs arbitrary: s)
  case Nil
  then show ?case by simp
next
  case (Cons x xs)
  then show ?case by (cases "f x s") simp_all
qed

text \<open>An invariant of the loop body is an invariant of the loop.\<close>

lemma foldM_invariant:
  assumes "foldM f xs s = Ok t" and "I s"
    and "\<And>x s t. x \<in> set xs \<Longrightarrow> I s \<Longrightarrow> f x s = Ok t \<Longrightarrow> I t"
  shows "I t"
  using assms
proof (induction xs arbitrary: s)
  case Nil
  then show ?case by simp
next
  case (Cons x xs)
  then obtain u where u: "f x s = Ok u" "foldM f xs u = Ok t" by auto
  with Cons.prems(2,3) have "I u" by auto
  with Cons.IH [of u] u(2) Cons.prems(3) show ?case by auto
qed

lemma mapM_Ok_length: "mapM f xs = Ok ys \<Longrightarrow> length ys = length xs"
  by (induction xs arbitrary: ys) auto

lemma mapM_Ok_nth: "mapM f xs = Ok ys \<Longrightarrow> i < length xs \<Longrightarrow> f (xs ! i) = Ok (ys ! i)"
proof (induction xs arbitrary: ys i)
  case Nil
  then show ?case by simp
next
  case (Cons x xs)
  then show ?case by (cases i) auto
qed

lemma mapM_total: "(\<And>x. x \<in> set xs \<Longrightarrow> f x = Ok (g x)) \<Longrightarrow> mapM f xs = Ok (map g xs)"
  by (induction xs) auto

lemma mapM_Ok_set: "mapM f xs = Ok ys \<Longrightarrow> y \<in> set ys \<Longrightarrow> \<exists>x \<in> set xs. f x = Ok y"
  by (induction xs arbitrary: ys) auto

text \<open>A loop that checks every element and stops at the first that fails.\<close>

lemma mapM_check:
  assumes "\<And>x. x \<in> set xs \<Longrightarrow> f x = (if P x then Ok (g x) else Err (k x))"
  shows "(\<forall>x \<in> set xs. P x) \<Longrightarrow> mapM f xs = Ok (map g xs)"
    and "\<exists>x \<in> set xs. \<not> P x \<Longrightarrow> \<exists>x \<in> set xs. \<not> P x \<and> mapM f xs = Err (k x)"
proof -
  show "(\<forall>x \<in> set xs. P x) \<Longrightarrow> mapM f xs = Ok (map g xs)"
    using assms by (intro mapM_total) simp
  show "\<exists>x \<in> set xs. \<not> P x \<Longrightarrow> \<exists>x \<in> set xs. \<not> P x \<and> mapM f xs = Err (k x)"
    using assms
  proof (induction xs)
    case (Cons x xs)
    show ?case
    proof (cases "P x")
      case True
      with Cons show ?thesis by fastforce
    qed (use Cons.prems(2) in simp)
  qed simp
qed

text \<open>\<open>ok_with P r\<close>: the call returned a value that satisfies \<open>P\<close>. It evaluates on a concrete call.\<close>

fun ok_with :: "('a \<Rightarrow> bool) \<Rightarrow> ('e, 'a) result \<Rightarrow> bool" where
  "ok_with P (Ok x) = P x"
| "ok_with P (Err e) = False"
| "ok_with P (Crash c) = False"

lemma ok_with_iff: "ok_with P r \<longleftrightarrow> (\<exists>x. r = Ok x \<and> P x)"
  by (cases r) auto

section \<open>Calls that change the outside world\<close>

text \<open>
  The node, the network and the shared trace semaphore are outside the program; \<open>'w\<close> is
  their state. A call reads and changes it.
\<close>

type_synonym ('w, 'e, 'a) io = "'w \<Rightarrow> ('e, 'a) result \<times> 'w"

definition io_lift :: "('e, 'a) result \<Rightarrow> ('w, 'e, 'a) io" where
  "io_lift r w = (r, w)"

definition io_bind :: "('w, 'e, 'a) io \<Rightarrow> ('a \<Rightarrow> ('w, 'e, 'b) io) \<Rightarrow> ('w, 'e, 'b) io" where
  "io_bind m f w = (case m w of (Ok x, w') \<Rightarrow> f x w' | (Err e, w') \<Rightarrow> (Err e, w')
     | (Crash c, w') \<Rightarrow> (Crash c, w'))"

definition io_mapErr :: "('e \<Rightarrow> 'f) \<Rightarrow> ('w, 'e, 'a) io \<Rightarrow> ('w, 'f, 'a) io" where
  "io_mapErr g m w = (case m w of (r, w') \<Rightarrow> (mapErr g r, w'))"

text \<open>\<open>defer g()\<close>: \<open>g\<close> runs when the body returns, whether normally, with an error or by a panic.\<close>

definition io_defer :: "('w \<Rightarrow> 'w) \<Rightarrow> ('w, 'e, 'a) io \<Rightarrow> ('w, 'e, 'a) io" where
  "io_defer g m w = (case m w of (r, w') \<Rightarrow> (r, g w'))"

lemma io_bind_Ok_iff:
  "io_bind m f w = (Ok y, w'') \<longleftrightarrow> (\<exists>x w'. m w = (Ok x, w') \<and> f x w' = (Ok y, w''))"
  by (auto simp: io_bind_def split: prod.splits result.splits)

lemma io_bindE:
  assumes "io_bind m f w = (Ok y, w'')"
  obtains x w' where "m w = (Ok x, w')" and "f x w' = (Ok y, w'')"
  using assms by (auto simp: io_bind_Ok_iff)

lemma io_mapErr_Ok_iff [simp]: "io_mapErr g m w = (Ok y, w') \<longleftrightarrow> m w = (Ok y, w')"
  by (auto simp: io_mapErr_def split: prod.splits)

lemma io_lift_Ok_iff [simp]: "io_lift r w = (Ok y, w') \<longleftrightarrow> r = Ok y \<and> w' = w"
  by (auto simp: io_lift_def)

text \<open>
  \<open>preserves P m\<close>: \<open>m\<close> keeps \<open>P\<close> of the world, whatever its result. Closed under every
  combinator.
\<close>

definition preserves :: "('w \<Rightarrow> 'b) \<Rightarrow> ('w, 'e, 'a) io \<Rightarrow> bool" where
  "preserves p m \<longleftrightarrow> (\<forall>w. p (snd (m w)) = p w)"

lemma preserves_lift [intro, simp]: "preserves p (io_lift r)"
  by (simp add: preserves_def io_lift_def)

lemma preserves_bind [intro]:
  "preserves p m \<Longrightarrow> (\<And>x. preserves p (f x)) \<Longrightarrow> preserves p (io_bind m f)"
  unfolding preserves_def io_bind_def
  by (auto split: prod.splits result.splits) (metis snd_conv)+

lemma preserves_mapErr [intro]: "preserves p m \<Longrightarrow> preserves p (io_mapErr g m)"
  unfolding preserves_def io_mapErr_def by (simp add: case_prod_beta)

text \<open>The body between taking and giving back a resource of which the world counts what is held.\<close>

lemma preserves_bracket:
  assumes "\<And>w. case acq w of (Ok _, w') \<Rightarrow> held w' = held w + (1::int) | (_, w') \<Rightarrow> held w' = held w"
    and "\<And>w. held (rel w) = held w - 1" and "preserves held m"
  shows "preserves held (io_bind acq (\<lambda>_. io_defer rel m))"
  unfolding preserves_def
proof
  fix w
  obtain r w1 where a: "acq w = (r, w1)" by fastforce
  with assms(1) [of w] assms(2) assms(3)
  show "held (snd (io_bind acq (\<lambda>_. io_defer rel m) w)) = held w"
    by (cases r) (simp_all add: io_bind_def io_defer_def preserves_def case_prod_beta)
qed

lemma io_bind_lift [simp]:
  "io_bind (io_lift (Ok x)) f = f x" "io_bind (io_lift (Err e)) f = io_lift (Err e)"
  "io_bind (io_lift (Crash c)) f = io_lift (Crash c)"
  by (simp_all add: fun_eq_iff io_bind_def io_lift_def)

lemma io_bind_step:
  "m w = (Ok x, w') \<Longrightarrow> io_bind m f w = f x w'"
  "m w = (Err e, w') \<Longrightarrow> io_bind m f w = (Err e, w')"
  "m w = (Crash c, w') \<Longrightarrow> io_bind m f w = (Crash c, w')"
  by (simp_all add: io_bind_def)

lemma ok_with_run: "ok_with P (fst (m w)) \<Longrightarrow> \<exists>x. m w = (Ok x, snd (m w)) \<and> P x"
  by (cases "m w") (auto simp: ok_with_iff)

lemma ok_with_returns: "ok_with P (fst (m w)) \<Longrightarrow> snd (m w) = w' \<Longrightarrow> \<exists>x. m w = (Ok x, w') \<and> P x"
  using ok_with_run [of P m w] by simp

lemma io_bind_mapM_length:
  "io_bind m (\<lambda>r. io_lift (mapM (f r) xs)) w = (Ok ys, w') \<Longrightarrow> length ys = length xs"
  by (elim io_bindE) (auto dest: mapM_Ok_length)

lemma io_bind_assoc: "io_bind (io_bind m f) g = io_bind m (\<lambda>x. io_bind (f x) g)"
  by (rule ext) (simp add: io_bind_def split: prod.splits result.splits)

end
