(* ===== verification/GoText.thy ===== *)
theory GoText
  imports GoRuntime
begin

text \<open>
  Integers as text, the part of \<open>math/big\<close>, \<open>strconv\<close> and \<open>fmt\<close> the source uses:
  \<open>big.Int.String\<close> and \<open>strconv.FormatInt\<close> in base 10, \<open>big.Int.SetString\<close> in base 10 and
  16, \<open>strconv.Atoi\<close>/\<open>ParseInt\<close> in base 10 and \<open>strconv.ParseBool\<close>. Printing and parsing are
  inverse, which the amounts of the emitted operations rest on.
\<close>

section \<open>Digits\<close>

definition digit_char :: "nat \<Rightarrow> char" where
  "digit_char d = (if d < 10 then char_of (48 + d) else char_of (87 + d))"

text \<open>The value of a digit character; both letter cases are accepted up to base 36.\<close>

definition digit_val :: "char \<Rightarrow> nat option" where
  "digit_val c = (let n = of_char c :: nat in
     if 48 \<le> n \<and> n \<le> 57 then Some (n - 48)
     else if 97 \<le> n \<and> n \<le> 122 then Some (n - 87)
     else if 65 \<le> n \<and> n \<le> 90 then Some (n - 55)
     else None)"

fun digits :: "nat \<Rightarrow> nat \<Rightarrow> string" where
  "digits b n = (if b < 2 \<or> n < b then [digit_char n]
     else digits b (n div b) @ [digit_char (n mod b)])"

declare digits.simps [simp del]

fun parse_digits :: "nat \<Rightarrow> nat \<Rightarrow> string \<Rightarrow> nat option" where
  "parse_digits b acc [] = Some acc"
| "parse_digits b acc (c # cs) =
     (case digit_val c of None \<Rightarrow> None
      | Some d \<Rightarrow> if d < b then parse_digits b (acc * b + d) cs else None)"

definition parse_nat :: "nat \<Rightarrow> string \<Rightarrow> nat option" where
  "parse_nat b s = (if s = [] then None else parse_digits b 0 s)"

lemma digit_val_char [simp]: "d < 36 \<Longrightarrow> digit_val (digit_char d) = Some d"
  by (auto simp: digit_val_def digit_char_def)

lemma digits_nonempty [simp]: "digits b n \<noteq> []"
  by (subst digits.simps) simp

lemma parse_digits_append:
  "parse_digits b acc (xs @ ys) =
     (case parse_digits b acc xs of None \<Rightarrow> None | Some a \<Rightarrow> parse_digits b a ys)"
  by (induction b acc xs rule: parse_digits.induct) (auto split: option.splits)

lemma parse_digits_digits: "2 \<le> b \<Longrightarrow> b \<le> 36 \<Longrightarrow> parse_digits b 0 (digits b n) = Some n"
proof (induction b n rule: digits.induct)
  case (1 b n)
  show ?case
  proof (cases "n < b")
    case True
    then show ?thesis using "1.prems" by (subst digits.simps) simp
  next
    case False
    moreover have "n mod b < b" and "n mod b < 36"
      using "1.prems" by (auto intro: less_le_trans [of _ b] mod_less_divisor)
    ultimately show ?thesis using "1.prems" "1.IH"
      by (subst digits.simps) (simp add: parse_digits_append)
  qed
qed

lemma parse_nat_digits [simp]: "2 \<le> b \<Longrightarrow> b \<le> 36 \<Longrightarrow> parse_nat b (digits b n) = Some n"
  by (simp add: parse_nat_def parse_digits_digits)

text \<open>The first character of a printed number is a digit, not a sign.\<close>

lemma digit_val_sign [simp]: "digit_val (CHR ''-'') = None" "digit_val (CHR ''+'') = None"
  by (simp_all add: digit_val_def)

lemma digit_char_no_sign:
  assumes "d < 36"
  shows "digit_char d \<noteq> CHR ''-'' \<and> digit_char d \<noteq> CHR ''+''"
  using digit_val_char [OF assms] digit_val_sign by (metis option.distinct(1))

lemma digits_no_sign:
  "2 \<le> b \<Longrightarrow> b \<le> 36 \<Longrightarrow> \<forall>c \<in> set (digits b n). c \<noteq> CHR ''-'' \<and> c \<noteq> CHR ''+''"
proof (induction b n rule: digits.induct)
  case (1 b n)
  have "n mod b < 36" and "n < b \<Longrightarrow> n < 36"
    using "1.prems" by (auto intro: less_le_trans [of _ b] mod_less_divisor)
  then show ?case using "1.prems" "1.IH"
    by (subst digits.simps) (auto simp: digit_char_no_sign)
qed

section \<open>Signed integers\<close>

text \<open>\<open>big.Int.String()\<close> and \<open>strconv.FormatInt(x, 10)\<close>.\<close>

definition int_string :: "int \<Rightarrow> string" where
  "int_string x = (if x < 0 then CHR ''-'' # digits 10 (nat (- x)) else digits 10 (nat x))"

text \<open>\<open>new(big.Int).SetString(s, base)\<close> for a base from 2 to 36: an optional sign and at least one digit.\<close>

fun SetString :: "nat \<Rightarrow> string \<Rightarrow> int option" where
  "SetString b [] = None"
| "SetString b (c # cs) =
     (if c = CHR ''-'' then map_option (\<lambda>n. - int n) (parse_nat b cs)
      else if c = CHR ''+'' then map_option int (parse_nat b cs)
      else map_option int (parse_nat b (c # cs)))"

lemma SetString_int_string [simp]: "SetString 10 (int_string x) = Some x"
proof (cases "x < 0")
  case True
  then show ?thesis by (simp add: int_string_def)
next
  case False
  obtain c cs where d: "digits 10 (nat x) = c # cs"
    by (meson digits_nonempty neq_Nil_conv)
  with digits_no_sign [of 10 "nat x"] have "c \<noteq> CHR ''-''" "c \<noteq> CHR ''+''" by simp_all
  with False d parse_nat_digits [of 10 "nat x"] show ?thesis by (simp add: int_string_def)
qed

lemma int_string_inject [simp]: "int_string x = int_string y \<longleftrightarrow> x = y"
  by (metis SetString_int_string option.inject)

text \<open>\<open>strconv.ParseInt(s, 10, 64)\<close> and \<open>strconv.Atoi(s)\<close>: \<open>None\<close> for a syntax or range error.\<close>

definition Atoi :: "string \<Rightarrow> int option" where
  "Atoi s = (case SetString 10 s of None \<Rightarrow> None
     | Some x \<Rightarrow> if int64_range x then Some x else None)"

lemma Atoi_range: "Atoi s = Some x \<Longrightarrow> int64_range x"
  by (auto simp: Atoi_def split: option.splits if_splits)

lemma Atoi_int_string [simp]: "int64_range x \<Longrightarrow> Atoi (int_string x) = Some x"
  by (simp add: Atoi_def)

text \<open>\<open>strconv.ParseBool\<close>.\<close>

definition ParseBool :: "string \<Rightarrow> bool option" where
  "ParseBool s =
     (if s \<in> set [''1'', ''t'', ''T'', ''TRUE'', ''true'', ''True''] then Some True
      else if s \<in> set [''0'', ''f'', ''F'', ''FALSE'', ''false'', ''False''] then Some False
      else None)"

end
