(* ===== verification/GoJson.thy ===== *)
theory GoJson
  imports GoText
begin

text \<open>
  JSON documents by their syntax trees, and the part of \<open>encoding/json\<close> the source uses:
  decoding into struct fields of type string, bool, int64 and pointers, and the maps
  \<open>map[string]interface{}\<close>. A number is kept as its literal. A document that crosses the API
  as text is \<open>Some\<close> of its tree, or \<open>None\<close> where the text is not JSON.
\<close>

datatype json =
    JNull
  | JBool bool
  | JNum string
  | JStr string
  | JArr "json list"
  | JObj "(string \<times> json) list"

type_synonym json_text = "json option"
type_synonym json_map = "(string \<times> json) list"

definition ascii_lower :: "char \<Rightarrow> char" where
  "ascii_lower c = (if 65 \<le> (of_char c :: nat) \<and> (of_char c :: nat) \<le> 90
     then char_of ((of_char c :: nat) + 32) else c)"

text \<open>
  The value a struct field gets: the last entry whose key equals the field's name up to
  letter case. In an object that repeats a key this is not all Go does: a later \<open>null\<close> leaves an earlier value in
  place and later objects are merged into earlier ones. No such objects are considered.
\<close>

definition json_field :: "string \<Rightarrow> json_map \<Rightarrow> json option" where
  "json_field name kvs =
     (case rev (filter (\<lambda>e. map ascii_lower (fst e) = map ascii_lower name) kvs) of
        [] \<Rightarrow> None | e # _ \<Rightarrow> Some (snd e))"

definition json_type_error :: "string \<Rightarrow> gerr" where
  "json_type_error what = ErrorNew (''json: cannot unmarshal into '' @ what)"

definition json_syntax_error :: gerr where
  "json_syntax_error = ErrorNew ''invalid character in JSON text''"

definition json_parse :: "json_text \<Rightarrow> json outcome" where
  "json_parse t = (case t of None \<Rightarrow> Err json_syntax_error | Some j \<Rightarrow> Ok j)"

text \<open>Decoding into a struct: \<open>null\<close> leaves the zero value, anything else but an object fails.\<close>

fun json_struct :: "json \<Rightarrow> json_map outcome" where
  "json_struct (JObj kvs) = Ok kvs"
| "json_struct JNull = Ok []"
| "json_struct _ = Err (json_type_error ''struct'')"

fun str_value :: "string \<Rightarrow> json option \<Rightarrow> string outcome" where
  "str_value name (Some (JStr s)) = Ok s"
| "str_value name (Some JNull) = Ok []"
| "str_value name None = Ok []"
| "str_value name (Some _) = Err (json_type_error name)"

fun bool_value :: "string \<Rightarrow> json option \<Rightarrow> bool outcome" where
  "bool_value name (Some (JBool b)) = Ok b"
| "bool_value name (Some JNull) = Ok False"
| "bool_value name None = Ok False"
| "bool_value name (Some _) = Err (json_type_error name)"

text \<open>A field of type \<open>*int64\<close>; the plain \<open>int64\<close> field reads an absent value as 0.\<close>

fun int_ptr_value :: "string \<Rightarrow> json option \<Rightarrow> int option outcome" where
  "int_ptr_value name (Some (JNum l)) =
     (case Atoi l of None \<Rightarrow> Err (json_type_error name) | Some x \<Rightarrow> Ok (Some x))"
| "int_ptr_value name (Some JNull) = Ok None"
| "int_ptr_value name None = Ok None"
| "int_ptr_value name (Some _) = Err (json_type_error name)"

definition int_value :: "string \<Rightarrow> json option \<Rightarrow> int outcome" where
  "int_value name v = andThen (int_ptr_value name v) (\<lambda>p. Ok (case p of None \<Rightarrow> 0 | Some x \<Rightarrow> x))"

definition get_str :: "json_map \<Rightarrow> string \<Rightarrow> string outcome" where
  "get_str kvs name = str_value name (json_field name kvs)"

definition get_bool :: "json_map \<Rightarrow> string \<Rightarrow> bool outcome" where
  "get_bool kvs name = bool_value name (json_field name kvs)"

definition get_int :: "json_map \<Rightarrow> string \<Rightarrow> int outcome" where
  "get_int kvs name = int_value name (json_field name kvs)"

definition get_int_ptr :: "json_map \<Rightarrow> string \<Rightarrow> int option outcome" where
  "get_int_ptr kvs name = int_ptr_value name (json_field name kvs)"

text \<open>\<open>json.Unmarshal\<close> into \<open>map[string]interface{}\<close>: \<open>null\<close> leaves a nil map.\<close>

fun json_map_value :: "json \<Rightarrow> json_map outcome" where
  "json_map_value (JObj kvs) = Ok kvs"
| "json_map_value JNull = Ok []"
| "json_map_value _ = Err (json_type_error ''map[string]interface {}'')"

lemmas json_get_defs = get_str_def get_bool_def get_int_def get_int_ptr_def int_value_def

lemma str_value_not_Crash [simp]: "str_value name v \<noteq> Crash c"
  by (cases "(name, v)" rule: str_value.cases) simp_all

lemma bool_value_not_Crash [simp]: "bool_value name v \<noteq> Crash c"
  by (cases "(name, v)" rule: bool_value.cases) simp_all

lemma int_ptr_value_not_Crash [simp]: "int_ptr_value name v \<noteq> Crash c"
  by (cases "(name, v)" rule: int_ptr_value.cases) (simp_all split: option.splits)

lemma get_not_Crash [simp]:
  "get_str kvs n \<noteq> Crash c" "get_bool kvs n \<noteq> Crash c" "get_int kvs n \<noteq> Crash c"
  "get_int_ptr kvs n \<noteq> Crash c"
  by (simp_all add: json_get_defs andThen_Crash_iff)

lemma json_struct_not_Crash [simp]: "json_struct j \<noteq> Crash c"
  by (cases j) simp_all

lemma json_map_value_not_Crash [simp]: "json_map_value j \<noteq> Crash c"
  by (cases j) simp_all

end
