(* ===== verification/EthTypes.thy ===== *)
theory EthTypes
  imports GoJson
begin

text \<open>
  The data of the API (the Rosetta SDK structs the source builds and reads, with the fields it
  uses) and the constants and predicates of \<open>ethereum/types.go\<close>.
\<close>

section \<open>Rosetta data\<close>

record currency =
  symbol :: string
  decimals :: int

record amount =
  amt_value :: string
  amt_currency :: currency

text \<open>
  An operation: its index, the indices of its related operations, type, status (a pointer that
  is nil in construction requests), account address (nil where the account is absent), amount
  (nil for a zero transfer) and metadata.
\<close>

record operation =
  op_index :: int
  op_related :: "int list"
  op_type :: string
  op_status :: "string option"
  op_account :: "string option"
  op_amount :: "amount option"
  op_metadata :: json_map

record block_identifier =
  bi_hash :: string
  bi_index :: int

record partial_block_identifier =
  pb_hash :: "string option"
  pb_index :: "int option"

record rosetta_transaction =
  rt_hash :: string
  rt_operations :: "operation list"
  rt_metadata :: json_map

text \<open>A block; its transactions are pointers.\<close>

record rosetta_block =
  rb_identifier :: block_identifier
  rb_parent :: block_identifier
  rb_timestamp :: int
  rb_transactions :: "rosetta_transaction option list"

record sync_status =
  current_index :: "int option"
  target_index :: "int option"

record peer =
  peer_id :: string
  peer_metadata :: json_map

record network_identifier =
  ni_blockchain :: string
  ni_network :: string

record operation_status =
  os_status :: string
  os_successful :: bool

section \<open>Constants of \<open>ethereum/types.go\<close>\<close>

definition NodeVersion :: string where "NodeVersion = ''1.9.24''"
definition Blockchain :: string where "Blockchain = ''Ethereum''"
definition MainnetNetwork :: string where "MainnetNetwork = ''Mainnet''"
definition RopstenNetwork :: string where "RopstenNetwork = ''Ropsten''"
definition RinkebyNetwork :: string where "RinkebyNetwork = ''Rinkeby''"
definition GoerliNetwork :: string where "GoerliNetwork = ''Goerli''"
definition DevNetwork :: string where "DevNetwork = ''Dev''"

definition MinerRewardOpType :: string where "MinerRewardOpType = ''MINER_REWARD''"
definition UncleRewardOpType :: string where "UncleRewardOpType = ''UNCLE_REWARD''"
definition FeeOpType :: string where "FeeOpType = ''FEE''"
definition CallOpType :: string where "CallOpType = ''CALL''"
definition CreateOpType :: string where "CreateOpType = ''CREATE''"
definition Create2OpType :: string where "Create2OpType = ''CREATE2''"
definition SelfDestructOpType :: string where "SelfDestructOpType = ''SELFDESTRUCT''"
definition CallCodeOpType :: string where "CallCodeOpType = ''CALLCODE''"
definition DelegateCallOpType :: string where "DelegateCallOpType = ''DELEGATECALL''"
definition StaticCallOpType :: string where "StaticCallOpType = ''STATICCALL''"
definition DestructOpType :: string where "DestructOpType = ''DESTRUCT''"

lemmas op_type_defs = MinerRewardOpType_def UncleRewardOpType_def FeeOpType_def CallOpType_def
  CreateOpType_def Create2OpType_def SelfDestructOpType_def CallCodeOpType_def
  DelegateCallOpType_def StaticCallOpType_def DestructOpType_def

definition SuccessStatus :: string where "SuccessStatus = ''SUCCESS''"
definition FailureStatus :: string where "FailureStatus = ''FAILURE''"

lemma status_distinct [simp]: "SuccessStatus \<noteq> FailureStatus" "FailureStatus \<noteq> SuccessStatus"
  by (simp_all add: SuccessStatus_def FailureStatus_def)

definition HistoricalBalanceSupported :: bool where "HistoricalBalanceSupported = True"
definition IncludeMempoolCoins :: bool where "IncludeMempoolCoins = False"
definition UnclesRewardMultiplier :: int where "UnclesRewardMultiplier = 32"
definition MaxUncleDepth :: int where "MaxUncleDepth = 8"
definition GenesisBlockIndex :: int where "GenesisBlockIndex = 0"
definition TransferGasLimit :: int where "TransferGasLimit = 21000"

definition MainnetGethArguments :: string where
  "MainnetGethArguments = ''--config=/app/ethereum/geth.toml --gcmode=archive --graphql''"
definition RopstenGethArguments :: string where
  "RopstenGethArguments = MainnetGethArguments @ '' --ropsten''"
definition RinkebyGethArguments :: string where
  "RinkebyGethArguments = MainnetGethArguments @ '' --rinkeby''"
definition GoerliGethArguments :: string where
  "GoerliGethArguments = MainnetGethArguments @ '' --goerli''"
definition DevGethArguments :: string where
  "DevGethArguments = MainnetGethArguments @ '' --dev''"

text \<open>The variable \<open>Currency\<close>: symbol \<open>ETH\<close>, 18 decimals.\<close>

definition Currency :: currency where
  "Currency = \<lparr>symbol = ''ETH'', decimals = 18\<rparr>"

definition OperationTypes :: "string list" where
  "OperationTypes = [MinerRewardOpType, UncleRewardOpType, FeeOpType, CallOpType, CreateOpType,
     Create2OpType, SelfDestructOpType, CallCodeOpType, DelegateCallOpType, StaticCallOpType,
     DestructOpType]"

definition OperationStatuses :: "operation_status list" where
  "OperationStatuses =
     [\<lparr>os_status = SuccessStatus, os_successful = True\<rparr>,
      \<lparr>os_status = FailureStatus, os_successful = False\<rparr>]"

definition CallMethods :: "string list" where
  "CallMethods = [''eth_getBlockByNumber'', ''eth_getTransactionReceipt'', ''eth_call'',
     ''eth_estimateGas'']"

text \<open>\<open>CallType\<close> and \<open>CreateType\<close>: the loops return true at the first equal entry.\<close>

fun any_equal :: "string list \<Rightarrow> string \<Rightarrow> bool" where
  "any_equal [] t = False"
| "any_equal (c # cs) t = (if c = t then True else any_equal cs t)"

definition CallType :: "string \<Rightarrow> bool" where
  "CallType t = any_equal [CallOpType, CallCodeOpType, DelegateCallOpType, StaticCallOpType] t"

definition CreateType :: "string \<Rightarrow> bool" where
  "CreateType t = any_equal [CreateOpType, Create2OpType] t"

lemma any_equal_iff [simp]: "any_equal cs t \<longleftrightarrow> t \<in> set cs"
  by (induction cs) auto

text \<open>A self-destruct is neither a call nor a create, so its operations are always emitted.\<close>

lemma SelfDestruct_kind [simp]: "\<not> CallType SelfDestructOpType" "\<not> CreateType SelfDestructOpType"
  by (simp_all add: CallType_def CreateType_def op_type_defs)

lemma CreateType_not_CallType: "CreateType t \<Longrightarrow> \<not> CallType t"
  by (auto simp: CallType_def CreateType_def op_type_defs)

section \<open>Amounts\<close>

text \<open>An amount in wei, in the currency of the network.\<close>

definition wei :: "int \<Rightarrow> amount" where
  "wei x = \<lparr>amt_value = int_string x, amt_currency = Currency\<rparr>"

text \<open>The signed value an operation moves: an absent amount moves nothing.\<close>

definition op_value :: "operation \<Rightarrow> int" where
  "op_value p = (case op_amount p of None \<Rightarrow> 0
     | Some a \<Rightarrow> (case SetString 10 (amt_value a) of None \<Rightarrow> 0 | Some x \<Rightarrow> x))"

definition op_success :: "operation \<Rightarrow> bool" where
  "op_success p \<longleftrightarrow> op_status p = Some SuccessStatus"

text \<open>The net effect of a list of operations on an account, counting the successful ones.\<close>

definition net_effect :: "string \<Rightarrow> operation list \<Rightarrow> int" where
  "net_effect a ops = sum_list (map op_value (filter (\<lambda>p. op_success p \<and> op_account p = Some a) ops))"

lemma wei_value [simp]: "amt_value (wei x) = int_string x" "amt_currency (wei x) = Currency"
  by (simp_all add: wei_def)

lemma net_effect_Nil [simp]: "net_effect a [] = 0"
  by (simp add: net_effect_def)

lemma net_effect_append [simp]: "net_effect a (xs @ ys) = net_effect a xs + net_effect a ys"
  by (simp add: net_effect_def)

lemma net_effect_single [simp]:
  "net_effect a [p] = (if op_success p \<and> op_account p = Some a then op_value p else 0)"
  by (simp add: net_effect_def)

lemma net_effect_Cons:
  "net_effect a (p # ps) = (if op_success p \<and> op_account p = Some a then op_value p else 0)
     + net_effect a ps"
  by (simp add: net_effect_def)

section \<open>Well-formed operation lists\<close>

text \<open>
  What the API requires of the operations of a transaction, and of any consecutive part that
  starts at index \<open>s\<close>: indices count up from \<open>s\<close>, related operations come earlier in the same
  part, and types and statuses are declared ones.
\<close>

definition op_ok :: "int \<Rightarrow> operation \<Rightarrow> bool" where
  "op_ok s p \<longleftrightarrow> op_type p \<in> set OperationTypes
     \<and> (\<exists>st \<in> set OperationStatuses. op_status p = Some (os_status st))
     \<and> (\<forall>r \<in> set (op_related p). s \<le> r \<and> r < op_index p)"

definition ops_wf :: "int \<Rightarrow> operation list \<Rightarrow> bool" where
  "ops_wf s ops \<longleftrightarrow> indexed op_index s ops \<and> (\<forall>p \<in> set ops. op_ok s p)"

lemma ops_wf_Nil [simp]: "ops_wf s []"
  by (simp add: ops_wf_def)

lemma op_ok_mono: "op_ok t p \<Longrightarrow> s \<le> t \<Longrightarrow> op_ok s p"
  by (auto simp: op_ok_def)

lemma ops_wf_append:
  "ops_wf s xs \<Longrightarrow> ops_wf (s + int (length xs)) ys \<Longrightarrow> ops_wf s (xs @ ys)"
  by (auto simp: ops_wf_def intro: op_ok_mono)

end
