(* ===== verification/GethLib.thy ===== *)
theory GethLib
  imports EthTypes
begin

text \<open>
  The interface of go-ethereum as the source uses it. Its code is not part of the repository,
  so every function of it is a field of the record \<open>geth\<close>, an argument of the definitions that
  call it; values of its types are records of what their accessors return. What the source
  relies on is stated as named laws, the documented behaviour of go-ethereum, and theorems
  that need a law take it as a hypothesis. \<open>standin\<close> is a small concrete instance on which
  the laws hold, used to apply those theorems to concrete inputs.

  \<open>ethereum/address.go\<close> is modelled here too, since everything that prints an address uses it.
\<close>

section \<open>Data of go-ethereum\<close>

type_synonym address = "160 word"
type_synonym hash = "256 word"
type_synonym uint64 = "64 word"
type_synonym bytes = "8 word list"

record eth_tx =
  tx_hash :: hash
  tx_type :: "8 word"
  tx_gas_price :: int
  tx_gas :: uint64
  tx_nonce :: uint64
  tx_to :: "address option"
  tx_value :: int
  tx_data :: bytes
  tx_chain_id :: int

text \<open>A block header; \<open>hd_hash\<close> is what its method \<open>Hash()\<close> computes, the base fee is nil before London.\<close>

record header =
  hd_hash :: hash
  hd_parent_hash :: hash
  hd_uncle_hash :: hash
  hd_tx_hash :: hash
  hd_coinbase :: address
  hd_number :: int
  hd_time :: uint64
  hd_base_fee :: "int option"

text \<open>A receipt; \<open>rc_marshal\<close> is the result of its method \<open>MarshalJSON\<close>, as a parsed document.\<close>

record receipt =
  rc_block_hash :: hash
  rc_gas_used :: uint64
  rc_marshal :: "json outcome"

text \<open>The chain configuration and the mining rewards of the ethash package.\<close>

record chain_config =
  cc_chain_id :: int
  cc_is_byzantium :: "int \<Rightarrow> bool"
  cc_is_constantinople :: "int \<Rightarrow> bool"

text \<open>What \<open>admin_peers\<close> reports of a peer.\<close>

record peer_info =
  pi_id :: string
  pi_name :: string
  pi_enode :: string
  pi_caps :: "string list"
  pi_enr :: string
  pi_protocols :: json_map

text \<open>
  The functions of go-ethereum. The decoders \<open>..._of_json\<close> are the JSON decoders of its types;
  \<open>address_json\<close> is the text of an address in JSON (lower case), and
  \<open>receipt_left j\<close> is what a failed decoding of \<open>j\<close> leaves in a \<open>*Receipt\<close> variable.
\<close>

record geth =
  mixedcase_address :: "string \<Rightarrow> address option"
  address_hex :: "address \<Rightarrow> string"
  address_json :: "address \<Rightarrow> string"
  hex_to_address :: "string \<Rightarrow> address"
  hash_hex :: "hash \<Rightarrow> string"
  hex_to_hash :: "string \<Rightarrow> hash"
  encode_big :: "int \<Rightarrow> string"
  decode_big :: "string \<Rightarrow> int outcome"
  encode_uint64 :: "uint64 \<Rightarrow> string"
  decode_uint64 :: "string \<Rightarrow> uint64 outcome"
  encode_bytes :: "bytes \<Rightarrow> string"
  decode_bytes :: "string \<Rightarrow> bytes outcome"
  effective_gas_tip :: "eth_tx \<Rightarrow> int option \<Rightarrow> int outcome"
  empty_uncle_hash :: hash
  empty_root_hash :: hash
  not_found :: gerr
  frontier_reward :: int
  byzantium_reward :: int
  constantinople_reward :: int
  header_of_json :: "json \<Rightarrow> header outcome"
  receipt_of_json :: "json \<Rightarrow> receipt outcome"
  receipt_left :: "json \<Rightarrow> receipt option"
  tx_of_json :: "json \<Rightarrow> eth_tx outcome"
  big_of_json :: "json \<Rightarrow> int outcome"
  uint64_of_json :: "json \<Rightarrow> uint64 outcome"
  address_of_json :: "json \<Rightarrow> address outcome"
  hash_of_json :: "json \<Rightarrow> hash outcome"
  peer_info_of_json :: "json \<Rightarrow> peer_info outcome"
  rlp_encode :: "eth_tx \<Rightarrow> bytes outcome"

text \<open>
  The functions of the Rosetta SDK the client uses: \<open>sdk_document\<close> is the JSON document
  \<open>UnmarshalMap\<close> makes of a map before it decodes it, \<open>sdk_print_errors\<close> is \<open>PrintStruct\<close> of a
  list of GraphQL errors.
\<close>

record sdk =
  sdk_document :: "json_map \<Rightarrow> json outcome"
  sdk_print_errors :: "(string \<times> string list) list \<Rightarrow> string"

section \<open>Laws\<close>

text \<open>
  \<open>Address.Hex\<close> (also \<open>Address.String\<close>) returns the EIP-55 form of an address;
  \<open>NewMixedcaseAddressFromString\<close> and \<open>HexToAddress\<close> read it back.
\<close>

definition address_laws :: "geth \<Rightarrow> bool" where
  "address_laws G \<longleftrightarrow>
     (\<forall>a. mixedcase_address G (address_hex G a) = Some a \<and> hex_to_address G (address_hex G a) = a
        \<and> address_hex G a \<noteq> [])"

text \<open>
  \<open>hexutil\<close> encodings decode to the value encoded; \<open>DecodeBig\<close> accepts at most 256 bits.
\<close>

definition hexutil_laws :: "geth \<Rightarrow> bool" where
  "hexutil_laws G \<longleftrightarrow>
     (\<forall>x. 0 \<le> x \<and> x < 2 ^ 256 \<longrightarrow> decode_big G (encode_big G x) = Ok x)
     \<and> (\<forall>n. decode_uint64 G (encode_uint64 G n) = Ok n)
     \<and> (\<forall>bs. decode_bytes G (encode_bytes G bs) = Ok bs)"

text \<open>
  \<open>Transaction.EffectiveGasTip(baseFee)\<close> of a transaction with tip cap \<open>t\<close> and fee cap \<open>f\<close>:
  the tip cap without a base fee, an error where the fee cap is below the base fee, and the
  smaller of the tip cap and \<open>f - baseFee\<close> otherwise.
\<close>

definition gas_tip_law :: "geth \<Rightarrow> eth_tx \<Rightarrow> int \<Rightarrow> int \<Rightarrow> bool" where
  "gas_tip_law G tx t f \<longleftrightarrow> 0 \<le> t \<and> t \<le> f \<and> effective_gas_tip G tx None = Ok t
     \<and> (\<forall>b. 0 \<le> b \<and> b \<le> f \<longrightarrow> effective_gas_tip G tx (Some b) = Ok (min t (f - b)))
     \<and> (\<forall>b. f < b \<longrightarrow> (\<exists>e. effective_gas_tip G tx (Some b) = Err e))"

text \<open>The ethash rewards: 5, 3 and 2 ether.\<close>

definition reward_laws :: "geth \<Rightarrow> bool" where
  "reward_laws G \<longleftrightarrow> frontier_reward G = 5 * 10 ^ 18 \<and> byzantium_reward G = 3 * 10 ^ 18
     \<and> constantinople_reward G = 2 * 10 ^ 18"

lemma address_lawsD [law_simps]:
  assumes "address_laws G"
  shows "mixedcase_address G (address_hex G a) = Some a"
    and "hex_to_address G (address_hex G a) = a" and "address_hex G a \<noteq> []"
  using assms by (simp_all add: address_laws_def)

lemma address_hex_inject: "address_laws G \<Longrightarrow> address_hex G a = address_hex G b \<longleftrightarrow> a = b"
  by (metis address_lawsD(2))

lemma hexutil_lawsD [law_simps]:
  assumes "hexutil_laws G"
  shows "0 \<le> x \<Longrightarrow> x < 2 ^ 256 \<Longrightarrow> decode_big G (encode_big G x) = Ok x"
    and "decode_uint64 G (encode_uint64 G n) = Ok n"
    and "decode_bytes G (encode_bytes G bs) = Ok bs"
  using assms by (simp_all add: hexutil_laws_def)

section \<open>\<open>ethereum/address.go\<close>\<close>

definition ChecksumAddress :: "geth \<Rightarrow> string \<Rightarrow> string option" where
  "ChecksumAddress G s = (case mixedcase_address G s of None \<Rightarrow> None | Some a \<Rightarrow> Some (address_hex G a))"

definition MustChecksum :: "geth \<Rightarrow> string \<Rightarrow> string outcome" where
  "MustChecksum G s = (case ChecksumAddress G s of
      None \<Rightarrow> Crash (LogFatal (''invalid address '' @ s))
    | Some a \<Rightarrow> Ok a)"

lemma ChecksumAddress_hex [law_simps]:
  "address_laws G \<Longrightarrow> ChecksumAddress G (address_hex G a) = Some (address_hex G a)"
  by (simp add: ChecksumAddress_def law_simps)

lemma MustChecksum_hex [law_simps]:
  "address_laws G \<Longrightarrow> MustChecksum G (address_hex G a) = Ok (address_hex G a)"
  by (simp add: MustChecksum_def law_simps)

lemma MustChecksum_not_Err [simp]: "MustChecksum G s \<noteq> Err e"
  by (simp add: MustChecksum_def split: option.splits)

text \<open>A checksummed address is its own checksum, whatever spelling it came from.\<close>

lemma ChecksumAddress_idem:
  "address_laws G \<Longrightarrow> ChecksumAddress G s = Some c \<Longrightarrow> ChecksumAddress G c = Some c"
  by (auto simp: ChecksumAddress_def law_simps split: option.splits)

section \<open>Hexadecimal formatting of \<open>fmt\<close>\<close>

text \<open>\<open>%x\<close> of a string (two lower-case digits a byte) and of a 32-byte hash.\<close>

definition hex2 :: "nat \<Rightarrow> string" where
  "hex2 n = [digit_char (n div 16 mod 16), digit_char (n mod 16)]"

definition fmt_x :: "string \<Rightarrow> string" where
  "fmt_x s = concat (map (\<lambda>c. hex2 (of_char c)) s)"

definition fmt_x_hash :: "hash \<Rightarrow> string" where
  "fmt_x_hash h = concat (map (\<lambda>i. hex2 (nat (uint h div 256 ^ (31 - i) mod 256))) [0..<32])"

section \<open>A concrete instance of the laws\<close>

definition hex0x :: "nat \<Rightarrow> string" where
  "hex0x n = ''0x'' @ digits 16 n"

definition parse0x :: "string \<Rightarrow> nat option" where
  "parse0x s = (if take 2 s = ''0x'' then parse_nat 16 (drop 2 s) else None)"

lemma parse0x_hex0x [simp]: "parse0x (hex0x n) = Some n"
  by (simp add: parse0x_def hex0x_def)

fun bytes_of_hex :: "string \<Rightarrow> bytes option" where
  "bytes_of_hex [] = Some []"
| "bytes_of_hex [c] = None"
| "bytes_of_hex (c # d # cs) = (case (digit_val c, digit_val d, bytes_of_hex cs) of
     (Some x, Some y, Some bs) \<Rightarrow> Some (word_of_nat (16 * x + y) # bs) | _ \<Rightarrow> None)"

lemma bytes_of_hex_hex2 [simp]:
  "bytes_of_hex (concat (map (\<lambda>b. hex2 (unat b)) bs)) = Some (bs :: bytes)"
proof (induction bs)
  case Nil
  then show ?case by simp
next
  case (Cons b bs)
  have "unat b < 256" using unsigned_less [of b] by simp
  then have "unat b div 16 mod 16 = unat b div 16" by simp
  with Cons show ?case by (simp add: hex2_def)
qed

definition standin :: geth where
  "standin = \<lparr>
     mixedcase_address = (\<lambda>s. map_option word_of_nat (parse0x s)),
     address_hex = (\<lambda>a. hex0x (unat a)),
     address_json = (\<lambda>a. hex0x (unat a)),
     hex_to_address = (\<lambda>s. case parse0x s of None \<Rightarrow> 0 | Some n \<Rightarrow> word_of_nat n),
     hash_hex = (\<lambda>h. hex0x (unat h)),
     hex_to_hash = (\<lambda>s. case parse0x s of None \<Rightarrow> 0 | Some n \<Rightarrow> word_of_nat n),
     encode_big = (\<lambda>x. hex0x (nat x)),
     decode_big = (\<lambda>s. case parse0x s of None \<Rightarrow> Err (External ''invalid hex string'')
        | Some n \<Rightarrow> Ok (int n)),
     encode_uint64 = (\<lambda>n. hex0x (unat n)),
     decode_uint64 = (\<lambda>s. case parse0x s of None \<Rightarrow> Err (External ''invalid hex string'')
        | Some n \<Rightarrow> Ok (word_of_nat n)),
     encode_bytes = (\<lambda>bs. ''0x'' @ concat (map (\<lambda>b. hex2 (unat b)) bs)),
     decode_bytes = (\<lambda>s. case bytes_of_hex (drop 2 s) of None \<Rightarrow> Err (External ''invalid hex string'')
        | Some bs \<Rightarrow> Ok bs),
     effective_gas_tip = (\<lambda>tx b. case b of None \<Rightarrow> Ok 2
        | Some x \<Rightarrow> if x \<le> 100 then Ok (min 2 (100 - x)) else Err (External ''fee cap below base fee'')),
     empty_uncle_hash = 1,
     empty_root_hash = 2,
     not_found = External ''not found'',
     frontier_reward = 5000000000000000000,
     byzantium_reward = 3000000000000000000,
     constantinople_reward = 2000000000000000000,
     header_of_json = (\<lambda>j. case j of JObj kvs \<Rightarrow> Ok \<lparr>hd_hash = 7, hd_parent_hash = 6,
          hd_uncle_hash = 1,
          hd_tx_hash = (case json_field ''transactions'' kvs of Some (JArr (_ # _)) \<Rightarrow> 3 | _ \<Rightarrow> 2),
          hd_coinbase = 9, hd_number = int (length kvs),
          hd_time = 1000, hd_base_fee = None\<rparr>
        | _ \<Rightarrow> Err (External ''missing required field'')),
     receipt_of_json = (\<lambda>j. Ok \<lparr>rc_block_hash = 7, rc_gas_used = 2, rc_marshal = Ok j\<rparr>),
     receipt_left = (\<lambda>j. None),
     tx_of_json = (\<lambda>j. Ok \<lparr>tx_hash = 11, tx_type = 0, tx_gas_price = 3, tx_gas = 21,
          tx_nonce = 0, tx_to = Some 5, tx_value = 1, tx_data = [], tx_chain_id = 1\<rparr>),
     big_of_json = (\<lambda>j. case j of JStr s \<Rightarrow> (case parse0x s of
          None \<Rightarrow> Err (External ''invalid hex string'') | Some n \<Rightarrow> Ok (int n))
        | _ \<Rightarrow> Err (External ''non-string'')),
     uint64_of_json = (\<lambda>j. case j of JStr s \<Rightarrow> (case parse0x s of
          None \<Rightarrow> Err (External ''invalid hex string'') | Some n \<Rightarrow> Ok (word_of_nat n))
        | _ \<Rightarrow> Err (External ''non-string'')),
     address_of_json = (\<lambda>j. case j of JStr s \<Rightarrow> (case parse0x s of
          None \<Rightarrow> Err (External ''invalid hex string'') | Some n \<Rightarrow> Ok (word_of_nat n))
        | _ \<Rightarrow> Err (External ''non-string'')),
     hash_of_json = (\<lambda>j. case j of JStr s \<Rightarrow> (case parse0x s of
          None \<Rightarrow> Err (External ''invalid hex string'') | Some n \<Rightarrow> Ok (word_of_nat n))
        | _ \<Rightarrow> Err (External ''non-string'')),
     peer_info_of_json = (\<lambda>j. Ok \<lparr>pi_id = ''id'', pi_name = ''geth'', pi_enode = [], pi_caps = [],
        pi_enr = [], pi_protocols = []\<rparr>),
     rlp_encode = (\<lambda>tx. Ok (tx_data tx))\<rparr>"

lemma standin_address_laws [simp]: "address_laws standin"
  by (simp add: address_laws_def standin_def) (simp add: hex0x_def)

lemma standin_hexutil_laws [simp]: "hexutil_laws standin"
  by (simp add: hexutil_laws_def standin_def)

lemma standin_reward_laws [simp]: "reward_laws standin"
  by (simp add: reward_laws_def standin_def)

lemma standin_gas_tip_law: "gas_tip_law standin tx 2 100"
  by (simp add: gas_tip_law_def standin_def)

definition standin_sdk :: sdk where
  "standin_sdk = \<lparr>sdk_document = (\<lambda>m. Ok (JObj m)), sdk_print_errors = (\<lambda>es. concat (map fst es))\<rparr>"

end
