(* ===== verification/Calls.thy ===== *)
theory Calls
  imports GethLib
begin

text \<open>
  Call traces (\<open>ethereum/client.go\<close>): the tree of calls the node's tracer returns, its JSON
  decoder, and \<open>flattenTraces\<close>, which lists the calls in execution order and hands the
  failure of a call down to everything it called. The specification \<open>inherit\<close> passes the
  failure down as an argument where the code overwrites fields of the child.
\<close>

section \<open>Data\<close>

text \<open>The struct \<open>Call\<close>; a child is a pointer and may be nil.\<close>

datatype call = Call
  (call_type: string) (call_from: address) (call_to: address) (call_value: int)
  (call_gas_used: int) (call_revert: bool) (call_error: string) (call_calls: "call option list")

record flat_call =
  fc_type :: string
  fc_from :: address
  fc_to :: address
  fc_value :: int
  fc_gas_used :: int
  fc_revert :: bool
  fc_error :: string

text \<open>The method \<open>flatten\<close>.\<close>

definition flatten_call :: "call \<Rightarrow> flat_call" where
  "flatten_call t = \<lparr>fc_type = call_type t, fc_from = call_from t, fc_to = call_to t,
     fc_value = call_value t, fc_gas_used = call_gas_used t, fc_revert = call_revert t,
     fc_error = call_error t\<rparr>"

section \<open>Decoding: \<open>Call.UnmarshalJSON\<close>\<close>

text \<open>
  A pointer field of the decoded struct: absent or \<open>null\<close> is nil. A value field of a type with
  its own decoder: absent is the zero value.
\<close>

definition ptr_value :: "(json \<Rightarrow> 'a outcome) \<Rightarrow> json option \<Rightarrow> 'a option outcome" where
  "ptr_value dec v = (case v of None \<Rightarrow> Ok None | Some JNull \<Rightarrow> Ok None
     | Some j \<Rightarrow> andThen (dec j) (\<lambda>x. Ok (Some x)))"

definition val_value :: "(json \<Rightarrow> 'a outcome) \<Rightarrow> 'a \<Rightarrow> json option \<Rightarrow> 'a outcome" where
  "val_value dec zero v = (case v of None \<Rightarrow> Ok zero | Some j \<Rightarrow> dec j)"

text \<open>
  The decoder copies the struct \<open>CustomTrace\<close>: missing amounts are 0, a non-empty error
  message means the call reverted (the field \<open>Revert\<close> of the input is decoded and ignored).
\<close>

definition call_of_dec ::
  "string \<Rightarrow> address \<Rightarrow> address \<Rightarrow> int option \<Rightarrow> int option \<Rightarrow> string \<Rightarrow> call option list \<Rightarrow> call" where
  "call_of_dec ty from to value gasUsed errorMessage calls =
     Call ty from to
       (case value of Some v \<Rightarrow> v | None \<Rightarrow> 0)
       (case gasUsed of Some g \<Rightarrow> g | None \<Rightarrow> 0)
       (errorMessage \<noteq> []) errorMessage calls"

text \<open>
  A slice of pointers: a nil pointer for \<open>null\<close>, the element's decoder otherwise. The decoder
  of a call calls itself on the elements of \<open>calls\<close>; it terminates because they are smaller
  than the document they are part of, which the congruence rules make visible.
\<close>

fun arr_value :: "(json \<Rightarrow> 'a outcome) \<Rightarrow> json option \<Rightarrow> 'a option list outcome" where
  "arr_value dec None = Ok []"
| "arr_value dec (Some JNull) = Ok []"
| "arr_value dec (Some (JArr js)) = mapM (\<lambda>j. ptr_value dec (Some j)) js"
| "arr_value dec (Some _) = Err (json_type_error ''[]'')"

lemma andThen_cong [fundef_cong]:
  "m = m' \<Longrightarrow> (\<And>x. m' = Ok x \<Longrightarrow> f x = f' x) \<Longrightarrow> andThen m f = andThen m' f'"
  by (cases m') auto

lemma mapM_cong [fundef_cong]:
  "xs = ys \<Longrightarrow> (\<And>x. x \<in> set ys \<Longrightarrow> f x = g x) \<Longrightarrow> mapM f xs = mapM g ys"
proof (induction ys arbitrary: xs)
  case (Cons y ys)
  then have "mapM f ys = mapM g ys" by simp
  with Cons.prems show ?case by simp
qed simp

lemma arr_value_cong [fundef_cong]:
  assumes "v = v'" and "\<And>js x. v' = Some (JArr js) \<Longrightarrow> x \<in> set js \<Longrightarrow> dec x = dec' x"
  shows "arr_value dec v = arr_value dec' v'"
  using assms
  by (cases "(dec, v')" rule: arr_value.cases)
     (auto simp: ptr_value_def intro!: mapM_cong split: json.splits)

lemma json_field_mem: "json_field name kvs = Some j \<Longrightarrow> \<exists>k. (k, j) \<in> set kvs"
  unfolding json_field_def
proof (cases "rev (filter (\<lambda>e. map ascii_lower (fst e) = map ascii_lower name) kvs)")
  case (Cons e es)
  assume j: "(case rev (filter (\<lambda>e. map ascii_lower (fst e) = map ascii_lower name) kvs) of
    [] \<Rightarrow> None | e # _ \<Rightarrow> Some (snd e)) = Some j"
  from Cons have "e \<in> set kvs"
    by (metis filter_is_subset list.set_intros(1) set_rev subsetD)
  with j Cons show ?thesis by (cases e) auto
qed simp

lemma json_struct_size: "json_struct j = Ok obj \<Longrightarrow> (k, x) \<in> set obj \<Longrightarrow> size x < size j"
proof (cases j)
  case (JObj kvs)
  assume "json_struct j = Ok obj" and "(k, x) \<in> set obj"
  with JObj have "(k, x) \<in> set kvs" by simp
  then have "size_prod (\<lambda>_. 0) size (k, x) \<le> size_list (size_prod (\<lambda>_. 0) size) kvs"
    by (rule size_list_estimation') simp
  with JObj show ?thesis by simp
qed auto

function call_unmarshal :: "geth \<Rightarrow> json \<Rightarrow> call outcome" where
  "call_unmarshal G j =
     andThen (json_struct j) (\<lambda>obj.
     andThen (get_str obj ''type'') (\<lambda>ty.
     andThen (val_value (address_of_json G) 0 (json_field ''from'' obj)) (\<lambda>from.
     andThen (val_value (address_of_json G) 0 (json_field ''to'' obj)) (\<lambda>to.
     andThen (ptr_value (big_of_json G) (json_field ''value'' obj)) (\<lambda>value.
     andThen (ptr_value (big_of_json G) (json_field ''gasUsed'' obj)) (\<lambda>gasUsed.
     andThen (get_bool obj ''Revert'') (\<lambda>_.
     andThen (get_str obj ''error'') (\<lambda>errorMessage.
     andThen (arr_value (call_unmarshal G) (json_field ''calls'' obj)) (\<lambda>calls.
       Ok (call_of_dec ty from to value gasUsed errorMessage calls))))))))))"
  by pat_completeness auto
termination
proof (relation "measure (\<lambda>(_, j). size j)")
  fix G j obj js x
  assume obj: "json_struct j = Ok obj" and js: "json_field ''calls'' obj = Some (JArr js)"
    and x: "x \<in> set js"
  from js obtain k where "(k, JArr js) \<in> set obj" by (auto dest: json_field_mem)
  with obj have "size (JArr js) < size j" by (rule json_struct_size)
  moreover have "size x \<le> size_list size js"
    using x by (rule size_list_estimation') simp
  ultimately show "((G, x), (G, j)) \<in> measure (\<lambda>(_, j). size j)" by simp
qed simp

declare call_unmarshal.simps [simp del]

text \<open>\<open>json.Unmarshal(raw, &call)\<close> into a \<open>*Call\<close>: \<open>null\<close> leaves the pointer nil.\<close>

definition call_ptr_of_json :: "geth \<Rightarrow> json \<Rightarrow> call option outcome" where
  "call_ptr_of_json G j = ptr_value (call_unmarshal G) (Some j)"

section \<open>\<open>flattenTraces\<close>\<close>

text \<open>The writes to a child of a reverted call.\<close>

definition mark_child :: "bool \<Rightarrow> string \<Rightarrow> call \<Rightarrow> call" where
  "mark_child rv er c =
     (if rv then
        Call (call_type c) (call_from c) (call_to c) (call_value c) (call_gas_used c) True
          (if length (call_error c) = 0 then er else call_error c) (call_calls c)
      else c)"

lemma size_mark_child [simp]: "size (mark_child rv er c) = size c"
  by (cases c) (simp add: mark_child_def)

text \<open>
  \<open>flattenTraces data flattened\<close>, with its loop over the children: \<open>res\<close> is the local slice
  \<open>results\<close>. Each recursive call starts from the caller's \<open>flattened\<close> again.
\<close>

function (sequential) flattenTraces :: "call \<Rightarrow> flat_call list \<Rightarrow> flat_call list outcome"
  and flattenChildren ::
    "bool \<Rightarrow> string \<Rightarrow> call option list \<Rightarrow> flat_call list \<Rightarrow> flat_call list \<Rightarrow> flat_call list outcome"
where
  "flattenTraces data flattened =
     flattenChildren (call_revert data) (call_error data) (call_calls data) flattened
       (flattened @ [flatten_call data])"
| "flattenChildren rv er [] flattened res = Ok res"
| "flattenChildren rv er (None # cs) flattened res = Crash NilDeref"
| "flattenChildren rv er (Some c # cs) flattened res =
     andThen (flattenTraces (mark_child rv er c) flattened)
       (\<lambda>children. flattenChildren rv er cs flattened (res @ children))"
  by pat_completeness auto
termination
proof (relation "measure (\<lambda>x. case x of Inl (d, _) \<Rightarrow> 2 * size d
    | Inr (_, _, cs, _, _) \<Rightarrow> Suc (2 * size_list (size_option size) cs))")
  show "(Inr (call_revert data, call_error data, call_calls data, fl, fl @ [flatten_call data]),
      Inl (data, fl)) \<in> measure (\<lambda>x. case x of Inl (d, _) \<Rightarrow> 2 * size d
        | Inr (_, _, cs, _, _) \<Rightarrow> Suc (2 * size_list (size_option size) cs))" for data fl
    by (cases data) simp
qed simp_all

section \<open>Specification of \<open>flattenTraces\<close>\<close>

text \<open>
  No node of the tree has a nil child.
\<close>

fun call_wf :: "call \<Rightarrow> bool" where
  "call_wf (Call ty f t v g r e cs) \<longleftrightarrow> (\<forall>c \<in> set cs. case c of None \<Rightarrow> False | Some d \<Rightarrow> call_wf d)"

text \<open>
  The calls in execution order (a node before its children, children left to right). A node is
  reverted if it or an ancestor is; a node under a reverted one that has no message of its own
  takes its parent's.
\<close>

fun inherit :: "bool \<Rightarrow> string \<Rightarrow> call \<Rightarrow> flat_call list" where
  "inherit rv er (Call ty f t v g r e cs) =
     (let r' = (rv \<or> r); e' = (if rv \<and> e = [] then er else e)
      in \<lparr>fc_type = ty, fc_from = f, fc_to = t, fc_value = v, fc_gas_used = g,
          fc_revert = r', fc_error = e'\<rparr>
         # concat (map (\<lambda>c. case c of None \<Rightarrow> [] | Some d \<Rightarrow> inherit r' e' d) cs))"

fun call_count :: "call \<Rightarrow> nat" where
  "call_count (Call ty f t v g r e cs) =
     Suc (sum_list (map (\<lambda>c. case c of None \<Rightarrow> 0 | Some d \<Rightarrow> call_count d) cs))"

text \<open>\<open>subcall c d\<close>: \<open>c\<close> is \<open>d\<close> or one of the calls made, at any depth, by \<open>d\<close>.\<close>

inductive subcall :: "call \<Rightarrow> call \<Rightarrow> bool" where
  subcall_self: "subcall c c"
| subcall_child: "Some e \<in> set (call_calls d) \<Longrightarrow> subcall c e \<Longrightarrow> subcall c d"

inductive_cases subcall_cases: "subcall c d"

lemma inherit_mark:
  "inherit False [] (mark_child rv er c) = inherit rv er c"
  by (cases c) (simp add: mark_child_def Let_def)

lemma inherit_False: "inherit False er c = inherit False [] c"
  by (cases c) (simp add: Let_def)

lemma call_wf_mark [simp]: "call_wf (mark_child rv er c) = call_wf c"
  by (cases c) (simp add: mark_child_def)

definition children_wf :: "call option list \<Rightarrow> bool" where
  "children_wf cs \<longleftrightarrow> (\<forall>c \<in> set cs. case c of None \<Rightarrow> False | Some d \<Rightarrow> call_wf d)"

definition inherit_children :: "bool \<Rightarrow> string \<Rightarrow> call option list \<Rightarrow> flat_call list" where
  "inherit_children rv er cs = concat (map (\<lambda>c. case c of None \<Rightarrow> [] | Some d \<Rightarrow> inherit rv er d) cs)"

lemma children_wf_simps [simp]:
  "children_wf []" "\<not> children_wf (None # cs)"
  "children_wf (Some c # cs) \<longleftrightarrow> call_wf c \<and> children_wf cs"
  by (simp_all add: children_wf_def)

lemma inherit_children_simps [simp]:
  "inherit_children rv er [] = []"
  "inherit_children rv er (Some c # cs) = inherit rv er c @ inherit_children rv er cs"
  by (simp_all add: inherit_children_def)

text \<open>The code and the specification agree, including the nil pointer dereference.\<close>

lemma flatten_eq:
  "fl = [] \<Longrightarrow> flattenTraces d fl =
     (if call_wf d then Ok (inherit False [] d) else Crash NilDeref)"
  "fl = [] \<Longrightarrow> flattenChildren rv er cs fl res =
     (if children_wf cs then Ok (res @ inherit_children rv er cs) else Crash NilDeref)"
proof (induction d fl and rv er cs fl res rule: flattenTraces_flattenChildren.induct)
  case (1 data flattened)
  obtain ty f t v g r e cs where "data = Call ty f t v g r e cs" by (cases data)
  with 1 show ?case
    by (simp add: flatten_call_def inherit_children_def children_wf_def Let_def)
next
  case (4 rv er c cs flattened res)
  then show ?case by (simp add: inherit_mark)
qed simp_all

declare flattenTraces.simps [simp del]

lemma length_inherit: "length (inherit rv er d) = call_count d"
proof (induction rv er d rule: inherit.induct)
  case (1 rv er ty f t v g r e cs)
  have "length (case c of None \<Rightarrow> [] | Some d \<Rightarrow> inherit (rv \<or> r) (if rv \<and> e = [] then er else e) d)
      = (case c of None \<Rightarrow> 0 | Some d \<Rightarrow> call_count d)" if "c \<in> set cs" for c
    using that "1.IH" by (auto split: option.splits)
  then show ?case
    by (simp add: Let_def length_concat o_def cong: map_cong)
qed

lemma inherit_reverted: "rv \<Longrightarrow> x \<in> set (inherit rv er d) \<Longrightarrow> fc_revert x"
proof (induction rv er d arbitrary: x rule: inherit.induct)
  case (1 rv er ty f t v g r e cs)
  then consider "fc_revert x" | d where "Some d \<in> set cs"
      "x \<in> set (inherit (rv \<or> r) (if rv \<and> e = [] then er else e) d)"
    by (auto simp: Let_def split: option.splits)
  then show ?case
    using "1.IH" "1.prems"(1) by cases auto
qed

lemma inherit_error: "rv \<Longrightarrow> er \<noteq> [] \<Longrightarrow> x \<in> set (inherit rv er d) \<Longrightarrow> fc_error x \<noteq> []"
proof (induction rv er d arbitrary: x rule: inherit.induct)
  case (1 rv er ty f t v g r e cs)
  then consider "fc_error x \<noteq> []" | d where "Some d \<in> set cs"
      "x \<in> set (inherit (rv \<or> r) (if rv \<and> e = [] then er else e) d)"
    by (auto simp: Let_def split: option.splits)
  then show ?case
    using "1.IH" "1.prems"(1,2) by cases auto
qed

text \<open>The listing of a sub-call is one block of the listing of the whole.\<close>

lemma inherit_subcall_block:
  assumes "subcall c d" and "call_revert c"
  shows "\<exists>pre blk post. inherit rv er d = pre @ blk @ post \<and> length blk = length (inherit False [] c)
     \<and> (\<forall>x \<in> set blk. fc_revert x)"
  using assms
proof (induction arbitrary: rv er rule: subcall.induct)
  case (subcall_self c)
  obtain ty f t v g e cs where c: "c = Call ty f t v g True e cs"
    using subcall_self by (cases c) auto
  have "\<forall>x \<in> set (inherit rv er c). fc_revert x"
    unfolding c by (auto simp: Let_def split: option.splits dest: inherit_reverted [OF TrueI])
  then show ?case
    by (intro exI [of _ "[]"] exI [of _ "inherit rv er c"]) (simp add: length_inherit)
next
  case (subcall_child e d c)
  obtain ty f t v g r m cs where d: "d = Call ty f t v g r m cs" by (cases d)
  let ?r = "rv \<or> r" and ?m = "if rv \<and> m = [] then er else m"
  from subcall_child.hyps(1) d obtain as bs where cs: "cs = as @ Some e # bs"
    by (auto dest: split_list)
  from subcall_child.IH [OF subcall_child.prems, of ?r ?m] obtain pre blk post where
    e: "inherit ?r ?m e = pre @ blk @ post" and b: "length blk = length (inherit False [] c)"
      "\<forall>x \<in> set blk. fc_revert x" by blast
  let ?g = "\<lambda>c. case c of None \<Rightarrow> [] | Some d \<Rightarrow> inherit ?r ?m d"
  let ?h = "\<lparr>fc_type = ty, fc_from = f, fc_to = t, fc_value = v, fc_gas_used = g,
    fc_revert = ?r, fc_error = ?m\<rparr>"
  have "inherit rv er d = ((?h # concat (map ?g as)) @ pre) @ blk @ (post @ concat (map ?g bs))"
    using e by (simp add: d cs Let_def)
  with b show ?case by blast
qed

section \<open>Decoded trees\<close>

text \<open>In a decoded tree a call is reverted exactly if it carries an error message.\<close>

fun call_tagged :: "call \<Rightarrow> bool" where
  "call_tagged (Call ty f t v g r e cs) \<longleftrightarrow> (r \<longleftrightarrow> e \<noteq> [])
     \<and> (\<forall>c \<in> set cs. case c of None \<Rightarrow> True | Some d \<Rightarrow> call_tagged d)"

lemma arr_value_elems:
  assumes "arr_value dec v = Ok xs" and "Some x \<in> set xs"
  shows "\<exists>js j. v = Some (JArr js) \<and> j \<in> set js \<and> dec j = Ok x"
  using assms
  by (cases "(dec, v)" rule: arr_value.cases)
     (auto simp: ptr_value_def dest!: mapM_Ok_set split: json.splits)

lemma call_unmarshal_tagged: "call_unmarshal G j = Ok c \<Longrightarrow> call_tagged c"
proof (induction G j arbitrary: c rule: call_unmarshal.induct)
  case (1 G j)
  from "1.prems" obtain obj ty frm dst val gas rv msg calls where
    obj: "json_struct j = Ok obj" and
    calls: "arr_value (call_unmarshal G) (json_field ''calls'' obj) = Ok calls" and
    fields: "get_str obj ''type'' = Ok ty" "val_value (address_of_json G) 0 (json_field ''from'' obj) = Ok frm"
      "val_value (address_of_json G) 0 (json_field ''to'' obj) = Ok dst"
      "ptr_value (big_of_json G) (json_field ''value'' obj) = Ok val"
      "ptr_value (big_of_json G) (json_field ''gasUsed'' obj) = Ok gas"
      "get_bool obj ''Revert'' = Ok rv" "get_str obj ''error'' = Ok msg" and
    c: "c = call_of_dec ty frm dst val gas msg calls"
    by (subst (asm) call_unmarshal.simps) auto
  have "call_tagged d" if "Some d \<in> set calls" for d
    using arr_value_elems [OF calls that] "1.IH" obj fields by blast
  then show ?case by (auto simp: c call_of_dec_def split: option.splits)
qed

lemma inherit_tagged:
  "call_tagged d \<Longrightarrow> (rv \<longleftrightarrow> er \<noteq> []) \<Longrightarrow> x \<in> set (inherit rv er d) \<Longrightarrow> fc_revert x \<longleftrightarrow> fc_error x \<noteq> []"
proof (induction rv er d arbitrary: x rule: inherit.induct)
  case (1 rv er ty f t v g r e cs)
  then consider "x = \<lparr>fc_type = ty, fc_from = f, fc_to = t, fc_value = v, fc_gas_used = g,
        fc_revert = (rv \<or> r), fc_error = (if rv \<and> e = [] then er else e)\<rparr>"
    | d where "Some d \<in> set cs"
      "x \<in> set (inherit (rv \<or> r) (if rv \<and> e = [] then er else e) d)"
    by (auto simp: Let_def split: option.splits)
  then show ?case
  proof cases
    case 1
    with "1.prems" show ?thesis by auto
  next
    case 2
    then have "call_tagged d" using "1.prems"(1) by auto
    moreover have "(rv \<or> r) \<longleftrightarrow> (if rv \<and> e = [] then er else e) \<noteq> []"
      using "1.prems"(1,2) by auto
    ultimately show ?thesis using "1.IH" [OF refl refl] 2 by blast
  qed
qed

section \<open>Properties\<close>

text \<open>
  C10. \<open>flattenTraces\<close>, called on a tree with an empty accumulator as its callers do, returns the
  calls in execution order with failures and error messages inherited downwards as \<open>inherit\<close>
  specifies; it panics exactly where the tree holds a nil child.
\<close>

theorem flattenTraces_refines:
  "flattenTraces d [] = (if call_wf d then Ok (inherit False [] d) else Crash NilDeref)"
  by (rule flatten_eq(1)) simp

text \<open>
  Every call of the tree appears once in the flattened list, and the calls made by a
  reverted call, at any depth, form a block of it in which every entry is reverted.
\<close>

theorem flattenTraces_reverts_subcalls:
  assumes "call_wf d" and "subcall c d" and "call_revert c"
  shows "\<exists>pre blk post. flattenTraces d [] = Ok (pre @ blk @ post)
    \<and> length (pre @ blk @ post) = call_count d \<and> length blk = call_count c
    \<and> (\<forall>x \<in> set blk. fc_revert x)"
proof -
  obtain pre blk post where "inherit False [] d = pre @ blk @ post"
    "length blk = length (inherit False [] c)" "\<forall>x \<in> set blk. fc_revert x"
    using inherit_subcall_block [OF assms(2,3), of False "[]"] by blast
  moreover from this(1) have "length (pre @ blk @ post) = call_count d"
    using length_inherit [of False "[]" d] by simp
  moreover have "flattenTraces d [] = Ok (inherit False [] d)"
    using assms(1) flatten_eq(1) by simp
  ultimately show ?thesis by (metis length_inherit)
qed

definition call_example :: call where
  "call_example = Call ''CALL'' 1 2 5 0 False []
     [Some (Call ''CALL'' 2 3 4 0 True ''out of gas'' [Some (Call ''CALL'' 3 4 1 0 False [] [])])]"

theorem flattenTraces_reverts_subcalls_witness:
  "\<exists>pre blk post. flattenTraces call_example [] = Ok (pre @ blk @ post)
    \<and> length (pre @ blk @ post) = 3 \<and> length blk = 2 \<and> (\<forall>x \<in> set blk. fc_revert x)"
proof -
  let ?c = "Call ''CALL'' 2 3 4 0 True ''out of gas'' [Some (Call ''CALL'' 3 4 1 0 False [] [])]"
  have "subcall ?c call_example"
    by (rule subcall_child [OF _ subcall_self]) (simp add: call_example_def)
  moreover have "call_wf call_example" "call_revert ?c" "call_count call_example = 3" "call_count ?c = 2"
    by (simp_all add: call_example_def)
  ultimately show ?thesis using flattenTraces_reverts_subcalls [of call_example ?c] by metis
qed

text \<open>
  Decoding a trace document and flattening it: an entry is reverted exactly if it carries
  an error message, its own or one inherited from a caller.
\<close>

theorem decoded_traces_tagged:
  assumes "call_unmarshal G j = Ok d" and "flattenTraces d [] = Ok fs" and "x \<in> set fs"
  shows "fc_revert x \<longleftrightarrow> fc_error x \<noteq> []"
proof -
  have "fs = inherit False [] d"
    using assms(2) flatten_eq(1) [of "[]" d] by (simp split: if_splits)
  with assms(3) show ?thesis
    by (intro inherit_tagged [OF call_unmarshal_tagged [OF assms(1)]]) simp_all
qed

definition trace_example :: json where
  "trace_example = JObj [(''type'', JStr ''CALL''), (''value'', JStr ''0x5''),
     (''error'', JStr ''out of gas''), (''calls'', JArr [JObj [(''type'', JStr ''CALL'')]])]"

theorem decoded_traces_tagged_witness:
  "\<exists>d fs. call_unmarshal standin trace_example = Ok d \<and> flattenTraces d [] = Ok fs
     \<and> length fs = 2 \<and> (\<forall>x \<in> set fs. fc_revert x \<longleftrightarrow> fc_error x \<noteq> [])"
proof -
  let ?d = "Call ''CALL'' 0 0 5 0 True ''out of gas'' [Some (Call ''CALL'' 0 0 0 0 False [] [])]"
  have d: "call_unmarshal standin trace_example = Ok ?d"
    by code_simp
  have "flattenTraces ?d [] = Ok (inherit False [] ?d)"
    using flatten_eq(1) [of "[]" ?d] by simp
  moreover have "length (inherit False [] ?d) = 2" by (simp add: Let_def)
  ultimately show ?thesis using d decoded_traces_tagged [OF d] by blast
qed

end
