(* ===== verification/OpStages.thy ===== *)
theory OpStages
  imports EthTypes
begin

text \<open>
  The contract of the functions that emit operations (\<open>feeOps\<close>, \<open>traceOps\<close>,
  \<open>blockRewardTransaction\<close>): started at an index they accept, the operations they return are
  well formed from that index. Transactions are assembled by running stages one after another,
  each at the length of what is there already.
\<close>

locale op_stage =
  fixes emit :: "'i \<Rightarrow> int \<Rightarrow> operation list outcome"
    and accepts :: "'i \<Rightarrow> int \<Rightarrow> bool"
  assumes emit_wf: "accepts i s \<Longrightarrow> emit i s = Ok ops \<Longrightarrow> ops_wf s ops"
begin

lemma stage_after:
  assumes "ops_wf 0 pre" and "accepts i (int (length pre))" and "emit i (int (length pre)) = Ok ops"
  shows "ops_wf 0 (pre @ ops)"
  using assms emit_wf by (auto intro: ops_wf_append)

lemma stage_indices:
  assumes "accepts i s" and "emit i s = Ok ops"
  shows "map op_index ops = map (\<lambda>k. s + int k) [0..<length ops]"
  using emit_wf [OF assms] by (simp add: ops_wf_def indexed_iff_map)

end

end
