(* ===== verification/Fees.thy ===== *)
theory Fees
  imports Calls OpStages
begin

text \<open>
  Fees (\<open>ethereum/client.go\<close>): the gas price a transaction pays (\<open>effectiveGasPrice\<close>), the
  total and burned fee (\<open>calculateGas\<close>) and the fee operations (\<open>feeOps\<close>).
\<close>

section \<open>Model\<close>

definition eip1559TxType :: "8 word" where
  "eip1559TxType = 2"

text \<open>\<open>rpcTransaction\<close> with the fields of \<open>txExtraInfo\<close>, and \<open>loadedTransaction\<close>; pointers are options.\<close>

record rpc_transaction =
  rp_tx :: "eth_tx option"
  rp_block_number :: "string option"
  rp_block_hash :: "hash option"
  rp_from :: "address option"

record loaded_transaction =
  lt_transaction :: "eth_tx option"
  lt_from :: "address option"
  lt_block_number :: "string option"
  lt_block_hash :: "hash option"
  lt_fee_amount :: "int option"
  lt_fee_burned :: "int option"
  lt_miner :: string
  lt_status :: bool
  lt_trace :: "call option"
  lt_raw_trace :: json_text
  lt_receipt :: "receipt option"

text \<open>The method \<open>LoadedTransaction\<close>: the other fields keep their zero values.\<close>

definition LoadedTransaction :: "rpc_transaction \<Rightarrow> loaded_transaction" where
  "LoadedTransaction tx = \<lparr>lt_transaction = rp_tx tx, lt_from = rp_from tx,
     lt_block_number = rp_block_number tx, lt_block_hash = rp_block_hash tx,
     lt_fee_amount = None, lt_fee_burned = None, lt_miner = [], lt_status = False,
     lt_trace = None, lt_raw_trace = None, lt_receipt = None\<rparr>"

text \<open>
  The price of gas: of a dynamic-fee transaction the tip plus the base fee, which is
  dereferenced after the tip was computed.
\<close>

definition effectiveGasPrice :: "geth \<Rightarrow> eth_tx \<Rightarrow> int option \<Rightarrow> int outcome" where
  "effectiveGasPrice G tx baseFee =
     (if tx_type tx \<noteq> eip1559TxType then Ok (tx_gas_price tx)
      else andThen (effective_gas_tip G tx baseFee) (\<lambda>tip.
           andThen (deref baseFee) (\<lambda>base. Ok (tip + base))))"

definition calculateGas ::
  "geth \<Rightarrow> eth_tx \<Rightarrow> receipt \<Rightarrow> header \<Rightarrow> (int \<times> int option) outcome" where
  "calculateGas G tx txReceipt head =
     (let gasUsed = uint (rc_gas_used txReceipt)
      in andThen (wrapWith '': failure getting effective gas price''
             (effectiveGasPrice G tx (hd_base_fee head))) (\<lambda>gasPrice.
           Ok (gasUsed * gasPrice,
               case hd_base_fee head of None \<Rightarrow> None | Some base \<Rightarrow> Some (gasUsed * base))))"

definition fee_op :: "int \<Rightarrow> int list \<Rightarrow> string \<Rightarrow> int \<Rightarrow> operation" where
  "fee_op idx related acct v = \<lparr>op_index = idx, op_related = related, op_type = FeeOpType,
     op_status = Some SuccessStatus, op_account = Some acct, op_amount = Some (wei v),
     op_metadata = []\<rparr>"

definition feeOps :: "geth \<Rightarrow> loaded_transaction \<Rightarrow> operation list outcome" where
  "feeOps G tx =
     andThen (deref (lt_fee_amount tx)) (\<lambda>feeAmount.
     let minerEarnedAmount = (case lt_fee_burned tx of None \<Rightarrow> feeAmount
           | Some burned \<Rightarrow> feeAmount - burned)
     in andThen (deref (lt_from tx)) (\<lambda>from.
        andThen (MustChecksum G (address_hex G from)) (\<lambda>sender.
        andThen (MustChecksum G (lt_miner tx)) (\<lambda>miner.
        let ops = [fee_op 0 [] sender (- minerEarnedAmount), fee_op 1 [0] miner minerEarnedAmount]
        in case lt_fee_burned tx of
             None \<Rightarrow> Ok ops
           | Some burned \<Rightarrow>
               andThen (MustChecksum G (address_hex G from)) (\<lambda>sender'.
                 Ok (ops @ [fee_op 2 [] sender' (- burned)]))))))"

section \<open>The fee operations\<close>

lemma fee_op_fields [simp]:
  "op_index (fee_op i r a v) = i" "op_account (fee_op i r a v) = Some a"
  "op_success (fee_op i r a v)" "op_value (fee_op i r a v) = v" "op_type (fee_op i r a v) = FeeOpType"
  by (simp_all add: fee_op_def op_success_def op_value_def)

lemma op_ok_fee: "(\<forall>j \<in> set r. s \<le> j \<and> j < i) \<Longrightarrow> op_ok s (fee_op i r a v)"
  by (simp add: op_ok_def fee_op_def OperationTypes_def OperationStatuses_def)

text \<open>The shape of the result, for a transaction that has a sender and a fee.\<close>

lemma feeOps_eq:
  assumes "address_laws G" and "lt_from tx = Some f" and "lt_miner tx = address_hex G m"
    and "lt_fee_amount tx = Some fee"
  shows "feeOps G tx = Ok (case lt_fee_burned tx of
      None \<Rightarrow> [fee_op 0 [] (address_hex G f) (- fee), fee_op 1 [0] (address_hex G m) fee]
    | Some b \<Rightarrow> [fee_op 0 [] (address_hex G f) (b - fee), fee_op 1 [0] (address_hex G m) (fee - b),
        fee_op 2 [] (address_hex G f) (- b)])"
  using assms by (simp add: feeOps_def Let_def MustChecksum_hex split: option.splits)

lemma feeOps_wf: "feeOps G tx = Ok ops \<Longrightarrow> ops_wf 0 ops"
  by (cases "lt_fee_burned tx") (auto simp: feeOps_def Let_def ops_wf_def op_ok_fee)

interpretation fee_stage: op_stage "\<lambda>(G, tx) s. feeOps G tx" "\<lambda>_ s. s = 0"
  by unfold_locales (auto dest: feeOps_wf)

section \<open>Properties\<close>

text \<open>
  C21. The fee operations charge the sender the whole fee, credit the miner the fee less the
  burned part, and add up to minus the burned part; they are indexed 0, 1 and, where something
  is burned, 2.
\<close>

theorem feeOps_accounts:
  assumes "address_laws G" and "lt_from tx = Some f" and "lt_miner tx = address_hex G m"
    and "lt_fee_amount tx = Some fee"
  shows "\<exists>ops. feeOps G tx = Ok ops
    \<and> sum_list (map op_value ops) = - (case lt_fee_burned tx of None \<Rightarrow> 0 | Some b \<Rightarrow> b)
    \<and> (f \<noteq> m \<longrightarrow> net_effect (address_hex G f) ops = - fee
        \<and> net_effect (address_hex G m) ops = fee - (case lt_fee_burned tx of None \<Rightarrow> 0 | Some b \<Rightarrow> b))
    \<and> map op_index ops = (case lt_fee_burned tx of None \<Rightarrow> [0, 1] | Some b \<Rightarrow> [0, 1, 2])"
  using feeOps_eq [OF assms] address_hex_inject [OF assms(1), of f m] address_hex_inject [OF assms(1), of m f]
  by (auto simp: net_effect_Cons split: option.splits)

definition loaded_example :: loaded_transaction where
  "loaded_example = (LoadedTransaction \<lparr>rp_tx = None, rp_block_number = None,
     rp_block_hash = None, rp_from = Some 1\<rparr>)\<lparr>lt_fee_amount := Some 50, lt_fee_burned := Some 30,
     lt_miner := ''0x9''\<rparr>"

theorem feeOps_accounts_witness:
  "\<exists>ops. feeOps standin loaded_example = Ok ops \<and> sum_list (map op_value ops) = - 30
     \<and> net_effect ''0x1'' ops = - 50 \<and> net_effect ''0x9'' ops = 20 \<and> map op_index ops = [0, 1, 2]"
proof -
  have hex: "address_hex standin 9 = ''0x9''" "address_hex standin 1 = ''0x1''" by code_simp+
  show ?thesis
    using feeOps_accounts [OF standin_address_laws, of loaded_example 1 9 50] hex
    by (simp add: loaded_example_def LoadedTransaction_def)
qed

text \<open>
  A dynamic-fee transaction with tip cap \<open>t\<close> and fee cap \<open>f\<close>, in a block with base fee
  \<open>b \<le> f\<close>: the fee never exceeds the fee cap times the gas used, the burned part is the base fee
  times the gas used, and what the miner earns is the gas used times the smaller of the tip cap
  and \<open>f - b\<close>, never negative.
\<close>

theorem calculateGas_dynamic_fee:
  assumes "gas_tip_law G tx t f" and "tx_type tx = eip1559TxType"
    and "hd_base_fee head = Some b" and "0 \<le> b" and "b \<le> f"
  shows "\<exists>fee burned. calculateGas G tx r head = Ok (fee, Some burned)
    \<and> fee \<le> uint (rc_gas_used r) * f \<and> burned = uint (rc_gas_used r) * b
    \<and> fee - burned = uint (rc_gas_used r) * min t (f - b) \<and> 0 \<le> fee - burned"
proof -
  let ?g = "uint (rc_gas_used r)"
  have tip: "effective_gas_tip G tx (Some b) = Ok (min t (f - b))" and t: "0 \<le> t"
    using assms(1,4,5) by (auto simp: gas_tip_law_def)
  have "calculateGas G tx r head = Ok (?g * (min t (f - b) + b), Some (?g * b))"
    using assms(2,3) tip by (simp add: calculateGas_def effectiveGasPrice_def Let_def)
  moreover have "?g * (min t (f - b) + b) \<le> ?g * f"
    by (intro mult_left_mono) auto
  moreover have "0 \<le> ?g * min t (f - b)"
    using t assms(5) by (intro mult_nonneg_nonneg) auto
  ultimately show ?thesis by (auto simp: algebra_simps)
qed

definition tx_example :: eth_tx where
  "tx_example = \<lparr>tx_hash = 11, tx_type = 2, tx_gas_price = 3, tx_gas = 21000, tx_nonce = 0,
     tx_to = Some 5, tx_value = 1, tx_data = [], tx_chain_id = 1\<rparr>"

definition header_example :: header where
  "header_example = \<lparr>hd_hash = 7, hd_parent_hash = 6, hd_uncle_hash = 1, hd_tx_hash = 2,
     hd_coinbase = 9, hd_number = 5, hd_time = 1000, hd_base_fee = Some 40\<rparr>"

definition receipt_example :: receipt where
  "receipt_example = \<lparr>rc_block_hash = 7, rc_gas_used = 21000, rc_marshal = Ok (JObj [])\<rparr>"

theorem calculateGas_dynamic_fee_witness:
  "\<exists>fee burned. calculateGas standin tx_example receipt_example header_example = Ok (fee, Some burned)
     \<and> burned = 840000 \<and> fee - burned = 42000"
  using calculateGas_dynamic_fee [OF standin_gas_tip_law, of tx_example header_example 40 receipt_example]
  by (auto simp: tx_example_def header_example_def receipt_example_def eip1559TxType_def)

text \<open>
  The other branches of the fee computation: any other transaction pays its gas price
  whatever the base fee; a fee cap below the base fee is an error that wraps go-ethereum's; and
  a dynamic-fee transaction in a block without base fee makes the code dereference nil.
\<close>

theorem calculateGas_other_branches:
  assumes "gas_tip_law G tx t f"
  shows "(tx_type tx \<noteq> eip1559TxType \<longrightarrow> calculateGas G tx r head =
      Ok (uint (rc_gas_used r) * tx_gas_price tx, map_option (\<lambda>b. uint (rc_gas_used r) * b) (hd_base_fee head)))
    \<and> (tx_type tx = eip1559TxType \<longrightarrow> hd_base_fee head = None \<longrightarrow>
      calculateGas G tx r head = Crash NilDeref)
    \<and> (\<forall>b. tx_type tx = eip1559TxType \<longrightarrow> hd_base_fee head = Some b \<longrightarrow> f < b \<longrightarrow>
      (\<exists>e. effective_gas_tip G tx (Some b) = Err e
        \<and> calculateGas G tx r head = Err (Wrapf e '': failure getting effective gas price'')))"
  using assms
  by (auto simp: calculateGas_def effectiveGasPrice_def Let_def gas_tip_law_def split: option.splits)

theorem calculateGas_other_branches_witness:
  "calculateGas standin (tx_example\<lparr>tx_type := 0\<rparr>) receipt_example header_example = Ok (63000, Some 840000)
   \<and> calculateGas standin tx_example receipt_example (header_example\<lparr>hd_base_fee := None\<rparr>) = Crash NilDeref"
  using calculateGas_other_branches [OF standin_gas_tip_law, of "tx_example\<lparr>tx_type := 0\<rparr>" receipt_example header_example]
    calculateGas_other_branches [OF standin_gas_tip_law, of tx_example receipt_example "header_example\<lparr>hd_base_fee := None\<rparr>"]
  by (simp add: tx_example_def header_example_def receipt_example_def eip1559TxType_def)

end
