(* ===== verification/GoFloat.thy ===== *)
theory GoFloat
  imports GoRuntime
begin

text \<open>
  Rounding to a 53-bit mantissa, nearest with ties to even: the rounding of \<open>float64\<close>
  conversions and of \<open>big.Float.Mul\<close> on operands made by \<open>big.NewFloat\<close>. A float is kept as
  an integer numerator over a fixed power of two; rounding does not depend on that power.
\<close>

fun bitlen :: "nat \<Rightarrow> nat" where
  "bitlen n = (if n = 0 then 0 else Suc (bitlen (n div 2)))"

declare bitlen.simps [simp del]

definition rnd53_nat :: "nat \<Rightarrow> nat" where
  "rnd53_nat x = (let e = bitlen x - 53; q = x div 2 ^ e; r = x mod 2 ^ e in
     if e = 0 then x
     else if 2 ^ (e - 1) < r \<or> (r = 2 ^ (e - 1) \<and> odd q) then (q + 1) * 2 ^ e
     else q * 2 ^ e)"

definition rnd53 :: "int \<Rightarrow> int" where
  "rnd53 x = sgn x * int (rnd53_nat (nat \<bar>x\<bar>))"

text \<open>
  Division truncated towards zero, as Go's \<open>/\<close> on integers and the conversion of a float to
  an integer.
\<close>

definition trunc_div :: "int \<Rightarrow> int \<Rightarrow> int" where
  "trunc_div a b = sgn a * sgn b * (\<bar>a\<bar> div \<bar>b\<bar>)"

text \<open>
  \<open>big.Float.Int64\<close> of the float \<open>p / d\<close>, \<open>d\<close> a power of two: truncated, and clamped to the
  range of int64.
\<close>

definition float_Int64 :: "int \<Rightarrow> int \<Rightarrow> int" where
  "float_Int64 p d = max (- (2 ^ 63)) (min (2 ^ 63 - 1) (trunc_div p d))"

lemma bitlen_le: "x < 2 ^ n \<Longrightarrow> bitlen x \<le> n"
proof (induction n arbitrary: x)
  case 0
  then show ?case by (simp add: bitlen.simps)
next
  case (Suc n)
  show ?case
  proof (cases "x = 0")
    case True
    then show ?thesis by (simp add: bitlen.simps)
  next
    case False
    from Suc.prems have "x div 2 < 2 ^ n" by (simp add: less_mult_imp_div_less mult.commute)
    with Suc.IH have "bitlen (x div 2) \<le> n" .
    with False show ?thesis by (subst bitlen.simps) simp
  qed
qed

text \<open>A number with at most 53 significant bits is not changed by rounding.\<close>

lemma rnd53_nat_exact:
  assumes "m < 2 ^ 53"
  shows "rnd53_nat (m * 2 ^ k) = m * 2 ^ k"
proof -
  let ?x = "m * 2 ^ k"
  have "?x < 2 ^ (53 + k)" using assms by (simp add: power_add)
  then have e: "bitlen ?x - 53 \<le> k" using bitlen_le [of ?x "53 + k"] by simp
  then have "?x mod 2 ^ (bitlen ?x - 53) = 0"
    by (simp add: le_imp_power_dvd mod_eq_0_iff_dvd)
  moreover from this have "?x div 2 ^ (bitlen ?x - 53) * 2 ^ (bitlen ?x - 53) = ?x"
    using div_mult_mod_eq [of ?x "2 ^ (bitlen ?x - 53)"] by simp
  ultimately show ?thesis
    by (simp add: rnd53_nat_def Let_def)
qed

lemma rnd53_exact:
  assumes "\<bar>m\<bar> < 2 ^ 53"
  shows "rnd53 (m * 2 ^ k) = m * 2 ^ k"
proof -
  have "nat \<bar>m * 2 ^ k\<bar> = nat \<bar>m\<bar> * 2 ^ k"
    by (simp add: abs_mult nat_mult_distrib nat_power_eq)
  moreover have "nat \<bar>m\<bar> < 2 ^ 53" using assms by simp
  ultimately have "rnd53_nat (nat \<bar>m * 2 ^ k\<bar>) = nat \<bar>m * 2 ^ k\<bar>"
    using rnd53_nat_exact [of "nat \<bar>m\<bar>" k] by simp
  then have "rnd53 (m * 2 ^ k) = sgn (m * 2 ^ k) * int (nat \<bar>m * 2 ^ k\<bar>)"
    by (simp only: rnd53_def)
  also have "\<dots> = sgn (m * 2 ^ k) * \<bar>m * 2 ^ k\<bar>" by (simp only: int_nat_eq abs_ge_zero if_True)
  finally show ?thesis by (simp only: sgn_mult_abs)
qed

corollary rnd53_small: "\<bar>m\<bar> < 2 ^ 53 \<Longrightarrow> rnd53 m = m"
  using rnd53_exact [of m 0] by simp

lemma trunc_div_nonneg: "0 \<le> a \<Longrightarrow> 0 < b \<Longrightarrow> trunc_div a b = a div b"
  by (cases "a = 0") (simp_all add: trunc_div_def sgn_if)

lemma trunc_div_exact: "0 < b \<Longrightarrow> trunc_div (a * b) b = a"
  by (simp add: trunc_div_def sgn_mult abs_mult mult_sgn_abs)

lemma float_Int64_id: "int64_range (trunc_div p d) \<Longrightarrow> float_Int64 p d = trunc_div p d"
  by (simp add: float_Int64_def int64_range_def)

end
