(* ===== verification/Rewards.thy ===== *)
theory Rewards
  imports Fees GoFloat
begin

text \<open>
  Block rewards (\<open>ethereum/client.go\<close>): \<open>miningReward\<close> by fork, and \<open>blockRewardTransaction\<close>,
  the first transaction of every block, which credits the miner of the block and the miners of
  its uncles. The miner's bonus for including uncles goes through floating point; the reward
  theorem shows that no precision is lost for any number of uncles whose sum fits an int64.
\<close>

section \<open>Model\<close>

definition miningReward :: "geth \<Rightarrow> chain_config \<Rightarrow> int \<Rightarrow> int" where
  "miningReward G p currentBlock =
     (let r0 = wrap64 (frontier_reward G);
          r1 = (if cc_is_byzantium p currentBlock then wrap64 (byzantium_reward G) else r0)
      in if cc_is_constantinople p currentBlock then wrap64 (constantinople_reward G) else r1)"

text \<open>
  The reward of the miner: \<open>float64(numUncles) / 32 * float64(miningReward)\<close>, rounded at each
  step (the division by a power of two is exact), truncated to an int64 and added.
\<close>

definition minerReward :: "int \<Rightarrow> nat \<Rightarrow> int" where
  "minerReward reward numUncles =
     (if 0 < numUncles
      then wrap64 (reward + float_Int64 (rnd53 (rnd53 (int numUncles) * rnd53 reward))
             UnclesRewardMultiplier)
      else reward)"

definition reward_op :: "int \<Rightarrow> string \<Rightarrow> string \<Rightarrow> int \<Rightarrow> operation" where
  "reward_op idx ty acct v = \<lparr>op_index = idx, op_related = [], op_type = ty,
     op_status = Some SuccessStatus, op_account = Some acct, op_amount = Some (wei v),
     op_metadata = []\<rparr>"

text \<open>The reward of an uncle: both factors are int64 values, the product is a big integer.\<close>

definition uncleReward :: "int \<Rightarrow> int \<Rightarrow> int \<Rightarrow> int" where
  "uncleReward reward blockIndex uncleBlock =
     wrap64 (wrap64 (uncleBlock + MaxUncleDepth) - blockIndex) * trunc_div reward MaxUncleDepth"

definition uncle_step :: "geth \<Rightarrow> int \<Rightarrow> int \<Rightarrow> header \<Rightarrow> operation list \<Rightarrow> operation list outcome" where
  "uncle_step G reward blockIndex b ops =
     andThen (MustChecksum G (address_hex G (hd_coinbase b))) (\<lambda>uncleMiner.
       Ok (ops @ [reward_op (int (length ops)) UncleRewardOpType uncleMiner
             (uncleReward reward blockIndex (wrap64 (hd_number b)))]))"

definition blockRewardTransaction ::
  "geth \<Rightarrow> chain_config \<Rightarrow> block_identifier \<Rightarrow> string \<Rightarrow> header list \<Rightarrow> rosetta_transaction outcome" where
  "blockRewardTransaction G p blockIdentifier miner uncles =
     (let reward = miningReward G p (bi_index blockIdentifier)
      in andThen (MustChecksum G miner) (\<lambda>minerAddr.
         andThen (foldM (uncle_step G reward (bi_index blockIdentifier)) uncles
             [reward_op 0 MinerRewardOpType minerAddr (minerReward reward (length uncles))])
           (\<lambda>ops. Ok \<lparr>rt_hash = bi_hash blockIdentifier, rt_operations = ops, rt_metadata = []\<rparr>)))"

section \<open>Rewards are exact\<close>

text \<open>The rewards the chain pays, in units of \<open>2 ^ 18\<close> wei, fit a 53-bit mantissa.\<close>

definition legal_reward :: "int \<Rightarrow> bool" where
  "legal_reward r \<longleftrightarrow> r \<in> {2 * 10 ^ 18, 3 * 10 ^ 18, 5 * 10 ^ 18}"

lemma miningReward_legal: "reward_laws G \<Longrightarrow> legal_reward (miningReward G p n)"
  by (simp add: reward_laws_def miningReward_def legal_reward_def Let_def wrap64_def)

lemma rnd53_reward:
  assumes "legal_reward r" and "n \<le> 26"
  shows "rnd53 (rnd53 (int n) * rnd53 r) = int n * r"
proof -
  obtain m where m: "r = m * 2 ^ 18" "0 \<le> m" "m < 2 ^ 45"
    using assms(1) by (auto simp: legal_reward_def intro: that [of "7629394531250"]
        that [of "11444091796875"] that [of "19073486328125"])
  have "int n * m \<le> 26 * m" using assms(2) m(2) by (intro mult_right_mono) auto
  then have "\<bar>int n * m\<bar> < 2 ^ 53" using m(2,3) by (simp add: abs_mult)
  moreover have "rnd53 (int n) = int n" using assms(2) by (intro rnd53_small) simp
  moreover have "rnd53 r = r" using m rnd53_exact [of m 18] by simp
  ultimately show ?thesis using rnd53_exact [of "int n * m" 18] by (simp add: m(1) mult.assoc)
qed

lemma minerReward_exact:
  assumes "legal_reward r" and "n \<le> 26"
  shows "minerReward r n = r + int n * (r div 32)"
proof -
  have r: "r = 32 * (r div 32)" "0 \<le> r div 32" "r div 32 \<le> 156250000000000000"
    using assms(1) by (auto simp: legal_reward_def)
  have n: "0 \<le> int n * (r div 32)" "int n * (r div 32) \<le> 26 * 156250000000000000"
    using r(2,3) assms(2) by (simp, intro mult_mono) auto
  have "trunc_div (int n * r) 32 = int n * (r div 32)"
    using trunc_div_exact [of 32 "int n * (r div 32)"] by (subst r(1)) (simp add: mult.commute mult.left_commute)
  moreover have "int64_range (int n * (r div 32))" "int64_range (r + int n * (r div 32))"
    using n r assms(1) by (auto simp: int64_range_def legal_reward_def)
  ultimately show ?thesis
    by (simp add: minerReward_def rnd53_reward [OF assms] UnclesRewardMultiplier_def float_Int64_id)
qed

lemma uncleReward_depth:
  assumes "legal_reward r" and "1 \<le> d" and "d \<le> 7" and "int64_range n" and "int64_range (n + 8)"
  shows "uncleReward r n (n - d) = (8 - d) * (r div 8)"
proof -
  have "int64_range (n - d + 8)" "int64_range (8 - d)"
    using assms(2-5) by (auto simp: int64_range_def)
  moreover have "trunc_div r 8 = r div 8"
    using assms(1) by (intro trunc_div_nonneg) (auto simp: legal_reward_def)
  ultimately show ?thesis by (simp add: uncleReward_def MaxUncleDepth_def)
qed

section \<open>The reward transaction\<close>

text \<open>The operations of the uncles, indexed from \<open>i\<close>.\<close>

fun uncle_ops :: "geth \<Rightarrow> int \<Rightarrow> int \<Rightarrow> int \<Rightarrow> header list \<Rightarrow> operation list" where
  "uncle_ops G reward n i [] = []"
| "uncle_ops G reward n i (b # bs) =
     reward_op i UncleRewardOpType (address_hex G (hd_coinbase b))
       (uncleReward reward n (wrap64 (hd_number b))) # uncle_ops G reward n (i + 1) bs"

lemma foldM_uncle_step:
  assumes "address_laws G"
  shows "foldM (uncle_step G r n) us ops = Ok (ops @ uncle_ops G r n (int (length ops)) us)"
  by (induction us arbitrary: ops)
     (simp_all add: uncle_step_def MustChecksum_hex [OF assms] add.commute)

lemma blockReward_eq:
  assumes "address_laws G"
  shows "blockRewardTransaction G p bid (address_hex G m) uncles =
    (let r = miningReward G p (bi_index bid)
     in Ok \<lparr>rt_hash = bi_hash bid,
        rt_operations = reward_op 0 MinerRewardOpType (address_hex G m) (minerReward r (length uncles))
          # uncle_ops G r (bi_index bid) 1 uncles,
        rt_metadata = []\<rparr>)"
  by (simp add: blockRewardTransaction_def MustChecksum_hex [OF assms] foldM_uncle_step [OF assms] Let_def)

lemma reward_op_fields [simp]:
  "op_index (reward_op i t a v) = i" "op_account (reward_op i t a v) = Some a"
  "op_success (reward_op i t a v)" "op_value (reward_op i t a v) = v" "op_type (reward_op i t a v) = t"
  "op_related (reward_op i t a v) = []" "op_status (reward_op i t a v) = Some SuccessStatus"
  by (simp_all add: reward_op_def op_success_def op_value_def)

text \<open>The loop keeps the operations well formed.\<close>

lemma uncle_step_wf:
  assumes "ops_wf 0 ops" and "uncle_step G r n b ops = Ok ops'"
  shows "ops_wf 0 ops'"
proof -
  obtain a where a: "ops' = ops @ [reward_op (int (length ops)) UncleRewardOpType a
      (uncleReward r n (wrap64 (hd_number b)))]"
    using assms(2) by (auto simp: uncle_step_def)
  have "ops_wf (int (length ops)) [reward_op (int (length ops)) UncleRewardOpType a v]" for v
    by (simp add: ops_wf_def op_ok_def OperationTypes_def OperationStatuses_def)
  with assms(1) show ?thesis unfolding a by (intro ops_wf_append) simp_all
qed

lemma blockReward_wf:
  assumes "blockRewardTransaction G p bid miner uncles = Ok tx"
  shows "ops_wf 0 (rt_operations tx)"
proof -
  let ?r = "miningReward G p (bi_index bid)"
  obtain a where f: "foldM (uncle_step G ?r (bi_index bid)) uncles
      [reward_op 0 MinerRewardOpType a (minerReward ?r (length uncles))] = Ok (rt_operations tx)"
    using assms by (auto simp: blockRewardTransaction_def Let_def)
  show ?thesis
  proof (rule foldM_invariant [OF f])
    show "ops_wf 0 [reward_op 0 MinerRewardOpType a (minerReward ?r (length uncles))]"
      by (simp add: ops_wf_def op_ok_def OperationTypes_def OperationStatuses_def)
  qed (rule uncle_step_wf)
qed

interpretation reward_stage: op_stage
  "\<lambda>(G, p, bid, miner, uncles) s. andThen (blockRewardTransaction G p bid miner uncles)
     (\<lambda>tx. Ok (rt_operations tx))" "\<lambda>_ s. s = 0"
  by unfold_locales (auto dest: blockReward_wf)

section \<open>Properties\<close>

lemma uncle_ops_values:
  assumes "legal_reward r" and "int64_range n" and "int64_range (n + 8)"
    and "\<forall>u \<in> set us. 1 \<le> n - hd_number u \<and> n - hd_number u \<le> 7" and "8 \<le> n"
  shows "map op_value (uncle_ops G r n i us) = map (\<lambda>u. (8 - (n - hd_number u)) * (r div 8)) us"
  using assms(4)
proof (induction us arbitrary: i)
  case (Cons u us)
  then have "int64_range (hd_number u)" and d: "1 \<le> n - hd_number u" "n - hd_number u \<le> 7"
    using assms(2,5) by (auto simp: int64_range_def)
  then show ?case
    using Cons uncleReward_depth [OF assms(1) d assms(2,3)] by simp
qed simp

lemma uncle_ops_accounts:
  "map op_account (uncle_ops G r n i us) = map (\<lambda>u. Some (address_hex G (hd_coinbase u))) us"
  "map op_type (uncle_ops G r n i us) = map (\<lambda>u. UncleRewardOpType) us"
  by (induction us arbitrary: i) simp_all

lemma uncle_ops_effect:
  assumes "address_laws G" and "legal_reward r" and "int64_range n" and "int64_range (n + 8)"
    and "\<forall>u \<in> set us. 1 \<le> n - hd_number u \<and> n - hd_number u \<le> 7" and "8 \<le> n"
  shows "net_effect (address_hex G a) (uncle_ops G r n i us) =
    sum_list (map (\<lambda>u. (8 - (n - hd_number u)) * (r div 8)) (filter (\<lambda>u. hd_coinbase u = a) us))"
  using assms(5)
proof (induction us arbitrary: i)
  case (Cons u us)
  have "op_value (reward_op i UncleRewardOpType (address_hex G (hd_coinbase u)) (uncleReward r n (wrap64 (hd_number u))))
      = (8 - (n - hd_number u)) * (r div 8)"
    using uncle_ops_values [OF assms(2-4), of "[u]" G i] Cons.prems assms(6) by simp
  with Cons show ?case by (auto simp: net_effect_Cons address_hex_inject [OF assms(1)])
qed simp

text \<open>
  C19. The reward transaction of a block with at most 26 uncles, each one to seven blocks
  older. It has one operation for the miner of the block, which pays the block reward \<open>r\<close> of the fork plus exactly
  \<open>r / 32\<close> for every uncle, in spite of the floating point detour, and then one for every uncle in the order
  of the block, which pays the coinbase of that uncle, \<open>d\<close> blocks older, \<open>(8 - d) / 8\<close> of \<open>r\<close>. So an address
  gains what it is owed in all its roles. The operations are indexed from 0 and the transaction carries the hash
  of the block.
\<close>

theorem blockReward_exact:
  assumes "address_laws G" and "reward_laws G" and "length uncles \<le> 26"
    and "8 \<le> bi_index bid" and "bi_index bid < 2 ^ 62"
    and "\<forall>u \<in> set uncles. 1 \<le> bi_index bid - hd_number u \<and> bi_index bid - hd_number u \<le> 7"
  shows "\<exists>tx r. blockRewardTransaction G p bid (address_hex G m) uncles = Ok tx
    \<and> r = miningReward G p (bi_index bid) \<and> rt_hash tx = bi_hash bid
    \<and> map op_value (rt_operations tx) = (r + int (length uncles) * (r div 32))
        # map (\<lambda>u. (8 - (bi_index bid - hd_number u)) * (r div 8)) uncles
    \<and> map op_account (rt_operations tx) = Some (address_hex G m)
        # map (\<lambda>u. Some (address_hex G (hd_coinbase u))) uncles
    \<and> map op_type (rt_operations tx) = MinerRewardOpType # map (\<lambda>u. UncleRewardOpType) uncles
    \<and> (\<forall>a. net_effect (address_hex G a) (rt_operations tx) =
        (if a = m then r + int (length uncles) * (r div 32) else 0)
        + sum_list (map (\<lambda>u. (8 - (bi_index bid - hd_number u)) * (r div 8)) (filter (\<lambda>u. hd_coinbase u = a) uncles)))
    \<and> ops_wf 0 (rt_operations tx)"
proof -
  let ?r = "miningReward G p (bi_index bid)"
  have legal: "legal_reward ?r" by (rule miningReward_legal [OF assms(2)])
  have "int64_range (bi_index bid)" "int64_range (bi_index bid + 8)"
    using assms(4,5) by (auto simp: int64_range_def)
  then have "map op_value (uncle_ops G ?r (bi_index bid) 1 uncles)
      = map (\<lambda>u. (8 - (bi_index bid - hd_number u)) * (?r div 8)) uncles"
    using assms(4,6) by (intro uncle_ops_values [OF legal])
  moreover obtain tx where "blockRewardTransaction G p bid (address_hex G m) uncles = Ok tx"
      "rt_hash tx = bi_hash bid" "rt_operations tx =
        reward_op 0 MinerRewardOpType (address_hex G m) (minerReward ?r (length uncles))
          # uncle_ops G ?r (bi_index bid) 1 uncles"
    by (simp add: blockReward_eq [OF assms(1)] Let_def)
  moreover from this(1) have "ops_wf 0 (rt_operations tx)" by (rule blockReward_wf)
  moreover have "net_effect (address_hex G a) (uncle_ops G ?r (bi_index bid) 1 uncles) =
      sum_list (map (\<lambda>u. (8 - (bi_index bid - hd_number u)) * (?r div 8)) (filter (\<lambda>u. hd_coinbase u = a) uncles))" for a
    using assms(4-6) by (intro uncle_ops_effect [OF assms(1) legal]) (auto simp: int64_range_def)
  ultimately show ?thesis
    using minerReward_exact [OF legal assms(3)]
    by (auto simp: uncle_ops_accounts net_effect_Cons address_hex_inject [OF assms(1)])
qed

definition mainnet_like :: chain_config where
  "mainnet_like = \<lparr>cc_chain_id = 1, cc_is_byzantium = (\<lambda>n. 4370000 \<le> n),
     cc_is_constantinople = (\<lambda>n. 7280000 \<le> n)\<rparr>"

theorem blockReward_exact_witness:
  "\<exists>tx. blockRewardTransaction standin mainnet_like \<lparr>bi_hash = ''0x7'', bi_index = 10992\<rparr> ''0x9''
       [header_example\<lparr>hd_number := 10990, hd_coinbase := 6\<rparr>] = Ok tx
     \<and> map op_value (rt_operations tx) = [5156250000000000000, 3750000000000000000]
     \<and> map op_account (rt_operations tx) = [Some ''0x9'', Some ''0x6'']
     \<and> net_effect ''0x6'' (rt_operations tx) = 3750000000000000000"
proof -
  let ?b = "\<lparr>bi_hash = ''0x7'', bi_index = 10992\<rparr>" and ?u = "header_example\<lparr>hd_number := 10990, hd_coinbase := 6\<rparr>"
  have hex: "address_hex standin 9 = ''0x9''" "address_hex standin 6 = ''0x6''" by code_simp+
  have older: "length [?u] \<le> 26" "8 \<le> bi_index ?b" "bi_index ?b < 2 ^ 62"
    "\<forall>u \<in> set [?u]. 1 \<le> bi_index ?b - hd_number u \<and> bi_index ?b - hd_number u \<le> 7" by simp_all
  from blockReward_exact [OF standin_address_laws standin_reward_laws older, of mainnet_like 9]
  obtain tx r where tx: "blockRewardTransaction standin mainnet_like ?b (address_hex standin 9) [?u] = Ok tx"
    and r: "r = miningReward standin mainnet_like (bi_index ?b)"
    and v: "map op_value (rt_operations tx) = (r + int (length [?u]) * (r div 32))
        # map (\<lambda>u. (8 - (bi_index ?b - hd_number u)) * (r div 8)) [?u]"
    and acc: "map op_account (rt_operations tx) = Some (address_hex standin 9)
        # map (\<lambda>u. Some (address_hex standin (hd_coinbase u))) [?u]"
    and net: "\<forall>a. net_effect (address_hex standin a) (rt_operations tx) =
        (if a = 9 then r + int (length [?u]) * (r div 32) else 0)
        + sum_list (map (\<lambda>u. (8 - (bi_index ?b - hd_number u)) * (r div 8)) (filter (\<lambda>u. hd_coinbase u = a) [?u]))"
    by (elim exE conjE) (rule that)
  have r: "r = 5000000000000000000"
    unfolding r by (simp add: miningReward_def mainnet_like_def standin_def wrap64_def Let_def)
  have "map op_value (rt_operations tx) = [5156250000000000000, 3750000000000000000]" unfolding v by (simp add: r)
  moreover have "map op_account (rt_operations tx) = [Some ''0x9'', Some ''0x6'']" unfolding acc by (simp add: hex)
  moreover have "net_effect ''0x6'' (rt_operations tx) = 3750000000000000000"
    using net [rule_format, of 6] by (simp add: hex r)
  ultimately show ?thesis using tx [unfolded hex(1)] by (intro exI conjI)
qed

text \<open>
  The block reward by fork: 5 ether before Byzantium, 3 from Byzantium on, 2 from
  Constantinople on, which takes precedence.
\<close>

theorem miningReward_by_fork:
  assumes "reward_laws G"
  shows "miningReward G p n =
    (if cc_is_constantinople p n then 2 else if cc_is_byzantium p n then 3 else 5) * 10 ^ 18"
  using assms by (simp add: miningReward_def reward_laws_def Let_def wrap64_def)

theorem miningReward_by_fork_witness:
  "miningReward standin mainnet_like 4370000 = 3000000000000000000"
  using miningReward_by_fork [OF standin_reward_laws, of mainnet_like 4370000]
  by (simp add: mainnet_like_def)

end
