(* ===== verification/Traces.thy ===== *)
theory Traces
  imports Calls OpStages
begin

text \<open>
  \<open>traceOps\<close> of \<open>ethereum/client.go\<close>: the operations of a transaction's calls, with the
  bookkeeping of self-destructed accounts. The loop body is \<open>trace_step\<close> on the state of the
  loop (the slice \<open>ops\<close> and the map \<open>destroyedAccounts\<close>); the final loop ranges over the
  map, whose order Go leaves open, so the order is the parameter \<open>rng\<close>.
\<close>

section \<open>Model\<close>

record trace_state =
  ts_ops :: "operation list"
  ts_destroyed :: "(string \<times> int) list"

text \<open>\<open>ops[len(ops)-1].OperationIdentifier.Index\<close>\<close>

definition last_index :: "operation list \<Rightarrow> int outcome" where
  "last_index ops = (if ops = [] then Crash IndexOutOfRange else Ok (op_index (last ops)))"

text \<open>
  \<open>destroyedAccounts[acct]\<close> moves by \<open>delta\<close> where the account is destroyed and the operation
  succeeded.
\<close>

definition track :: "bool \<Rightarrow> string \<Rightarrow> int \<Rightarrow> (string \<times> int) list \<Rightarrow> (string \<times> int) list" where
  "track ok acct delta m = (case map_of m acct of
      None \<Rightarrow> m
    | Some v \<Rightarrow> if ok then gm_put acct (v + delta) m else m)"

definition trace_from_op :: "int \<Rightarrow> flat_call \<Rightarrow> string \<Rightarrow> operation" where
  "trace_from_op idx tr from = \<lparr>op_index = idx, op_related = [], op_type = fc_type tr,
     op_status = Some (if fc_revert tr then FailureStatus else SuccessStatus),
     op_account = Some from,
     op_amount = (if fc_value tr = 0 then None else Some (wei (- fc_value tr))),
     op_metadata = (if fc_revert tr then [(''error'', JStr (fc_error tr))] else [])\<rparr>"

definition trace_to_op :: "int \<Rightarrow> flat_call \<Rightarrow> string \<Rightarrow> operation" where
  "trace_to_op lastOpIndex tr to = \<lparr>op_index = lastOpIndex + 1, op_related = [lastOpIndex],
     op_type = fc_type tr,
     op_status = Some (if fc_revert tr then FailureStatus else SuccessStatus),
     op_account = Some to,
     op_amount = (if fc_value tr = 0 then None else Some (wei (fc_value tr))),
     op_metadata = (if fc_revert tr then [(''error'', JStr (fc_error tr))] else [])\<rparr>"

text \<open>Zero-value calls emit nothing.\<close>

definition should_add :: "flat_call \<Rightarrow> bool" where
  "should_add tr \<longleftrightarrow> \<not> (fc_value tr = 0 \<and> CallType (fc_type tr))"

definition trace_step :: "geth \<Rightarrow> int \<Rightarrow> flat_call \<Rightarrow> trace_state \<Rightarrow> trace_state outcome" where
  "trace_step G startIndex tr st =
     andThen (MustChecksum G (address_hex G (fc_from tr))) (\<lambda>from.
     andThen (MustChecksum G (address_hex G (fc_to tr))) (\<lambda>to.
     let ok = (\<not> fc_revert tr);
         st1 = (if should_add tr
                then \<lparr>ts_ops = ts_ops st
                        @ [trace_from_op (int (length (ts_ops st)) + startIndex) tr from],
                      ts_destroyed = (if fc_value tr = 0 then ts_destroyed st
                        else track ok from (- fc_value tr) (ts_destroyed st))\<rparr>
                else st);
         st2 = (if fc_type tr = SelfDestructOpType
                then st1\<lparr>ts_destroyed := gm_put from 0 (ts_destroyed st1)\<rparr> else st1)
     in if fc_type tr = SelfDestructOpType \<and> from = to then Ok st2
        else if length (address_hex G (fc_to tr)) = 0 then Ok st2
        else let st3 = (if CreateType (fc_type tr)
                        then st2\<lparr>ts_destroyed := gm_del to (ts_destroyed st2)\<rparr> else st2)
             in if should_add tr
                then andThen (last_index (ts_ops st3)) (\<lambda>lastOpIndex.
                  Ok \<lparr>ts_ops = ts_ops st3 @ [trace_to_op lastOpIndex tr to],
                      ts_destroyed = (if fc_value tr = 0 then ts_destroyed st3
                        else track ok to (fc_value tr) (ts_destroyed st3))\<rparr>)
                else Ok st3))"

text \<open>The loop over the destroyed accounts, in the order \<open>ds\<close>.\<close>

definition destruct_op :: "int \<Rightarrow> string \<Rightarrow> int \<Rightarrow> operation" where
  "destruct_op idx acct val = \<lparr>op_index = idx, op_related = [], op_type = DestructOpType,
     op_status = Some SuccessStatus, op_account = Some acct, op_amount = Some (wei (- val)),
     op_metadata = []\<rparr>"

fun destruct_ops :: "(string \<times> int) list \<Rightarrow> operation list \<Rightarrow> operation list outcome" where
  "destruct_ops [] ops = Ok ops"
| "destruct_ops ((acct, val) # ds) ops =
     (if val = 0 then destruct_ops ds ops
      else if val < 0 then
        Crash (LogFatal (''negative balance for suicided account '' @ acct @ '': '' @ int_string val))
      else andThen (last_index ops) (\<lambda>i. destruct_ops ds (ops @ [destruct_op (i + 1) acct val])))"

definition traceOps ::
  "geth \<Rightarrow> ((string \<times> int) list \<Rightarrow> (string \<times> int) list) \<Rightarrow> flat_call list \<Rightarrow> int \<Rightarrow> operation list outcome"
where
  "traceOps G rng calls startIndex =
     (if calls = [] then Ok []
      else andThen (foldM (trace_step G startIndex) calls \<lparr>ts_ops = [], ts_destroyed = []\<rparr>)
        (\<lambda>st. destruct_ops (rng (ts_destroyed st)) (ts_ops st)))"

text \<open>A \<open>range\<close> loop visits every entry of the map once, in some order.\<close>

definition map_order :: "((string \<times> int) list \<Rightarrow> (string \<times> int) list) \<Rightarrow> bool" where
  "map_order rng \<longleftrightarrow> (\<forall>m. gm_ok m \<longrightarrow> mset (rng m) = mset m)"

lemma map_order_set: "map_order rng \<Longrightarrow> gm_ok m \<Longrightarrow> set (rng m) = set m"
  unfolding map_order_def by (metis set_mset_mset)

lemma map_order_gm_ok: "map_order rng \<Longrightarrow> gm_ok m \<Longrightarrow> gm_ok (rng m)"
  unfolding map_order_def gm_ok_def by (metis mset_eq_imp_distinct_iff mset_map)

lemma map_order_examples [simp]: "map_order (\<lambda>m. m)" "map_order rev"
  by (simp_all add: map_order_def)

lemma map_order_range [simp]: "key_order ord \<Longrightarrow> map_order (range_entries ord)"
  by (simp add: map_order_def mset_range_entries)

section \<open>The operations of one trace\<close>

lemma map_of_track [simp]:
  "map_of (track ok a d m) = (case map_of m a of None \<Rightarrow> map_of m
     | Some v \<Rightarrow> if ok then (map_of m)(a \<mapsto> v + d) else map_of m)"
  by (simp add: track_def split: option.splits)

lemma keys_track [simp]: "map_of (track ok a d m) x = None \<longleftrightarrow> map_of m x = None"
  by (auto split: option.splits)

lemma gm_ok_track [simp]: "gm_ok m \<Longrightarrow> gm_ok (track ok a d m)"
  by (simp add: track_def split: option.splits)

lemma track_Nil_iff [simp]: "track ok a d m = [] \<longleftrightarrow> m = []"
  by (cases m) (auto simp: track_def split: option.splits)

lemma op_value_trace [simp]:
  "op_value (trace_from_op i tr a) = - fc_value tr" "op_value (trace_to_op i tr a) = fc_value tr"
  "op_value (destruct_op i a v) = - v"
  by (simp_all add: op_value_def trace_from_op_def trace_to_op_def destruct_op_def)

lemma op_fields_trace [simp]:
  "op_index (trace_from_op i tr a) = i" "op_index (trace_to_op i tr a) = i + 1"
  "op_account (trace_from_op i tr a) = Some a" "op_account (trace_to_op i tr a) = Some a"
  "op_success (trace_from_op i tr a) \<longleftrightarrow> \<not> fc_revert tr"
  "op_success (trace_to_op i tr a) \<longleftrightarrow> \<not> fc_revert tr"
  "op_type (trace_from_op i tr a) = fc_type tr" "op_type (trace_to_op i tr a) = fc_type tr"
  "op_index (destruct_op i a v) = i" "op_account (destruct_op i a v) = Some a"
  "op_success (destruct_op i a v)" "op_type (destruct_op i a v) = DestructOpType"
  by (simp_all add: trace_from_op_def trace_to_op_def destruct_op_def op_success_def)

lemma status_declared [simp]:
  "\<exists>st \<in> set OperationStatuses. os_status st = SuccessStatus"
  "\<exists>st \<in> set OperationStatuses. os_status st = FailureStatus"
  by (simp_all add: OperationStatuses_def)

lemma op_ok_trace:
  "fc_type tr \<in> set OperationTypes \<Longrightarrow> op_ok s (trace_from_op i tr a)"
  "fc_type tr \<in> set OperationTypes \<Longrightarrow> s \<le> i \<Longrightarrow> op_ok s (trace_to_op i tr a)"
  "op_ok s (destruct_op i a v)"
  by (auto simp: op_ok_def trace_from_op_def trace_to_op_def destruct_op_def OperationStatuses_def
      OperationTypes_def)

text \<open>
  What a step adds, under the address laws: the loop state after a step, with the addresses
  replaced by their checksums. The step never fails.
\<close>

definition step_ops :: "geth \<Rightarrow> int \<Rightarrow> flat_call \<Rightarrow> operation list" where
  "step_ops G i tr =
     (if \<not> should_add tr then []
      else if fc_type tr = SelfDestructOpType \<and> fc_from tr = fc_to tr
        then [trace_from_op i tr (address_hex G (fc_from tr))]
      else [trace_from_op i tr (address_hex G (fc_from tr)),
            trace_to_op i tr (address_hex G (fc_to tr))])"

definition step_destroyed :: "geth \<Rightarrow> flat_call \<Rightarrow> (string \<times> int) list \<Rightarrow> (string \<times> int) list" where
  "step_destroyed G tr m =
     (let f = address_hex G (fc_from tr); t = address_hex G (fc_to tr); ok = (\<not> fc_revert tr);
          m1 = (if should_add tr \<and> fc_value tr \<noteq> 0 then track ok f (- fc_value tr) m else m);
          m2 = (if fc_type tr = SelfDestructOpType then gm_put f 0 m1 else m1);
          m3 = (if CreateType (fc_type tr) then gm_del t m2 else m2)
      in if fc_type tr = SelfDestructOpType \<and> fc_from tr = fc_to tr then m2
         else if should_add tr \<and> fc_value tr \<noteq> 0 then track ok t (fc_value tr) m3 else m3)"

lemma trace_step_eq:
  assumes "address_laws G"
  shows "trace_step G s tr st = Ok
    \<lparr>ts_ops = ts_ops st @ step_ops G (int (length (ts_ops st)) + s) tr,
     ts_destroyed = step_destroyed G tr (ts_destroyed st)\<rparr>"
  using address_lawsD(3) [OF assms]
  by (simp add: trace_step_def step_ops_def step_destroyed_def last_index_def Let_def
      MustChecksum_hex [OF assms] address_hex_inject [OF assms])

lemma length_step_ops: "length (step_ops G i tr) \<le> 2"
  by (simp add: step_ops_def)

text \<open>The state after a list of traces: the loop never fails before the final range.\<close>

fun run_ops :: "geth \<Rightarrow> int \<Rightarrow> flat_call list \<Rightarrow> operation list" where
  "run_ops G i [] = []"
| "run_ops G i (tr # trs) =
     step_ops G i tr @ run_ops G (i + int (length (step_ops G i tr))) trs"

fun run_destroyed :: "geth \<Rightarrow> flat_call list \<Rightarrow> (string \<times> int) list \<Rightarrow> (string \<times> int) list" where
  "run_destroyed G [] m = m"
| "run_destroyed G (tr # trs) m = run_destroyed G trs (step_destroyed G tr m)"

lemma foldM_trace_step:
  assumes "address_laws G"
  shows "foldM (trace_step G s) trs st = Ok
    \<lparr>ts_ops = ts_ops st @ run_ops G (int (length (ts_ops st)) + s) trs,
     ts_destroyed = run_destroyed G trs (ts_destroyed st)\<rparr>"
  by (induction trs arbitrary: st) (simp_all add: trace_step_eq [OF assms] algebra_simps)

lemma traceOps_eq:
  assumes "address_laws G"
  shows "traceOps G rng calls s =
    (if calls = [] then Ok [] else destruct_ops (rng (run_destroyed G calls [])) (run_ops G s calls))"
  by (simp add: traceOps_def foldM_trace_step [OF assms])

section \<open>The final loop\<close>

fun destructs :: "int \<Rightarrow> (string \<times> int) list \<Rightarrow> operation list" where
  "destructs i [] = []"
| "destructs i ((a, v) # ds) = (if v = 0 then destructs i ds else destruct_op i a v # destructs (i + 1) ds)"

definition negative_fatal :: "string \<times> int \<Rightarrow> crash" where
  "negative_fatal e =
     LogFatal (''negative balance for suicided account '' @ fst e @ '': '' @ int_string (snd e))"

lemma destruct_ops_eq:
  assumes "indexed op_index s ops" and "ops \<noteq> []"
  shows "destruct_ops ds ops = (case find (\<lambda>e. snd e < 0) ds of
      None \<Rightarrow> Ok (ops @ destructs (s + int (length ops)) ds)
    | Some e \<Rightarrow> Crash (negative_fatal e))"
  using assms
proof (induction ds ops rule: destruct_ops.induct)
  case (1 ops)
  then show ?case by simp
next
  case (2 acct val ds ops)
  have last: "last_index ops = Ok (s + int (length ops) - 1)"
    using "2.prems" by (simp add: last_index_def indexed_last)
  consider "val = 0" | "val < 0" | "0 < val" by linarith
  then show ?case
  proof cases
    case 3
    let ?i = "s + int (length ops)"
    have "destruct_ops ds (ops @ [destruct_op ?i acct val]) = (case find (\<lambda>e. snd e < 0) ds of
        None \<Rightarrow> Ok (ops @ destruct_op ?i acct val # destructs (?i + 1) ds)
      | Some e \<Rightarrow> Crash (negative_fatal e))"
      using "2.IH"(2) [of "?i - 1"] 3 "2.prems" last
      by (simp add: ac_simps split: option.split)
    with 3 last show ?thesis by (simp split: option.split)
  qed (use 2 in \<open>simp_all add: negative_fatal_def split: option.split\<close>)
qed

lemma ops_wf_destructs: "ops_wf i (destructs i ds)"
proof -
  have "indexed op_index i (destructs i ds)"
    by (induction i ds rule: destructs.induct) auto
  moreover have "op_ok s p" if "p \<in> set (destructs i ds)" for s p
    using that by (induction i ds rule: destructs.induct) (auto simp: op_ok_trace split: if_splits)
  ultimately show ?thesis by (simp add: ops_wf_def)
qed

lemma net_effect_destructs:
  "gm_ok ds \<Longrightarrow> net_effect a (destructs i ds) = (case map_of ds a of None \<Rightarrow> 0 | Some v \<Rightarrow> - v)"
proof (induction i ds rule: destructs.induct)
  case (2 i b v ds)
  then have "gm_ok ds" and "map_of ds b = None"
    by (auto simp: gm_ok_def map_of_eq_None_iff)
  with 2 show ?case by (auto simp: net_effect_Cons)
qed simp

lemma sum_destructs:
  "sum_list (map op_value (filter (\<lambda>p. op_type p = DestructOpType) (destructs i ds)))
     = sum_list (map op_value (destructs i ds))"
  by (induction i ds rule: destructs.induct) auto

section \<open>Shape of the emitted operations\<close>

lemma ops_wf_step: "fc_type tr \<in> set OperationTypes \<Longrightarrow> ops_wf i (step_ops G i tr)"
  by (auto simp: ops_wf_def step_ops_def op_ok_trace)

lemma ops_wf_run: "\<forall>tr \<in> set trs. fc_type tr \<in> set OperationTypes \<Longrightarrow> ops_wf i (run_ops G i trs)"
  by (induction G i trs rule: run_ops.induct) (auto intro: ops_wf_append ops_wf_step)

lemma indexed_run: "indexed op_index i (run_ops G i trs)"
proof (induction G i trs rule: run_ops.induct)
  case (2 G i tr trs)
  have "indexed op_index i (step_ops G i tr)" by (simp add: step_ops_def)
  with 2 show ?case by simp
qed simp

lemma gm_ok_step [simp]: "gm_ok m \<Longrightarrow> gm_ok (step_destroyed G tr m)"
  by (simp add: step_destroyed_def Let_def)

lemma gm_ok_run [simp]: "gm_ok m \<Longrightarrow> gm_ok (run_destroyed G trs m)"
  by (induction G trs m rule: run_destroyed.induct) simp_all

text \<open>Without operations no account was marked destroyed.\<close>

lemma no_ops_no_destroyed:
  "run_ops G i trs = [] \<Longrightarrow> m = [] \<Longrightarrow> run_destroyed G trs m = []"
proof (induction trs arbitrary: i m)
  case (Cons tr trs)
  then have step: "step_ops G i tr = []" by simp
  with Cons.prems(1) have rest: "run_ops G i trs = []" by simp
  from step have "\<not> should_add tr" by (simp add: step_ops_def split: if_splits)
  moreover from this have "fc_type tr \<noteq> SelfDestructOpType"
    by (auto simp: should_add_def)
  ultimately have "step_destroyed G tr m = []"
    using Cons.prems(2) by (simp add: step_destroyed_def Let_def gm_del_def)
  with Cons.IH [OF rest] show ?case by simp
qed simp

text \<open>All outcomes of \<open>traceOps\<close>.\<close>

lemma traceOps_cases:
  assumes "address_laws G" and "map_order rng"
  shows "traceOps G rng calls s = (case find (\<lambda>e. snd e < 0) (rng (run_destroyed G calls [])) of
      None \<Rightarrow> Ok (run_ops G s calls
        @ destructs (s + int (length (run_ops G s calls))) (rng (run_destroyed G calls [])))
    | Some e \<Rightarrow> Crash (negative_fatal e))"
proof (cases "run_ops G s calls = []")
  case True
  then have "run_destroyed G calls [] = []" by (rule no_ops_no_destroyed) simp
  then have "rng (run_destroyed G calls []) = []"
    using map_order_set [OF assms(2), of "[]"] by simp
  with True show ?thesis by (simp add: traceOps_eq [OF assms(1)])
next
  case False
  then have "calls \<noteq> []" by (cases calls) auto
  with False show ?thesis
    by (simp add: traceOps_eq [OF assms(1)] destruct_ops_eq [OF indexed_run])
qed

section \<open>Conservation of value\<close>

text \<open>The value of the traces in which an account destroys itself in favour of itself.\<close>

definition burned :: "flat_call list \<Rightarrow> int" where
  "burned calls = sum_list (map fc_value
     (filter (\<lambda>t. fc_type t = SelfDestructOpType \<and> fc_from t = fc_to t) calls))"

lemma sum_step_ops:
  "sum_list (map op_value (step_ops G i tr)) =
     (if fc_type tr = SelfDestructOpType \<and> fc_from tr = fc_to tr then - fc_value tr else 0)"
proof (cases "should_add tr")
  case True
  then show ?thesis by (simp add: step_ops_def)
next
  case False
  then have "fc_type tr \<noteq> SelfDestructOpType" by (auto simp: should_add_def)
  with False show ?thesis by (simp add: step_ops_def)
qed

lemma sum_run_ops: "sum_list (map op_value (run_ops G i trs)) = - burned trs"
  by (induction G i trs rule: run_ops.induct) (simp_all add: burned_def sum_step_ops)

text \<open>The same for the successful operations alone: those of the traces that were not reverted.\<close>

lemma success_run_ops:
  "sum_list (map op_value (filter op_success (run_ops G i trs))) = - burned (filter (\<lambda>t. \<not> fc_revert t) trs)"
proof -
  have step: "filter op_success (step_ops H i tr) = (if fc_revert tr then [] else step_ops H i tr)" for H i tr
    by (simp add: step_ops_def)
  show "sum_list (map op_value (filter op_success (run_ops G i trs))) = - burned (filter (\<lambda>t. \<not> fc_revert t) trs)"
    by (induction G i trs rule: run_ops.induct) (simp_all add: step burned_def sum_step_ops)
qed

lemma types_run_ops: "p \<in> set (run_ops G i trs) \<Longrightarrow> \<exists>tr \<in> set trs. op_type p = fc_type tr"
  by (induction G i trs rule: run_ops.induct) (auto simp: step_ops_def split: if_splits)

section \<open>The ledger of an execution\<close>

text \<open>
  What a trace did to the balances, per checksummed address, by the rules of the EVM and not of the code: a
  reverted trace has no effect, a self-destruct in favour of itself burns the value, calls, creations
  and other self-destructs move it; \<open>CALLCODE\<close>, \<open>DELEGATECALL\<close> and \<open>STATICCALL\<close> run code on the caller's own
  account and move nothing, whatever value they are reported with.
\<close>

definition pays :: "string \<Rightarrow> bool" where
  "pays ty \<longleftrightarrow> ty \<in> {CallOpType, CreateOpType, Create2OpType, SelfDestructOpType}"

definition apply_trace :: "geth \<Rightarrow> flat_call \<Rightarrow> (string \<Rightarrow> int) \<Rightarrow> string \<Rightarrow> int" where
  "apply_trace G tr bal =
     (let f = address_hex G (fc_from tr); t = address_hex G (fc_to tr);
          bal' = bal(f := bal f - fc_value tr)
      in if fc_revert tr \<or> \<not> pays (fc_type tr) then bal
         else if fc_type tr = SelfDestructOpType \<and> f = t then bal'
         else bal'(t := bal' t + fc_value tr))"

fun ledger :: "geth \<Rightarrow> flat_call list \<Rightarrow> (string \<Rightarrow> int) \<Rightarrow> string \<Rightarrow> int" where
  "ledger G [] bal = bal"
| "ledger G (tr # trs) bal = ledger G trs (apply_trace G tr bal)"

text \<open>The accounts that destroyed themselves, a self-destruct that was reverted not counting.\<close>

definition destroyed :: "geth \<Rightarrow> flat_call list \<Rightarrow> string set" where
  "destroyed G trs = set (map (\<lambda>tr. address_hex G (fc_from tr))
     (filter (\<lambda>tr. fc_type tr = SelfDestructOpType \<and> \<not> fc_revert tr) trs))"

text \<open>
  What the EVM and its tracer guarantee of the traces, from the balances \<open>bal\<close> with the accounts \<open>D\<close>
  destroyed before: values are not negative, a payment that took effect was covered, a
  self-destruct that took effect handed over all its account had, and nothing is created on a destroyed account.
\<close>

fun evm_ok :: "geth \<Rightarrow> flat_call list \<Rightarrow> string set \<Rightarrow> (string \<Rightarrow> int) \<Rightarrow> bool" where
  "evm_ok G [] D bal = True"
| "evm_ok G (tr # trs) D bal =
     (0 \<le> fc_value tr
      \<and> (\<not> fc_revert tr \<and> pays (fc_type tr) \<longrightarrow> fc_value tr \<le> bal (address_hex G (fc_from tr)))
      \<and> (\<not> fc_revert tr \<and> fc_type tr = SelfDestructOpType \<longrightarrow> fc_value tr = bal (address_hex G (fc_from tr)))
      \<and> (CreateType (fc_type tr) \<longrightarrow> address_hex G (fc_to tr) \<notin> D)
      \<and> evm_ok G trs (D \<union> destroyed G [tr]) (apply_trace G tr bal))"

text \<open>
  The accounts for which the code's reading of a trace differs from what happened: the account of a
  self-destruct that was reverted, and the two parties of a call that moves nothing but is reported with a value.
\<close>

definition misreported :: "geth \<Rightarrow> flat_call \<Rightarrow> string \<Rightarrow> bool" where
  "misreported G tr a \<longleftrightarrow>
     (fc_type tr = SelfDestructOpType \<and> fc_revert tr \<and> a = address_hex G (fc_from tr))
     \<or> (\<not> pays (fc_type tr) \<and> \<not> fc_revert tr \<and> fc_value tr \<noteq> 0
        \<and> a \<in> {address_hex G (fc_from tr), address_hex G (fc_to tr)})"

text \<open>What the operations of a trace add to an account.\<close>

definition reported_change :: "geth \<Rightarrow> flat_call \<Rightarrow> string \<Rightarrow> int" where
  "reported_change G tr a =
     (if fc_revert tr then 0
      else (if a = address_hex G (fc_to tr) \<and> \<not> (fc_type tr = SelfDestructOpType \<and> fc_from tr = fc_to tr)
            then fc_value tr else 0)
        - (if a = address_hex G (fc_from tr) then fc_value tr else 0))"

definition reported :: "geth \<Rightarrow> flat_call list \<Rightarrow> string \<Rightarrow> int" where
  "reported G trs a = sum_list (map (\<lambda>tr. reported_change G tr a) trs)"

lemma reported_simps [simp]:
  "reported G [] a = 0" "reported G (tr # trs) a = reported_change G tr a + reported G trs a"
  "reported G (xs @ ys) a = reported G xs a + reported G ys a"
  by (simp_all add: reported_def)

lemma pays_SelfDestruct [simp]: "pays SelfDestructOpType"
  by (simp add: pays_def)

lemma destroyed_simps [simp]:
  "destroyed G [] = {}" "destroyed G (xs @ ys) = destroyed G xs \<union> destroyed G ys"
  by (simp_all add: destroyed_def)

lemma destroyed_Cons: "destroyed G (tr # trs) = destroyed G [tr] \<union> destroyed G trs"
  by (simp add: destroyed_def)

lemma ledger_append [simp]: "ledger G (xs @ ys) bal = ledger G ys (ledger G xs bal)"
  by (induction xs arbitrary: bal) simp_all

lemma evm_ok_append [simp]:
  "evm_ok G (xs @ ys) D bal \<longleftrightarrow> evm_ok G xs D bal \<and> evm_ok G ys (D \<union> destroyed G xs) (ledger G xs bal)"
proof (induction xs arbitrary: D bal)
  case (Cons tr xs)
  then show ?case by (simp add: destroyed_Cons [of G tr xs] Un_assoc del: destroyed_simps)
qed simp

lemma run_destroyed_append [simp]: "run_destroyed G (xs @ ys) m = run_destroyed G ys (run_destroyed G xs m)"
  by (induction xs arbitrary: m) simp_all

lemma net_effect_step:
  assumes "address_laws G"
  shows "net_effect a (step_ops G i tr) = reported_change G tr a"
proof (cases "should_add tr")
  case True
  then show ?thesis
    by (cases "a = address_hex G (fc_from tr)"; cases "a = address_hex G (fc_to tr)"; cases "fc_revert tr")
      (simp_all add: step_ops_def reported_change_def net_effect_Cons address_hex_inject [OF assms])
next
  case False
  then have "fc_value tr = 0" by (simp add: should_add_def)
  with False show ?thesis by (simp add: step_ops_def reported_change_def)
qed

lemma net_effect_run:
  assumes "address_laws G"
  shows "net_effect a (run_ops G i trs) = reported G trs a"
  by (induction trs arbitrary: i) (simp_all add: net_effect_step [OF assms])

text \<open>An account followed alone: where no trace is misread, what is reported of it is what happened.\<close>

lemma apply_reported:
  assumes "address_laws G" and "\<not> misreported G tr a"
  shows "apply_trace G tr bal a = bal a + reported_change G tr a"
  using assms(2)
  by (auto simp: misreported_def apply_trace_def reported_change_def Let_def address_hex_inject [OF assms(1)])

lemma ledger_reported:
  assumes "address_laws G" and "\<forall>tr \<in> set trs. \<not> misreported G tr a"
  shows "ledger G trs bal a = bal a + reported G trs a"
  using assms(2) by (induction trs arbitrary: bal) (simp_all add: apply_reported [OF assms(1)])

text \<open>The entry of an account in the map of the loop.\<close>

lemma entry_after:
  assumes "address_laws G"
  shows "map_of (step_destroyed G tr m) a =
    (if fc_type tr = SelfDestructOpType \<and> a = address_hex G (fc_from tr) then Some 0
     else if CreateType (fc_type tr) \<and> a = address_hex G (fc_to tr) then None
     else map_option (\<lambda>v. v + reported_change G tr a) (map_of m a))"
proof -
  have sd: "fc_type tr = SelfDestructOpType \<Longrightarrow> should_add tr \<and> \<not> CreateType (fc_type tr)"
    "CreateType (fc_type tr) \<Longrightarrow> fc_type tr \<noteq> SelfDestructOpType"
    and add: "fc_value tr \<noteq> 0 \<Longrightarrow> should_add tr"
    by (auto simp: should_add_def)
  note [simp] = step_destroyed_def reported_change_def Let_def address_hex_inject [OF assms]
  show ?thesis
  proof (cases "fc_value tr = 0")
    case True
    then show ?thesis by (cases "map_of m a") (auto simp: sd)
  next
    case False
    then have "should_add tr" by (rule add)
    with False sd show ?thesis
      by (cases "a = address_hex G (fc_from tr)"; cases "a = address_hex G (fc_to tr)"; cases "map_of m a")
        (simp_all split: option.split)
  qed
qed

lemma entry_step:
  assumes "address_laws G" and "evm_ok G (tr # trs) D bal" and "\<not> misreported G tr a"
    and "map_of m a = (if a \<in> D then Some (bal a) else None)"
  shows "map_of (step_destroyed G tr m) a = (if a \<in> D \<union> destroyed G [tr] then Some (apply_trace G tr bal a) else None)"
proof (cases "fc_type tr = SelfDestructOpType \<and> a = address_hex G (fc_from tr)")
  case True
  with assms(2,3) have "apply_trace G tr bal a = 0" and "a \<in> destroyed G [tr]"
    by (auto simp: misreported_def apply_trace_def destroyed_def Let_def)
  with True show ?thesis by (simp add: entry_after [OF assms(1)])
next
  case False
  then have no: "(fc_type tr = SelfDestructOpType \<and> a = address_hex G (fc_from tr)) = False"
    "a \<notin> destroyed G [tr]" by (auto simp: destroyed_def)
  from assms(2) have "CreateType (fc_type tr) \<and> a = address_hex G (fc_to tr) \<Longrightarrow> a \<notin> D" by simp
  with no(2) assms(4) show ?thesis
    unfolding entry_after [OF assms(1)] no(1) by (simp add: apply_reported [OF assms(1,3)])
qed

lemma entry_run:
  assumes "address_laws G"
  shows "evm_ok G trs D bal \<Longrightarrow> \<forall>tr \<in> set trs. \<not> misreported G tr a
    \<Longrightarrow> map_of m a = (if a \<in> D then Some (bal a) else None)
    \<Longrightarrow> map_of (run_destroyed G trs m) a = (if a \<in> D \<union> destroyed G trs then Some (ledger G trs bal a) else None)"
proof (induction trs arbitrary: D bal m)
  case (Cons tr trs)
  let ?D = "D \<union> destroyed G [tr]"
  have "map_of (run_destroyed G trs (step_destroyed G tr m)) a
      = (if a \<in> ?D \<union> destroyed G trs then Some (ledger G trs (apply_trace G tr bal) a) else None)"
    by (rule Cons.IH) (use Cons.prems entry_step [OF assms Cons.prems(1)] in simp_all)
  then show ?case unfolding destroyed_Cons [of G tr trs] by (simp add: Un_assoc)
qed simp

lemma ledger_nonneg: "evm_ok G trs D bal \<Longrightarrow> \<forall>a. 0 \<le> bal a \<Longrightarrow> 0 \<le> ledger G trs bal a"
proof (induction trs arbitrary: D bal)
  case (Cons tr trs)
  have "\<forall>a. 0 \<le> apply_trace G tr bal a"
    using Cons.prems by (auto simp: apply_trace_def Let_def)
  with Cons.prems(1) Cons.IH [of "D \<union> destroyed G [tr]" "apply_trace G tr bal"] show ?case by simp
qed simp

text \<open>The entry of an account that is marked, as long as it is neither marked again nor created.\<close>

lemma marked_step:
  assumes "address_laws G" and "map_of m x = Some u"
    and "\<not> (fc_type tr = SelfDestructOpType \<and> address_hex G (fc_from tr) = x)"
    and "\<not> (CreateType (fc_type tr) \<and> address_hex G (fc_to tr) = x)"
  shows "map_of (step_destroyed G tr m) x = Some (u + reported_change G tr x)"
  using assms(2-4) by (auto simp: entry_after [OF assms(1)])

lemma marked_run:
  assumes "address_laws G"
    and "\<forall>tr \<in> set trs. \<not> (fc_type tr = SelfDestructOpType \<and> address_hex G (fc_from tr) = x)
      \<and> \<not> (CreateType (fc_type tr) \<and> address_hex G (fc_to tr) = x)"
  shows "map_of m x = Some u \<Longrightarrow> map_of (run_destroyed G trs m) x = Some (u + reported G trs x)"
  using assms(2)
proof (induction trs arbitrary: m u)
  case (Cons tr trs)
  then have "map_of (step_destroyed G tr m) x = Some (u + reported_change G tr x)"
    using marked_step [OF assms(1)] by simp
  with Cons show ?case by (simp add: add.assoc)
qed simp

lemma find_None_nonneg: "(\<And>a v. (a, v) \<in> set ds \<Longrightarrow> 0 \<le> v) \<Longrightarrow> find (\<lambda>e. snd e < (0::int)) ds = None"
  by (force simp: find_None_iff not_less)

lemma traceOps_wf:
  assumes "address_laws G" and "map_order rng"
    and "\<forall>tr \<in> set calls. fc_type tr \<in> set OperationTypes"
    and "traceOps G rng calls s = Ok ops"
  shows "ops_wf s ops"
proof -
  have "ops = run_ops G s calls
      @ destructs (s + int (length (run_ops G s calls))) (rng (run_destroyed G calls []))"
    using assms(4) by (simp add: traceOps_cases [OF assms(1,2)] split: option.splits)
  with ops_wf_run [OF assms(3), of s G] show ?thesis
    by (simp add: ops_wf_append ops_wf_destructs)
qed

text \<open>
  What a run of \<open>traceOps\<close> that returns leaves of one account: what the traces report of it, less its entry.
\<close>

lemma range_entry:
  assumes "map_order rng"
  shows "map_of (rng (run_destroyed G calls [])) a = map_of (run_destroyed G calls []) a"
    and "set (rng (run_destroyed G calls [])) = set (run_destroyed G calls [])"
proof -
  let ?m = "run_destroyed G calls []"
  have ok: "gm_ok ?m" "gm_ok (rng ?m)" by (simp_all add: map_order_gm_ok [OF assms])
  then show "map_of (rng ?m) a = map_of ?m a"
    using map_order_set [OF assms ok(1)] by (metis gm_ok_mem_iff not_Some_eq)
  show "set (rng ?m) = set ?m" by (rule map_order_set [OF assms ok(1)])
qed

lemma traceOps_Ok:
  assumes "address_laws G" and "map_order rng" and "traceOps G rng calls s = Ok ops"
  shows "ops = run_ops G s calls @ destructs (s + int (length (run_ops G s calls))) (rng (run_destroyed G calls []))"
    and "net_effect a ops = reported G calls a - (case map_of (run_destroyed G calls []) a of None \<Rightarrow> 0 | Some v \<Rightarrow> v)"
proof -
  show ops: "ops = run_ops G s calls
      @ destructs (s + int (length (run_ops G s calls))) (rng (run_destroyed G calls []))"
    using assms(3) by (simp add: traceOps_cases [OF assms(1,2)] split: option.splits)
  have "gm_ok (rng (run_destroyed G calls []))" by (simp add: map_order_gm_ok [OF assms(2)])
  then show "net_effect a ops = reported G calls a - (case map_of (run_destroyed G calls []) a of None \<Rightarrow> 0 | Some v \<Rightarrow> v)"
    by (simp add: ops net_effect_run [OF assms(1)] net_effect_destructs range_entry [OF assms(2)] split: option.split)
qed

lemma traceOps_negative:
  assumes "address_laws G" and "map_order rng" and "(a, v) \<in> set (run_destroyed G calls [])" and "v < 0"
  shows "\<exists>m. traceOps G rng calls s = Crash (LogFatal m)"
proof -
  have "find (\<lambda>e. snd e < 0) (rng (run_destroyed G calls [])) \<noteq> None"
    using assms(3,4) unfolding find_None_iff range_entry(2) [OF assms(2)] by force
  then obtain e where "find (\<lambda>e. snd e < 0) (rng (run_destroyed G calls [])) = Some e" by blast
  then show ?thesis by (simp add: traceOps_cases [OF assms(1,2)] negative_fatal_def)
qed

text \<open>The balances after the final loop.\<close>

lemma traceOps_returns:
  assumes "address_laws G" and "map_order rng" and "evm_ok G calls {} bal" and "\<forall>a. 0 \<le> bal a"
    and "\<forall>tr \<in> set calls. \<forall>a. \<not> misreported G tr a"
  shows "\<exists>ops. traceOps G rng calls s = Ok ops"
proof -
  let ?m = "run_destroyed G calls []"
  have "0 \<le> v" if "(a, v) \<in> set (rng ?m)" for a v
  proof -
    have "(a, v) \<in> set ?m" using that by (simp add: range_entry [OF assms(2)])
    then have "map_of ?m a = Some v" by (simp add: gm_ok_mem_iff)
    then have "v = ledger G calls bal a"
      using entry_run [OF assms(1,3), of a "[]"] assms(5) by (simp split: if_splits)
    then show "0 \<le> v" using ledger_nonneg [OF assms(3,4)] by simp
  qed
  then have "find (\<lambda>e. snd e < 0) (rng ?m) = None" by (rule find_None_nonneg)
  then show ?thesis by (simp add: traceOps_cases [OF assms(1,2)])
qed

lemma traceOps_balances:
  assumes "address_laws G" and "map_order rng" and "evm_ok G calls {} bal"
    and "traceOps G rng calls s = Ok ops" and "\<forall>tr \<in> set calls. \<not> misreported G tr a"
  shows "bal a + net_effect a ops = (if a \<in> destroyed G calls then 0 else ledger G calls bal a)"
  using entry_run [OF assms(1,3,5), of "[]"]
  by (simp add: traceOps_Ok(2) [OF assms(1,2,4)] ledger_reported [OF assms(1,5)])

text \<open>\<open>traceOps\<close> is a stage that may start at any index, for traces of declared types.\<close>

interpretation trace_stage: op_stage "\<lambda>(G, rng, calls) s. traceOps G rng calls s"
  "\<lambda>(G, rng, calls) s. address_laws G \<and> map_order rng
     \<and> (\<forall>tr \<in> set calls. fc_type tr \<in> set OperationTypes)"
  by unfold_locales (auto intro: traceOps_wf)

section \<open>Properties\<close>

text \<open>
  C20. The operations of a transaction's traces are well formed: indices count up from
  \<open>startIndex\<close> without gaps, a related operation is an earlier one of the same list, and every
  type and status is declared by \<open>/network/options\<close>, whatever the order in which Go ranges
  over the destroyed accounts.
\<close>

theorem traceOps_well_formed:
  assumes "address_laws G" and "map_order rng"
    and "\<forall>tr \<in> set calls. fc_type tr \<in> set OperationTypes"
    and "traceOps G rng calls s = Ok ops"
  shows "ops_wf s ops"
  using trace_stage.emit_wf [of "(G, rng, calls)" s ops] assms by simp

text \<open>
  \<open>traceOps\<close> never returns an error and never panics: the last operation exists wherever
  the code reads its index. The one way not to return is the fatal exit on a negative balance
  of a destroyed account, and it is taken exactly if such a balance is left.
\<close>

theorem traceOps_outcomes:
  assumes "address_laws G" and "map_order rng"
  shows "(\<exists>ops. traceOps G rng calls s = Ok ops)
      \<and> (\<forall>e \<in> set (run_destroyed G calls []). 0 \<le> snd e)
    \<or> (\<exists>e \<in> set (run_destroyed G calls []). snd e < 0
        \<and> traceOps G rng calls s = Crash (negative_fatal e))"
proof -
  let ?m = "run_destroyed G calls []"
  have set_eq: "set (rng ?m) = set ?m" by (rule map_order_set [OF assms(2)]) simp
  show ?thesis
  proof (cases "find (\<lambda>e. snd e < 0) (rng ?m)")
    case None
    then have "\<forall>e \<in> set (rng ?m). 0 \<le> snd e" by (auto simp: find_None_iff not_less)
    with None set_eq show ?thesis by (simp add: traceOps_cases [OF assms])
  next
    case (Some e)
    then have "e \<in> set (rng ?m)" and "snd e < 0" by (auto simp: find_Some_iff)
    with Some set_eq show ?thesis by (auto simp: traceOps_cases [OF assms])
  qed
qed

text \<open>
  C9. The operations conserve value, for all traces, misreported ones or not: apart from the \<open>DESTRUCT\<close> operations
  of the final loop, the signed amounts of all emitted operations add up to minus what accounts burned by
  self-destructing in favour of themselves, to zero if no account does; and so do those of the successful
  operations, with what was burned in traces that were not reverted.
\<close>

theorem traceOps_conserves_value:
  assumes "address_laws G" and "map_order rng"
    and "\<forall>tr \<in> set calls. fc_type tr \<noteq> DestructOpType"
    and "traceOps G rng calls s = Ok ops"
  shows "sum_list (map op_value (filter (\<lambda>p. op_type p \<noteq> DestructOpType) ops)) = - burned calls
    \<and> sum_list (map op_value (filter op_success (filter (\<lambda>p. op_type p \<noteq> DestructOpType) ops)))
        = - burned (filter (\<lambda>t. \<not> fc_revert t) calls)"
proof -
  let ?d = "destructs (s + int (length (run_ops G s calls))) (rng (run_destroyed G calls []))"
  have "filter (\<lambda>p. op_type p \<noteq> DestructOpType) (run_ops G s calls) = run_ops G s calls"
    using types_run_ops assms(3) by (metis (mono_tags, lifting) filter_True)
  moreover have "op_type p = DestructOpType" if "p \<in> set (destructs i ds)" for p i ds
    using that by (induction i ds rule: destructs.induct) (auto split: if_splits)
  ultimately have "filter (\<lambda>p. op_type p \<noteq> DestructOpType) ops = run_ops G s calls"
    by (simp add: traceOps_Ok(1) [OF assms(1,2,4)] filter_empty_conv)
  then show ?thesis by (simp add: sum_run_ops success_run_ops)
qed

text \<open>
  C2. For the traces of an execution (payments that took effect were covered, a self-destruct that took effect
  handed over all its account had, nothing was created on a destroyed account): whenever \<open>traceOps\<close> returns,
  its operations give every account the balance the EVM gave it, zero if it destroyed itself, and it returns
  unless an account is misreported. The exceptions are named account by account: the account of a self-destruct
  that was reverted, and the two parties of a \<open>CALLCODE\<close> (or another call that moves nothing) reported with a value.
\<close>

theorem traceOps_ledger:
  assumes "address_laws G" and "map_order rng"
    and "evm_ok G calls {} bal" and "\<forall>a. 0 \<le> bal a"
  shows "((\<exists>ops. traceOps G rng calls s = Ok ops) \<or> (\<exists>tr \<in> set calls. \<exists>a. misreported G tr a))
    \<and> (\<forall>ops a. traceOps G rng calls s = Ok ops \<and> (\<forall>tr \<in> set calls. \<not> misreported G tr a) \<longrightarrow>
        bal a + net_effect a ops = (if a \<in> destroyed G calls then 0 else ledger G calls bal a))"
  using traceOps_returns [OF assms] traceOps_balances [OF assms(1-3)] by blast

text \<open>
  An execution: account 1 pays 5 to account 2, account 2 destroys itself in favour of account
  3, account 3 pays 4 to the destroyed account.
\<close>

definition mk_trace :: "string \<Rightarrow> address \<Rightarrow> address \<Rightarrow> int \<Rightarrow> bool \<Rightarrow> flat_call" where
  "mk_trace ty f t v rv = \<lparr>fc_type = ty, fc_from = f, fc_to = t, fc_value = v, fc_gas_used = 0,
     fc_revert = rv, fc_error = (if rv then ''reverted'' else [])\<rparr>"

definition calls_example :: "flat_call list" where
  "calls_example = [mk_trace ''CALL'' 1 2 5 False, mk_trace ''SELFDESTRUCT'' 2 3 8 False,
     mk_trace ''CALL'' 3 2 4 False]"

definition bal_example :: "string \<Rightarrow> int" where
  "bal_example a = (if a = ''0x1'' then 9 else if a = ''0x2'' then 3 else 0)"

theorem traceOps_well_formed_witness:
  "\<exists>ops. traceOps standin rev calls_example 3 = Ok ops \<and> length ops = 7 \<and> ops_wf 3 ops"
proof -
  have "ok_with (\<lambda>ops. length ops = 7) (traceOps standin rev calls_example 3)" by code_simp
  moreover have "\<forall>tr \<in> set calls_example. fc_type tr \<in> set OperationTypes" by code_simp
  ultimately show ?thesis
    using traceOps_well_formed [of standin rev calls_example 3] by (auto simp: ok_with_iff)
qed

theorem traceOps_outcomes_witness:
  "\<exists>e \<in> set (run_destroyed standin
       [mk_trace ''SELFDESTRUCT'' 2 3 8 False, mk_trace ''CALL'' 2 3 1 False] []). snd e < 0
     \<and> traceOps standin rev [mk_trace ''SELFDESTRUCT'' 2 3 8 False, mk_trace ''CALL'' 2 3 1 False] 0
       = Crash (negative_fatal e)"
proof -
  let ?c = "[mk_trace ''SELFDESTRUCT'' 2 3 8 False, mk_trace ''CALL'' 2 3 1 False]"
  have "\<not> (\<forall>e \<in> set (run_destroyed standin ?c []). 0 \<le> snd e)" by code_simp
  then show ?thesis
    using traceOps_outcomes [OF standin_address_laws map_order_examples(2), where calls = ?c and s = 0] by blast
qed

theorem traceOps_conserves_value_witness:
  "\<exists>ops. traceOps standin rev (mk_trace ''SELFDESTRUCT'' 4 4 6 False # calls_example) 0 = Ok ops
     \<and> sum_list (map op_value (filter op_success (filter (\<lambda>p. op_type p \<noteq> DestructOpType) ops))) = - 6"
proof -
  let ?c = "mk_trace ''SELFDESTRUCT'' 4 4 6 False # calls_example"
  have "ok_with (\<lambda>ops. True) (traceOps standin rev ?c 0)" by code_simp
  moreover have "\<forall>tr \<in> set ?c. fc_type tr \<noteq> DestructOpType" by code_simp
  moreover have "burned (filter (\<lambda>t. \<not> fc_revert t) ?c) = 6" by code_simp
  ultimately show ?thesis
    using traceOps_conserves_value [of standin rev ?c 0] by (auto simp: ok_with_iff)
qed

text \<open>The same with a self-destruct of account 7 that was reverted and a \<open>CALLCODE\<close> of account 8.\<close>

definition misread_example :: "flat_call list" where
  "misread_example = mk_trace ''SELFDESTRUCT'' 7 3 2 True # mk_trace ''CALLCODE'' 8 7 1 False # calls_example"

theorem traceOps_ledger_witness:
  "\<exists>ops. traceOps standin rev misread_example 0 = Ok ops
     \<and> bal_example ''0x2'' + net_effect ''0x2'' ops = 0 \<and> bal_example ''0x3'' + net_effect ''0x3'' ops = 4"
proof -
  have ok: "evm_ok standin misread_example {} bal_example" by code_simp
  have d: "''0x2'' \<in> destroyed standin misread_example" "''0x3'' \<notin> destroyed standin misread_example" by code_simp+
  have l: "ledger standin misread_example bal_example ''0x3'' = 4" by code_simp
  have m: "\<forall>tr \<in> set misread_example. \<not> misreported standin tr ''0x2''"
    "\<forall>tr \<in> set misread_example. \<not> misreported standin tr ''0x3''" by code_simp+
  have b: "\<forall>a. 0 \<le> bal_example a" by (simp add: bal_example_def)
  have "ok_with (\<lambda>ops. True) (traceOps standin rev misread_example 0)" by code_simp
  then obtain ops where ops: "traceOps standin rev misread_example 0 = Ok ops" by (auto simp: ok_with_iff)
  from traceOps_ledger [OF standin_address_laws map_order_examples(2) ok b, of 0] ops d l m
  have "bal_example ''0x2'' + net_effect ''0x2'' ops = 0" "bal_example ''0x3'' + net_effect ''0x3'' ops = 4"
    by presburger+
  with ops show ?thesis by blast
qed

text \<open>
  C36. The code marks the account \<open>x\<close> of a reverted \<open>SELFDESTRUCT\<close> as destroyed all the same, whatever came
  before. Let \<open>n\<close> be what the calls after it pay to \<open>x\<close> less what \<open>x\<close> pays, \<open>x\<close> neither destroying itself nor
  being created again. If \<open>n\<close> is positive, a successful \<open>DESTRUCT\<close> operation takes it away although \<open>x\<close> keeps it; if
  it is negative the process exits; and in any case the operations leave \<open>x\<close> with what it had at the self-destruct.
\<close>

theorem traceOps_reverted_selfdestruct:
  assumes "address_laws G" and "map_order rng"
    and "fc_type sd = SelfDestructOpType" and "fc_revert sd" and "x = address_hex G (fc_from sd)"
    and "\<forall>tr \<in> set post. \<not> (fc_type tr = SelfDestructOpType \<and> address_hex G (fc_from tr) = x)
      \<and> \<not> (CreateType (fc_type tr) \<and> address_hex G (fc_to tr) = x)"
    and "n = reported G post x"
  shows "(n < 0 \<longrightarrow> (\<exists>m. traceOps G rng (pre @ sd # post) s = Crash (LogFatal m)))
    \<and> (\<forall>ops. traceOps G rng (pre @ sd # post) s = Ok ops \<longrightarrow> net_effect x ops = reported G pre x
        \<and> (0 < n \<longrightarrow> (\<exists>p \<in> set ops. op_type p = DestructOpType \<and> op_success p \<and> op_account p = Some x \<and> op_value p = - n)))"
proof -
  let ?calls = "pre @ sd # post" and ?m = "run_destroyed G (pre @ sd # post) []"
  have "map_of (step_destroyed G sd m) x = Some 0" for m
    by (simp add: entry_after [OF assms(1)] assms(3,5))
  from marked_run [OF assms(1,6) this] have entry: "map_of ?m x = Some n" by (simp add: assms(7))
  then have mem: "(x, n) \<in> set ?m" by (simp add: map_of_SomeD)
  have zero: "reported_change G sd x = 0" using assms(4) by (simp add: reported_change_def)
  have "\<exists>p \<in> set ops. op_type p = DestructOpType \<and> op_success p \<and> op_account p = Some x \<and> op_value p = - n"
    if "traceOps G rng ?calls s = Ok ops" and "0 < n" for ops
  proof -
    have d: "\<exists>j. destruct_op j x n \<in> set (destructs i ds)" if "(x, n) \<in> set ds" for i ds
      using that \<open>0 < n\<close> by (induction i ds rule: destructs.induct) auto
    have "(x, n) \<in> set (rng ?m)" using mem by (simp only: range_entry(2) [OF assms(2)])
    from d [OF this] obtain j where "destruct_op j x n \<in> set ops"
      unfolding traceOps_Ok(1) [OF assms(1,2) \<open>traceOps G rng ?calls s = Ok ops\<close>] by auto
    then show ?thesis by (intro bexI) simp_all
  qed
  moreover have "net_effect x ops = reported G pre x" if "traceOps G rng ?calls s = Ok ops" for ops
    using traceOps_Ok(2) [OF assms(1,2) that, of x] entry by (simp add: zero assms(7))
  moreover have "\<exists>m. traceOps G rng ?calls s = Crash (LogFatal m)" if "n < 0"
    by (rule traceOps_negative [OF assms(1,2) mem that])
  ultimately show ?thesis by blast
qed

theorem traceOps_reverted_selfdestruct_witness:
  "(\<exists>ops. traceOps standin rev [mk_trace ''SELFDESTRUCT'' 2 3 8 True, mk_trace ''CALL'' 3 2 4 False] 0 = Ok ops
     \<and> net_effect ''0x2'' ops = 0 \<and> (\<exists>p \<in> set ops. op_type p = DestructOpType \<and> op_value p = - 4))
   \<and> (\<exists>m. traceOps standin rev [mk_trace ''SELFDESTRUCT'' 2 3 8 True, mk_trace ''CALL'' 2 3 1 False] 0 = Crash (LogFatal m))"
proof
  let ?sd = "mk_trace ''SELFDESTRUCT'' 2 3 8 True"
  have sd: "fc_type ?sd = SelfDestructOpType" "fc_revert ?sd" "''0x2'' = address_hex standin (fc_from ?sd)"
    by code_simp+
  have post: "\<forall>tr \<in> set [c]. \<not> (fc_type tr = SelfDestructOpType \<and> address_hex standin (fc_from tr) = ''0x2'')
      \<and> \<not> (CreateType (fc_type tr) \<and> address_hex standin (fc_to tr) = ''0x2'')" if "fc_type c = ''CALL''" for c
    using that by (simp add: op_type_defs CreateType_def)
  have c: "fc_type (mk_trace ''CALL'' a b v False) = ''CALL''" for a b v by (simp add: mk_trace_def)
  have n: "4 = reported standin [mk_trace ''CALL'' 3 2 4 False] ''0x2''"
    "- 1 = reported standin [mk_trace ''CALL'' 2 3 1 False] ''0x2''"
    by code_simp+
  note th = traceOps_reverted_selfdestruct [OF standin_address_laws map_order_examples(2) sd post [OF c], where pre = "[]" and s = 0]
  have "ok_with (\<lambda>ops. True) (traceOps standin rev [?sd, mk_trace ''CALL'' 3 2 4 False] 0)" by code_simp
  then obtain ops where ops: "traceOps standin rev [?sd, mk_trace ''CALL'' 3 2 4 False] 0 = Ok ops"
    by (auto simp: ok_with_iff)
  with th [OF n(1)] show "\<exists>ops. traceOps standin rev [?sd, mk_trace ''CALL'' 3 2 4 False] 0 = Ok ops
     \<and> net_effect ''0x2'' ops = 0 \<and> (\<exists>p \<in> set ops. op_type p = DestructOpType \<and> op_value p = - 4)"
    by auto
  from th [OF n(2)] show "\<exists>m. traceOps standin rev [?sd, mk_trace ''CALL'' 2 3 1 False] 0 = Crash (LogFatal m)"
    by simp
qed

end
