(* ===== verification/NodeRpc.thy ===== *)
theory NodeRpc
  imports Rewards Traces
begin

text \<open>
  The client of the node (\<open>ethereum/client.go\<close>, the struct \<open>Client\<close>): single calls over
  JSON-RPC and what is fetched with them, headers, receipts, uncles and traces. The node, the
  JSON-RPC transport and the semaphore that limits concurrent traces are outside the
  repository: their operations are fields of the record \<open>node\<close> over an arbitrary state \<open>'w\<close>, so
  every call may see a different node state (a reorganisation between two calls included).
\<close>

section \<open>The client\<close>

text \<open>
  \<open>call_context\<close> is \<open>CallContext\<close>: the method, its arguments as JSON, and the JSON of the
  result, \<open>None\<close> where nothing is written to the result variable. \<open>batch_call\<close> is
  \<open>BatchCallContext\<close>: for each request its error and its reply. \<open>sem_acquire\<close> and
  \<open>sem_release\<close> are the semaphore with the weight of one trace.
\<close>

record 'w node =
  call_context :: "string \<Rightarrow> json list \<Rightarrow> ('w, gerr, json_text) io"
  batch_call :: "(string \<times> json list) list \<Rightarrow> ('w, gerr, nat \<Rightarrow> gerr option \<times> json_text) io"
  sem_acquire :: "('w, gerr, unit) io"
  sem_release :: "'w \<Rightarrow> 'w"
  graphql_query :: "string \<Rightarrow> ('w, gerr, json_text) io"

record 'w client =
  cl_p :: chain_config
  cl_tc :: json
  cl_node :: "'w node"
  cl_skip_admin :: bool
  cl_geth :: geth
  cl_sdk :: sdk
  cl_order :: "string list \<Rightarrow> string list"

text \<open>A result variable that is a pointer: nil if nothing was written or the reply is \<open>null\<close>.\<close>

definition ptr_reply :: "(json \<Rightarrow> 'a outcome) \<Rightarrow> json_text \<Rightarrow> 'a option outcome" where
  "ptr_reply dec r = ptr_value dec r"

definition call_ptr :: "'w client \<Rightarrow> (json \<Rightarrow> 'a outcome) \<Rightarrow> string \<Rightarrow> json list \<Rightarrow> ('w, gerr, 'a option) io" where
  "call_ptr ec dec m args = io_bind (call_context (cl_node ec) m args) (\<lambda>r. io_lift (ptr_reply dec r))"

text \<open>A slice of values (not pointers).\<close>

fun slice_value :: "(json \<Rightarrow> 'a outcome) \<Rightarrow> json option \<Rightarrow> 'a list outcome" where
  "slice_value dec None = Ok []"
| "slice_value dec (Some JNull) = Ok []"
| "slice_value dec (Some (JArr js)) = mapM dec js"
| "slice_value dec (Some _) = Err (json_type_error ''[]'')"

definition str_ptr :: "json \<Rightarrow> string outcome" where
  "str_ptr j = (case j of JStr s \<Rightarrow> Ok s | _ \<Rightarrow> Err (json_type_error ''string''))"

section \<open>Block numbers and headers\<close>

definition toBlockNumArg :: "geth \<Rightarrow> int option \<Rightarrow> string" where
  "toBlockNumArg G number = (case number of None \<Rightarrow> ''latest''
     | Some n \<Rightarrow> if n = - 1 then ''pending'' else encode_big G n)"

definition blockHeaderByNumber :: "'w client \<Rightarrow> int option \<Rightarrow> ('w, gerr, header) io" where
  "blockHeaderByNumber ec number =
     io_bind (call_ptr ec (header_of_json (cl_geth ec)) ''eth_getBlockByNumber''
        [JStr (toBlockNumArg (cl_geth ec) number), JBool False])
      (\<lambda>head. io_lift (case head of None \<Rightarrow> Err (not_found (cl_geth ec)) | Some h \<Rightarrow> Ok h))"

definition blockHeaderByHash :: "'w client \<Rightarrow> string \<Rightarrow> ('w, gerr, header) io" where
  "blockHeaderByHash ec h =
     (if h = [] then io_lift (Err (ErrorNew ''hash is empty''))
      else io_bind (call_ptr ec (header_of_json (cl_geth ec)) ''eth_getBlockByHash'' [JStr h, JBool False])
        (\<lambda>head. io_lift (case head of None \<Rightarrow> Err (not_found (cl_geth ec)) | Some h \<Rightarrow> Ok h)))"

section \<open>Transactions and blocks on the wire\<close>

definition rpc_transaction_of_json :: "geth \<Rightarrow> json \<Rightarrow> rpc_transaction outcome" where
  "rpc_transaction_of_json G j =
     andThen (ptr_value (tx_of_json G) (Some j)) (\<lambda>tx.
     andThen (json_struct j) (\<lambda>obj.
     andThen (ptr_value str_ptr (json_field ''blockNumber'' obj)) (\<lambda>bn.
     andThen (ptr_value (hash_of_json G) (json_field ''blockHash'' obj)) (\<lambda>bh.
     andThen (ptr_value (address_of_json G) (json_field ''from'' obj)) (\<lambda>from.
       Ok \<lparr>rp_tx = tx, rp_block_number = bn, rp_block_hash = bh, rp_from = from\<rparr>)))))"

record rpc_block =
  rbk_hash :: hash
  rbk_transactions :: "rpc_transaction list"
  rbk_uncles :: "hash list"

definition rpc_block_of_json :: "geth \<Rightarrow> json \<Rightarrow> rpc_block outcome" where
  "rpc_block_of_json G j =
     andThen (json_struct j) (\<lambda>obj.
     andThen (val_value (hash_of_json G) 0 (json_field ''hash'' obj)) (\<lambda>h.
     andThen (slice_value (rpc_transaction_of_json G) (json_field ''transactions'' obj)) (\<lambda>txs.
     andThen (slice_value (hash_of_json G) (json_field ''uncles'' obj)) (\<lambda>us.
       Ok \<lparr>rbk_hash = h, rbk_transactions = txs, rbk_uncles = us\<rparr>))))"

section \<open>Batched fetches\<close>

text \<open>The error or the decoded reply of request \<open>i\<close> of a batch.\<close>

definition batch_result ::
  "(json \<Rightarrow> 'a outcome) \<Rightarrow> (nat \<Rightarrow> gerr option \<times> json_text) \<Rightarrow> nat \<Rightarrow> 'a option outcome" where
  "batch_result dec reply i = (case reply i of
      (Some e, _) \<Rightarrow> Err e
    | (None, r) \<Rightarrow> ptr_reply dec r)"

text \<open>The uncle of index \<open>i\<close> of a batch: a nil header is an error.\<close>

definition uncle_result :: "geth \<Rightarrow> hash \<Rightarrow> (nat \<Rightarrow> gerr option \<times> json_text) \<Rightarrow> nat \<Rightarrow> header outcome" where
  "uncle_result G blockHash reply i =
     andThen (batch_result (header_of_json G) reply i) (\<lambda>u. case u of
        None \<Rightarrow> Err (ErrorNew (''got null header for uncle '' @ int_string (int i)
           @ '' of block '' @ fmt_x_hash blockHash))
      | Some h \<Rightarrow> Ok h)"

definition getUncles :: "'w client \<Rightarrow> header \<Rightarrow> rpc_block \<Rightarrow> ('w, gerr, header list) io" where
  "getUncles ec head body =
     (let G = cl_geth ec; n = length (rbk_uncles body) in
      if hd_uncle_hash head = empty_uncle_hash G \<and> 0 < length (rbk_uncles body) then
        io_lift (Err (ErrorNew ''server returned non-empty uncle list but block header indicates no uncles''))
      else if hd_uncle_hash head \<noteq> empty_uncle_hash G \<and> length (rbk_uncles body) = 0 then
        io_lift (Err (ErrorNew ''server returned empty uncle list but block header indicates uncles''))
      else if hd_tx_hash head = empty_root_hash G \<and> 0 < length (rbk_transactions body) then
        io_lift (Err (ErrorNew ''server returned non-empty transaction list but block header indicates no transactions''))
      else if hd_tx_hash head \<noteq> empty_root_hash G \<and> length (rbk_transactions body) = 0 then
        io_lift (Err (ErrorNew ''server returned empty transaction list but block header indicates transactions''))
      else if 0 < n then
        io_bind (batch_call (cl_node ec)
           (map (\<lambda>i. (''eth_getUncleByBlockHashAndIndex'',
              [JStr (hash_hex G (rbk_hash body)), JStr (encode_uint64 G (word_of_nat i))])) [0..<n]))
         (\<lambda>reply. io_lift (mapM (uncle_result G (rbk_hash body) reply) [0..<n]))
      else io_lift (Ok []))"

definition orphaned :: "geth \<Rightarrow> hash \<Rightarrow> hash \<Rightarrow> gerr" where
  "orphaned G expected got = Wrapf (Sentinel ErrBlockOrphaned)
     ('': expected block hash '' @ hash_hex G expected @ '' for transaction but got '' @ hash_hex G got)"

text \<open>
  The receipt of a transaction with hash \<open>h\<close>: it must be there and belong to the block.
\<close>

fun receipt_check :: "geth \<Rightarrow> hash \<Rightarrow> string \<Rightarrow> receipt option \<Rightarrow> receipt outcome" where
  "receipt_check G blockHash h None = Err (ErrorNew (''got empty receipt for '' @ fmt_x h))"
| "receipt_check G blockHash h (Some rc) =
     (if rc_block_hash rc \<noteq> blockHash then Err (orphaned G blockHash (rc_block_hash rc)) else Ok rc)"

definition receipt_result ::
  "geth \<Rightarrow> hash \<Rightarrow> string list \<Rightarrow> (nat \<Rightarrow> gerr option \<times> json_text) \<Rightarrow> nat \<Rightarrow> receipt outcome" where
  "receipt_result G blockHash hashes reply i =
     andThen (batch_result (receipt_of_json G) reply i) (receipt_check G blockHash (hashes ! i))"

definition getBlockReceipts ::
  "'w client \<Rightarrow> hash \<Rightarrow> rpc_transaction list \<Rightarrow> ('w, gerr, receipt list) io" where
  "getBlockReceipts ec blockHash txs =
     (let G = cl_geth ec in
      if length txs = 0 then io_lift (Ok [])
      else io_bind (io_lift (mapM (\<lambda>t. andThen (deref (rp_tx t)) (\<lambda>tx. Ok (hash_hex G (tx_hash tx)))) txs))
        (\<lambda>hashes.
        io_bind (batch_call (cl_node ec) (map (\<lambda>h. (''eth_getTransactionReceipt'', [JStr h])) hashes))
        (\<lambda>reply. io_lift (mapM (receipt_result G blockHash hashes reply) [0..<length txs]))))"

section \<open>Traces\<close>

text \<open>A raw message that is decoded later; an empty one is a syntax error.\<close>

definition getTransactionTraces :: "'w client \<Rightarrow> hash \<Rightarrow> ('w, gerr, call option \<times> json_text) io" where
  "getTransactionTraces ec transactionHash =
     io_bind (sem_acquire (cl_node ec)) (\<lambda>_.
     io_defer (sem_release (cl_node ec))
      (io_bind (call_context (cl_node ec) ''debug_traceTransaction''
          [JStr (hash_hex (cl_geth ec) transactionHash), cl_tc ec]) (\<lambda>raw.
       io_lift (andThen (json_parse raw) (\<lambda>j.
         andThen (call_ptr_of_json (cl_geth ec) j) (\<lambda>call. Ok (call, raw)))))))"

text \<open>
  \<open>rpcCall\<close> and \<open>rpcRawCall\<close>: the traces of a block, decoded and raw. An entry is a pointer
  to a struct with the pointer \<open>result\<close>.
\<close>

definition rpcCall_of_json :: "geth \<Rightarrow> json \<Rightarrow> call option outcome" where
  "rpcCall_of_json G j = andThen (json_struct j) (\<lambda>obj.
     ptr_value (call_unmarshal G) (json_field ''result'' obj))"

definition rpcRawCall_of_json :: "json \<Rightarrow> json_text outcome" where
  "rpcRawCall_of_json j = andThen (json_struct j) (\<lambda>obj. Ok (json_field ''result'' obj))"

definition getBlockTraces ::
  "'w client \<Rightarrow> hash \<Rightarrow> ('w, gerr, call option option list \<times> json_text option list) io" where
  "getBlockTraces ec blockHash =
     io_bind (sem_acquire (cl_node ec)) (\<lambda>_.
     io_defer (sem_release (cl_node ec))
      (io_bind (call_context (cl_node ec) ''debug_traceBlockByHash''
          [JStr (hash_hex (cl_geth ec) blockHash), cl_tc ec]) (\<lambda>raw.
       io_lift (andThen (json_parse raw) (\<lambda>j.
         andThen (arr_value (rpcCall_of_json (cl_geth ec)) (Some j)) (\<lambda>calls.
         andThen (arr_value rpcRawCall_of_json (Some j)) (\<lambda>rawCalls. Ok (calls, rawCalls))))))))"

section \<open>Receipt of a transaction\<close>

text \<open>
  \<open>transactionReceipt\<close> returns the pair of the receipt pointer and the error; its callers read
  the receipt before they look at the error.
\<close>

definition transactionReceipt ::
  "'w client \<Rightarrow> hash \<Rightarrow> ('w, gerr, receipt option \<times> gerr option) io" where
  "transactionReceipt ec txHash w =
     (case call_context (cl_node ec) ''eth_getTransactionReceipt''
         [JStr (hash_hex (cl_geth ec) txHash)] w of
        (Err e, w') \<Rightarrow> (Ok (None, Some e), w')
      | (Crash c, w') \<Rightarrow> (Crash c, w')
      | (Ok r, w') \<Rightarrow>
          ((case ptr_reply (receipt_of_json (cl_geth ec)) r of
             Ok None \<Rightarrow> Ok (None, Some (not_found (cl_geth ec)))
           | Ok (Some rc) \<Rightarrow> Ok (Some rc, None)
           | Err e \<Rightarrow> Ok (case r of None \<Rightarrow> None | Some j \<Rightarrow> receipt_left (cl_geth ec) j, Some e)
           | Crash c \<Rightarrow> Crash c), w'))"

section \<open>What is fetched\<close>

text \<open>The semaphore: \<open>held\<close> counts the permits taken; no other call touches them.\<close>

definition sem_law :: "('w \<Rightarrow> int) \<Rightarrow> 'w node \<Rightarrow> bool" where
  "sem_law held node \<longleftrightarrow>
     (\<forall>w. case sem_acquire node w of (Ok _, w') \<Rightarrow> held w' = held w + 1 | (_, w') \<Rightarrow> held w' = held w)
     \<and> (\<forall>w. held (sem_release node w) = held w - 1)
     \<and> (\<forall>m args. preserves held (call_context node m args))
     \<and> (\<forall>reqs. preserves held (batch_call node reqs))"

lemma sem_lawD:
  assumes "sem_law held node"
  shows "preserves held (call_context node m args)" and "preserves held (batch_call node reqs)"
    and "preserves held b \<Longrightarrow> preserves held
      (io_bind (sem_acquire node) (\<lambda>_. io_defer (sem_release node) b))"
proof -
  show "preserves held (call_context node m args)" and "preserves held (batch_call node reqs)"
    using assms by (simp_all add: sem_law_def)
  show "preserves held (io_bind (sem_acquire node) (\<lambda>_. io_defer (sem_release node) b))"
    if "preserves held b"
    by (rule preserves_bracket) (use assms that in \<open>auto simp: sem_law_def\<close>)
qed

lemma preserves_if [intro]: "preserves p m \<Longrightarrow> preserves p n \<Longrightarrow> preserves p (if c then m else n)"
  by simp

lemma node_calls_preserve:
  assumes "sem_law held (cl_node ec)"
  shows "preserves held (call_ptr ec dec m args)" and "preserves held (blockHeaderByNumber ec n)"
    and "preserves held (blockHeaderByHash ec h)" and "preserves held (getUncles ec head body)"
    and "preserves held (getBlockReceipts ec bh txs)" and "preserves held (getTransactionTraces ec th)"
    and "preserves held (getBlockTraces ec bh)" and "preserves held (transactionReceipt ec th)"
proof -
  note c = sem_lawD [OF assms]
  show 1: "preserves held (call_ptr ec dec m args)" for dec m args
    unfolding call_ptr_def by (rule preserves_bind [OF c(1)]) simp
  show "preserves held (blockHeaderByNumber ec n)"
    unfolding blockHeaderByNumber_def by (rule preserves_bind [OF 1]) simp
  show "preserves held (blockHeaderByHash ec h)"
    unfolding blockHeaderByHash_def by (rule preserves_if, simp, rule preserves_bind [OF 1]) simp
  have u: "preserves held (io_bind (batch_call (cl_node ec) reqs) (\<lambda>r. io_lift (f r)))" for reqs f
    by (rule preserves_bind [OF c(2)]) simp
  show "preserves held (getUncles ec head body)"
    unfolding getUncles_def Let_def by (intro preserves_if u preserves_lift)
  show "preserves held (getBlockReceipts ec bh txs)"
    unfolding getBlockReceipts_def Let_def
    by (intro preserves_if preserves_lift preserves_bind) (rule c(2))
  show "preserves held (getTransactionTraces ec th)"
    unfolding getTransactionTraces_def by (rule c(3), rule preserves_bind [OF c(1)]) simp
  show "preserves held (getBlockTraces ec bh)"
    unfolding getBlockTraces_def by (rule c(3), rule preserves_bind [OF c(1)]) simp
  show "preserves held (transactionReceipt ec th)"
    unfolding preserves_def
  proof
    fix w
    from c(1) have "held (snd (call_context (cl_node ec) ''eth_getTransactionReceipt''
        [JStr (hash_hex (cl_geth ec) th)] w)) = held w"
      unfolding preserves_def by blast
    then show "held (snd (transactionReceipt ec th w)) = held w"
      by (auto simp: transactionReceipt_def split: prod.splits result.splits option.splits)
  qed
qed

text \<open>A concrete node whose state is the number of permits held, and a client on it.\<close>

definition mock_block :: json where
  "mock_block = JObj [(''hash'', JStr ''0x7''), (''uncles'', JArr []),
     (''transactions'', JArr [JObj [(''blockHash'', JStr ''0x7''), (''from'', JStr ''0x1'')]])]"

definition mock_trace :: json where
  "mock_trace = JObj [(''type'', JStr ''CALL''), (''from'', JStr ''0x1''), (''to'', JStr ''0x5''),
     (''value'', JStr ''0x1'')]"

definition mock_call :: "string \<Rightarrow> json_text" where
  "mock_call m =
     (if m = ''eth_getBlockByNumber'' \<or> m = ''eth_getBlockByHash'' then Some mock_block
      else if m = ''debug_traceBlockByHash'' then Some (JArr [JObj [(''result'', mock_trace)]])
      else if m = ''debug_traceTransaction'' then Some mock_trace
      else if m = ''eth_getTransactionByHash''
        then Some (JObj [(''blockHash'', JStr ''0x7''), (''from'', JStr ''0x1'')])
      else None)"

definition mock_node :: "int node" where
  "mock_node = \<lparr>call_context = (\<lambda>m args held. (Ok (mock_call m), held)),
     batch_call = (\<lambda>reqs held. (Ok (\<lambda>i. (None, Some (JObj []))), held)),
     sem_acquire = (\<lambda>held. (Ok (), held + 1)), sem_release = (\<lambda>held. held - 1),
     graphql_query = (\<lambda>q held. (Ok None, held))\<rparr>"

definition mock_client :: "int client" where
  "mock_client = \<lparr>cl_p = mainnet_like, cl_tc = JObj [], cl_node = mock_node, cl_skip_admin = False,
     cl_geth = standin, cl_sdk = standin_sdk, cl_order = rev\<rparr>"

lemma mock_sem_law: "sem_law (\<lambda>held. held) (cl_node mock_client)"
  by (simp add: sem_law_def mock_client_def mock_node_def preserves_def)

lemma mock_client_simps [simp]:
  "cl_geth mock_client = standin" "cl_order mock_client = rev"
  by (simp_all add: mock_client_def)

section \<open>Properties\<close>

text \<open>
  C17. Receipts are all or nothing: when the fetch succeeds there is one receipt for every
  transaction, in order, and every one of them belongs to the block that was asked for. If the
  node answers with the receipts \<open>rcs\<close> and one of them belongs to another block, the fetch fails
  with an error that wraps \<open>ErrBlockOrphaned\<close>.
\<close>

theorem getBlockReceipts_same_block:
  assumes "\<forall>t \<in> set txs. rp_tx t \<noteq> None" and "length rcs = length txs"
    and "batch_call (cl_node ec) (map (\<lambda>t. (''eth_getTransactionReceipt'',
        [JStr (hash_hex (cl_geth ec) (tx_hash (the (rp_tx t))))])) txs) w = (Ok reply, w')"
    and "\<forall>i < length txs. batch_result (receipt_of_json (cl_geth ec)) reply i = Ok (Some (rcs ! i))"
    and "txs \<noteq> []"
  shows "if \<forall>rc \<in> set rcs. rc_block_hash rc = h then getBlockReceipts ec h txs w = (Ok rcs, w')
    else \<exists>e. getBlockReceipts ec h txs w = (Err e, w') \<and> errors_is e ErrBlockOrphaned"
proof -
  let ?G = "cl_geth ec" and ?n = "length txs"
  let ?hash = "\<lambda>t. hash_hex ?G (tx_hash (the (rp_tx t)))"
  have 1: "mapM (\<lambda>t. andThen (deref (rp_tx t)) (\<lambda>tx. Ok (hash_hex ?G (tx_hash tx)))) txs = Ok (map ?hash txs)"
    using assms(1) by (intro mapM_total) auto
  define f where "f = receipt_result ?G h (map ?hash txs) reply"
  have 2: "getBlockReceipts ec h txs w = (mapM f [0..<?n], w')"
    unfolding getBlockReceipts_def Let_def 1 f_def
    using assms(3,5) by (simp add: io_bind_step(1) o_def io_lift_def)
  have f: "f i = (if rc_block_hash (rcs ! i) = h then Ok (rcs ! i)
      else Err (orphaned ?G h (rc_block_hash (rcs ! i))))" if "i \<in> set [0..<?n]" for i
    using assms(4) that by (simp add: f_def receipt_result_def)
  note check = mapM_check [where f = f, OF f]
  show ?thesis
  proof (cases "\<forall>rc \<in> set rcs. rc_block_hash rc = h")
    case True
    then have "mapM f [0..<?n] = Ok (map (\<lambda>i. rcs ! i) [0..<?n])"
      using assms(2) by (intro check(1)) simp_all
    with True show ?thesis
      by (simp add: 2 map_nth [of rcs, unfolded assms(2)])
  next
    case False
    then have "\<exists>i \<in> set [0..<?n]. rc_block_hash (rcs ! i) \<noteq> h"
      using assms(2) by (fastforce simp: in_set_conv_nth)
    then obtain i where "mapM f [0..<?n] = Err (orphaned ?G h (rc_block_hash (rcs ! i)))"
      using check(2) by blast
    with False show ?thesis by (simp add: 2 orphaned_def)
  qed
qed

theorem getBlockReceipts_same_block_witness:
  "\<exists>e. getBlockReceipts mock_client 8 [\<lparr>rp_tx = Some tx_example, rp_block_number = None,
      rp_block_hash = None, rp_from = None\<rparr>] 0 = (Err e, 0) \<and> errors_is e ErrBlockOrphaned"
proof -
  let ?txs = "[\<lparr>rp_tx = Some tx_example, rp_block_number = None, rp_block_hash = None, rp_from = None\<rparr>]"
  let ?rc = "\<lparr>rc_block_hash = 7, rc_gas_used = 2, rc_marshal = Ok (JObj [])\<rparr>"
  have "batch_result (receipt_of_json standin) (\<lambda>i. (None, Some (JObj []))) i = Ok (Some ?rc)" for i
    by (simp add: batch_result_def ptr_reply_def ptr_value_def standin_def)
  then show ?thesis
    using getBlockReceipts_same_block [where ec = mock_client and txs = ?txs and rcs = "[?rc]" and w = 0
        and w' = 0 and h = 8 and reply = "\<lambda>i. (None, Some (JObj []))"]
    by (simp add: mock_client_def mock_node_def)
qed

text \<open>
  Uncles that are returned are consistent with the header: there is one for every uncle hash
  of the block, and the block has uncles, and transactions, exactly if the header's hashes say
  so.
\<close>

theorem getUncles_consistent:
  assumes "getUncles ec head body w = (Ok us, w')"
  shows "length us = length (rbk_uncles body)
    \<and> (us = [] \<longleftrightarrow> hd_uncle_hash head = empty_uncle_hash (cl_geth ec))
    \<and> (rbk_transactions body = [] \<longleftrightarrow> hd_tx_hash head = empty_root_hash (cl_geth ec))"
proof -
  note u = assms [unfolded getUncles_def Let_def]
  have h: "hd_uncle_hash head = empty_uncle_hash (cl_geth ec) \<longleftrightarrow> rbk_uncles body = []"
    "rbk_transactions body = [] \<longleftrightarrow> hd_tx_hash head = empty_root_hash (cl_geth ec)"
    using u by (auto split: if_splits)
  have len: "length us = length (rbk_uncles body)"
  proof (cases "rbk_uncles body = []")
    case True
    with u show ?thesis by (simp split: if_splits)
  next
    case False
    with u have "length us = length [0..<length (rbk_uncles body)]"
      by (simp only: split: if_splits) (auto dest!: io_bind_mapM_length [where f = "uncle_result (cl_geth ec) (rbk_hash body)"])
    then show ?thesis by simp
  qed
  with h show ?thesis by (metis length_0_conv)
qed

theorem getUncles_consistent_witness:
  "\<exists>us. getUncles mock_client (header_example\<lparr>hd_uncle_hash := 4\<rparr>)
      \<lparr>rbk_hash = 7, rbk_transactions = [], rbk_uncles = [70, 71]\<rparr> 0 = (Ok us, 0) \<and> length us = 2"
proof -
  let ?b = "\<lparr>rbk_hash = 7, rbk_transactions = [], rbk_uncles = [70, 71]\<rparr>"
  have "header_of_json standin (JObj []) = Ok (header_example\<lparr>hd_parent_hash := 6, hd_number := 0, hd_base_fee := None\<rparr>)"
    by (simp add: standin_def header_example_def json_field_def)
  then have "batch_result (header_of_json standin) (\<lambda>i. (None, Some (JObj []))) i =
      Ok (Some (header_example\<lparr>hd_parent_hash := 6, hd_number := 0, hd_base_fee := None\<rparr>))" for i
    by (simp add: batch_result_def ptr_reply_def ptr_value_def)
  moreover have "empty_uncle_hash standin = 1" "empty_root_hash standin = 2"
    by (simp_all add: standin_def)
  ultimately have "\<exists>us. getUncles mock_client (header_example\<lparr>hd_uncle_hash := 4\<rparr>) ?b 0 = (Ok us, 0)"
    by (simp add: getUncles_def Let_def io_bind_def io_lift_def mock_client_def mock_node_def
        header_example_def upt_rec uncle_result_def)
  then obtain us where "getUncles mock_client (header_example\<lparr>hd_uncle_hash := 4\<rparr>) ?b 0 = (Ok us, 0)" ..
  with getUncles_consistent [OF this] show ?thesis by simp
qed

end
