(* ===== verification/Blocks.thy ===== *)
theory Blocks
  imports NodeRpc
begin

text \<open>
  Blocks and transactions (\<open>ethereum/client.go\<close>): \<open>getBlock\<close> collects a block with its
  receipts, uncles and traces, \<open>populateTransaction\<close> turns a loaded transaction into a Rosetta
  transaction with its fee and trace operations, and \<open>Block\<close> and \<open>Transaction\<close> are the two
  operations of the client that the block API serves.
\<close>

section \<open>Loading a block\<close>

text \<open>A block of go-ethereum: its header with the transactions and uncles given to \<open>WithBody\<close>.\<close>

record eth_block =
  bk_header :: header
  bk_transactions :: "eth_tx option list"
  bk_uncles :: "header list"

text \<open>
  The body of the loop of \<open>getBlock\<close> for transaction \<open>i\<close>: the receipt and, except at genesis,
  the trace with the same index.
\<close>

definition load_tx ::
  "geth \<Rightarrow> header \<Rightarrow> receipt list \<Rightarrow> bool \<Rightarrow> call option option list \<Rightarrow> json_text option list
     \<Rightarrow> nat \<times> rpc_transaction \<Rightarrow> loaded_transaction outcome" where
  "load_tx G head receipts addTraces traces rawTraces = (\<lambda>(i, tx).
     andThen (index receipts i) (\<lambda>receipt.
     andThen (deref (rp_tx tx)) (\<lambda>etx.
     andThen (calculateGas G etx receipt head) (\<lambda>(feeAmount, feeBurned).
     andThen (MustChecksum G (address_hex G (hd_coinbase head))) (\<lambda>miner.
     let loaded = (LoadedTransaction tx)\<lparr>lt_transaction := rp_tx tx, lt_fee_amount := Some feeAmount,
           lt_fee_burned := feeBurned, lt_miner := miner, lt_receipt := Some receipt\<rparr>
     in if \<not> addTraces then Ok loaded
        else andThen (index traces i) (\<lambda>pt. andThen (deref pt) (\<lambda>trace.
             andThen (index rawTraces i) (\<lambda>pr. andThen (deref pr) (\<lambda>raw.
               Ok (loaded\<lparr>lt_trace := trace, lt_raw_trace := raw\<rparr>))))))))))"

text \<open>\<open>getBlock\<close> after the fetch, on the document \<open>j\<close>.\<close>

definition load_block :: "'w client \<Rightarrow> json \<Rightarrow> ('w, gerr, eth_block \<times> loaded_transaction list) io" where
  "load_block ec j =
     (let G = cl_geth ec in
      io_bind (io_lift (header_of_json G j)) (\<lambda>head.
      io_bind (io_lift (rpc_block_of_json G j)) (\<lambda>body.
      io_bind (io_mapErr (\<lambda>e. Wrapf e '': unable to get uncles'') (getUncles ec head body)) (\<lambda>uncles.
      io_bind (io_mapErr (\<lambda>e. Wrapf e ('': could not get receipts for '' @ fmt_x_hash (rbk_hash body)))
        (getBlockReceipts ec (rbk_hash body) (rbk_transactions body))) (\<lambda>receipts.
      let addTraces = (wrap64 (hd_number head) \<noteq> GenesisBlockIndex) in
      io_bind (if addTraces
        then io_mapErr (\<lambda>e. Wrapf e ('': could not get traces for '' @ fmt_x_hash (rbk_hash body)))
               (getBlockTraces ec (rbk_hash body))
        else io_lift (Ok ([], []))) (\<lambda>(traces, rawTraces).
      io_lift (andThen (mapM (load_tx G head receipts addTraces traces rawTraces)
          (enumerate 0 (rbk_transactions body))) (\<lambda>loadedTxs.
        Ok (\<lparr>bk_header = head, bk_transactions = map rp_tx (rbk_transactions body),
             bk_uncles = uncles\<rparr>, loadedTxs)))))))))"

definition getBlock ::
  "'w client \<Rightarrow> string \<Rightarrow> json list \<Rightarrow> ('w, gerr, eth_block \<times> loaded_transaction list) io" where
  "getBlock ec blockMethod args =
     io_bind (io_mapErr (\<lambda>e. Wrapf e '': block fetch failed'')
        (call_context (cl_node ec) blockMethod args)) (\<lambda>raw.
      case raw of None \<Rightarrow> io_lift (Err (not_found (cl_geth ec))) | Some j \<Rightarrow> load_block ec j)"

section \<open>Populating transactions\<close>

definition populateTransaction :: "'w client \<Rightarrow> loaded_transaction \<Rightarrow> rosetta_transaction outcome" where
  "populateTransaction ec tx =
     (let G = cl_geth ec in
      andThen (feeOps G tx) (\<lambda>ops.
      andThen (deref (lt_trace tx)) (\<lambda>trace.
      andThen (flattenTraces trace []) (\<lambda>traces.
      andThen (traceOps G (range_entries (cl_order ec)) traces (int (length ops))) (\<lambda>trOps.
      andThen (deref (lt_receipt tx)) (\<lambda>receipt.
      andThen (rc_marshal receipt) (\<lambda>receiptBytes.
      andThen (json_map_value receiptBytes) (\<lambda>receiptMap.
      andThen (json_parse (lt_raw_trace tx)) (\<lambda>rawTrace.
      andThen (json_map_value rawTrace) (\<lambda>traceMap.
      andThen (deref (lt_transaction tx)) (\<lambda>etx.
        Ok \<lparr>rt_hash = hash_hex G (tx_hash etx), rt_operations = ops @ trOps,
            rt_metadata = [(''gas_limit'', JStr (encode_uint64 G (tx_gas etx))),
              (''gas_price'', JStr (encode_big G (tx_gas_price etx))),
              (''receipt'', JObj receiptMap), (''trace'', JObj traceMap)]\<rparr>)))))))))))"

text \<open>\<open>fmt.Errorf("%w: cannot parse %s", err, tx.Transaction.Hash().Hex())\<close>.\<close>

definition cannot_parse :: "geth \<Rightarrow> loaded_transaction \<Rightarrow> 'a outcome \<Rightarrow> 'a outcome" where
  "cannot_parse G tx r = (case r of
      Err e \<Rightarrow> andThen (deref (lt_transaction tx))
        (\<lambda>etx. Err (Wrapf e ('': cannot parse '' @ hash_hex G (tx_hash etx))))
    | r' \<Rightarrow> r')"

text \<open>
  The slice \<open>transactions\<close> has room for the reward transaction and the transactions of the
  block; its elements start as nil pointers.
\<close>

definition populate_step ::
  "'w client \<Rightarrow> nat \<times> loaded_transaction \<Rightarrow> rosetta_transaction option list
     \<Rightarrow> rosetta_transaction option list outcome" where
  "populate_step ec = (\<lambda>(i, tx) transactions.
     andThen (cannot_parse (cl_geth ec) tx (populateTransaction ec tx)) (\<lambda>transaction.
       if i + 1 < length transactions then Ok (transactions[i + 1 := Some transaction])
       else Crash IndexOutOfRange))"

definition populateTransactions ::
  "'w client \<Rightarrow> block_identifier \<Rightarrow> eth_block \<Rightarrow> loaded_transaction list
     \<Rightarrow> rosetta_transaction option list outcome" where
  "populateTransactions ec blockIdentifier block loadedTransactions =
     andThen (blockRewardTransaction (cl_geth ec) (cl_p ec) blockIdentifier
         (address_hex (cl_geth ec) (hd_coinbase (bk_header block))) (bk_uncles block)) (\<lambda>reward.
       foldM (populate_step ec) (enumerate 0 loadedTransactions)
         (Some reward # replicate (length (bk_transactions block)) None))"

section \<open>Blocks\<close>

definition convertTime :: "uint64 \<Rightarrow> int" where
  "convertTime time = wrap64 (wrap64 (uint time) * 1000)"

definition getParsedBlock :: "'w client \<Rightarrow> string \<Rightarrow> json list \<Rightarrow> ('w, gerr, rosetta_block) io" where
  "getParsedBlock ec blockMethod args =
     (let G = cl_geth ec in
      io_bind (io_mapErr (\<lambda>e. Wrapf e '': could not get block'') (getBlock ec blockMethod args))
       (\<lambda>(block, loadedTransactions).
        let head = bk_header block;
            blockIdentifier = \<lparr>bi_hash = hash_hex G (hd_hash head), bi_index = wrap64 (hd_number head)\<rparr>;
            parentBlockIdentifier = (if bi_index blockIdentifier \<noteq> GenesisBlockIndex
              then \<lparr>bi_hash = hash_hex G (hd_parent_hash head),
                    bi_index = wrap64 (bi_index blockIdentifier - 1)\<rparr>
              else blockIdentifier)
        in io_lift (andThen (populateTransactions ec blockIdentifier block loadedTransactions)
            (\<lambda>txs. Ok \<lparr>rb_identifier = blockIdentifier, rb_parent = parentBlockIdentifier,
               rb_timestamp = convertTime (hd_time head), rb_transactions = txs\<rparr>))))"

definition Block :: "'w client \<Rightarrow> partial_block_identifier option \<Rightarrow> ('w, gerr, rosetta_block) io" where
  "Block ec blockIdentifier =
     (let latest = getParsedBlock ec ''eth_getBlockByNumber'' [JStr (toBlockNumArg (cl_geth ec) None), JBool True]
      in case blockIdentifier of None \<Rightarrow> latest
       | Some b \<Rightarrow> (case pb_hash b of
             Some h \<Rightarrow> getParsedBlock ec ''eth_getBlockByHash'' [JStr h, JBool True]
           | None \<Rightarrow> (case pb_index b of
               Some i \<Rightarrow> getParsedBlock ec ''eth_getBlockByNumber''
                 [JStr (toBlockNumArg (cl_geth ec) (Some i)), JBool True]
             | None \<Rightarrow> latest)))"

section \<open>A single transaction\<close>

text \<open>
  The check of the receipt: the receipt and the block hash of the transaction are dereferenced
  before the error of the receipt fetch is looked at.
\<close>

definition check_receipt ::
  "geth \<Rightarrow> rpc_transaction \<Rightarrow> hash \<Rightarrow> receipt option \<times> gerr option \<Rightarrow> receipt outcome" where
  "check_receipt G body h = (\<lambda>(receipt, err).
     andThen (deref receipt) (\<lambda>rc.
     andThen (deref (rp_block_hash body)) (\<lambda>blockHash.
       if rc_block_hash rc \<noteq> blockHash then Err (orphaned G blockHash (rc_block_hash rc))
       else case err of
         Some e \<Rightarrow> Err (Wrapf e ('': could not get receipt for '' @ fmt_x_hash h))
       | None \<Rightarrow> Ok rc)))"

definition Transaction ::
  "'w client \<Rightarrow> block_identifier \<Rightarrow> string \<Rightarrow> ('w, gerr, rosetta_transaction) io" where
  "Transaction ec blockIdentifier transactionHash =
     (let G = cl_geth ec in
      if transactionHash = [] then io_lift (Err (ErrorNew ''transaction hash is required''))
      else io_bind (io_mapErr (\<lambda>e. Wrapf e '': transaction fetch failed'')
        (call_context (cl_node ec) ''eth_getTransactionByHash'' [JStr transactionHash])) (\<lambda>raw.
      case raw of None \<Rightarrow> io_lift (Err (not_found G)) | Some j \<Rightarrow>
      io_bind (io_lift (rpc_transaction_of_json G j)) (\<lambda>body.
      io_bind (io_mapErr (\<lambda>e. Wrapf e ('': could not get block header for '' @ fmt_x (bi_hash blockIdentifier)))
        (if bi_hash blockIdentifier \<noteq> [] then blockHeaderByHash ec (bi_hash blockIdentifier)
         else blockHeaderByNumber ec (Some (bi_index blockIdentifier)))) (\<lambda>header.
      io_bind (io_lift (deref (rp_tx body))) (\<lambda>etx.
      io_bind (transactionReceipt ec (tx_hash etx)) (\<lambda>fetched.
      io_bind (io_lift (check_receipt G body (tx_hash etx) fetched)) (\<lambda>receipt.
      io_bind (if wrap64 (hd_number header) \<noteq> GenesisBlockIndex
        then io_bind (io_mapErr (\<lambda>e. Wrapf e ('': could not get traces for '' @ fmt_x_hash (tx_hash etx)))
                 (getTransactionTraces ec (tx_hash etx))) (\<lambda>tr. io_lift (Ok (Some tr)))
        else io_lift (Ok None)) (\<lambda>traces.
      io_lift (
        andThen (calculateGas G etx receipt header) (\<lambda>(feeAmount, feeBurned).
        andThen (MustChecksum G (address_hex G (hd_coinbase header))) (\<lambda>miner.
        let loaded = (LoadedTransaction body)\<lparr>lt_transaction := rp_tx body,
              lt_fee_amount := Some feeAmount, lt_fee_burned := feeBurned, lt_miner := miner,
              lt_receipt := Some receipt\<rparr>;
            loadedTx = (case traces of None \<Rightarrow> loaded
              | Some (trace, raw) \<Rightarrow> loaded\<lparr>lt_trace := trace, lt_raw_trace := raw\<rparr>)
        in cannot_parse G loadedTx (populateTransaction ec loadedTx))))))))))))"

section \<open>The operations of a populated transaction\<close>

text \<open>Every call of the tree has a type the API declares.\<close>

fun call_declared :: "call \<Rightarrow> bool" where
  "call_declared (Call ty f t v g r e cs) \<longleftrightarrow> ty \<in> set OperationTypes
     \<and> (\<forall>c \<in> set cs. case c of None \<Rightarrow> True | Some d \<Rightarrow> call_declared d)"

lemma inherit_declared:
  "call_declared d \<Longrightarrow> x \<in> set (inherit rv er d) \<Longrightarrow> fc_type x \<in> set OperationTypes"
proof (induction rv er d arbitrary: x rule: inherit.induct)
  case (1 rv er ty f t v g r e cs)
  then consider "fc_type x = ty" | d where "Some d \<in> set cs"
      "x \<in> set (inherit (rv \<or> r) (if rv \<and> e = [] then er else e) d)"
    by (auto simp: Let_def split: option.splits)
  then show ?case
    using "1.IH" "1.prems"(1) by cases auto
qed

lemma flatten_declared:
  assumes "call_declared d" and "flattenTraces d [] = Ok fs"
  shows "\<forall>x \<in> set fs. fc_type x \<in> set OperationTypes"
proof -
  have "fs = inherit False [] d"
    using assms(2) flatten_eq(1) [of "[]" d] by (simp split: if_splits)
  with assms(1) show ?thesis by (auto dest: inherit_declared)
qed

lemma populate_wf:
  assumes "address_laws (cl_geth ec)" and "key_order (cl_order ec)"
    and "\<And>d. lt_trace tx = Some d \<Longrightarrow> call_declared d"
    and "populateTransaction ec tx = Ok t"
  shows "ops_wf 0 (rt_operations t)"
proof -
  from assms(4) obtain ops d fs trs where
    ops: "feeOps (cl_geth ec) tx = Ok ops" and d: "lt_trace tx = Some d" and
    fs: "flattenTraces d [] = Ok fs" and
    trs: "traceOps (cl_geth ec) (range_entries (cl_order ec)) fs (int (length ops)) = Ok trs" and
    t: "rt_operations t = ops @ trs"
    by (auto simp: populateTransaction_def Let_def)
  have "ops_wf 0 ops" using ops by (rule feeOps_wf)
  then have "ops_wf 0 (ops @ trs)"
    using trace_stage.stage_after [of ops "(cl_geth ec, range_entries (cl_order ec), fs)" trs]
      trs assms(1,2) flatten_declared [OF assms(3) [OF d] fs] by simp
  with t show ?thesis by simp
qed

section \<open>Inversion of the loading steps\<close>

lemma load_tx_Ok:
  assumes "load_tx G head receipts addTraces traces rawTraces (i, tx) = Ok lt"
  shows "i < length receipts" and "lt_receipt lt = Some (receipts ! i)"
    and "lt_transaction lt = rp_tx tx" and "rp_tx tx \<noteq> None"
    and "lt_trace lt = Some d \<Longrightarrow> i < length traces \<and> traces ! i = Some (Some d)"
  using assms
  by (auto simp: load_tx_def Let_def LoadedTransaction_def index_Ok_iff split: prod.splits if_splits)

lemma mapM_enumerate_nth:
  assumes "mapM f (enumerate 0 xs) = Ok ys" and "i < length xs"
  shows "f (i, xs ! i) = Ok (ys ! i)"
proof -
  have "i < length (enumerate 0 xs)" using assms(2) by simp
  from mapM_Ok_nth [OF assms(1) this] show ?thesis using assms(2) by (simp add: nth_enumerate_eq)
qed

lemma load_block_Ok:
  assumes "load_block ec j w = (Ok (block, loaded), w')"
  shows "\<exists>body receipts traces rawTraces w2 w3.
    header_of_json (cl_geth ec) j = Ok (bk_header block)
    \<and> rpc_block_of_json (cl_geth ec) j = Ok body
    \<and> getUncles ec (bk_header block) body w = (Ok (bk_uncles block), w2)
    \<and> getBlockReceipts ec (rbk_hash body) (rbk_transactions body) w2 = (Ok receipts, w3)
    \<and> bk_transactions block = map rp_tx (rbk_transactions body)
    \<and> mapM (load_tx (cl_geth ec) (bk_header block) receipts
        (wrap64 (hd_number (bk_header block)) \<noteq> GenesisBlockIndex) traces rawTraces)
       (enumerate 0 (rbk_transactions body)) = Ok loaded
    \<and> (if wrap64 (hd_number (bk_header block)) \<noteq> GenesisBlockIndex
       then getBlockTraces ec (rbk_hash body) w3 = (Ok (traces, rawTraces), w')
       else traces = [] \<and> rawTraces = [] \<and> w' = w3)"
  using assms unfolding load_block_def Let_def
proof (elim io_bindE, goal_cases)
  case (1 head wa body wb uncles w2 receipts w3 tr w4)
  obtain traces rawTraces where tr: "tr = (traces, rawTraces)" by (cases tr)
  from 1(6) have loaded: "mapM (load_tx (cl_geth ec) head receipts
      (wrap64 (hd_number head) \<noteq> GenesisBlockIndex) traces rawTraces)
      (enumerate 0 (rbk_transactions body)) = Ok loaded"
    and block: "block = \<lparr>bk_header = head, bk_transactions = map rp_tx (rbk_transactions body),
      bk_uncles = uncles\<rparr>" and w': "w' = w4"
    by (simp_all add: tr)
  from 1(1,2) have w: "wa = w" "wb = w" and dec: "header_of_json (cl_geth ec) j = Ok head"
      "rpc_block_of_json (cl_geth ec) j = Ok body"
    by simp_all
  have "if wrap64 (hd_number head) \<noteq> GenesisBlockIndex
      then getBlockTraces ec (rbk_hash body) w3 = (Ok (traces, rawTraces), w')
      else traces = [] \<and> rawTraces = [] \<and> w' = w3"
    using 1(5) by (simp add: tr w' split: if_splits)
  then show ?case
    using 1(3,4) dec loaded by (intro exI) (simp add: block w)
qed

lemma getBlock_Ok:
  assumes "getBlock ec m args w = (Ok r, w')"
  shows "\<exists>j w1. call_context (cl_node ec) m args w = (Ok (Some j), w1) \<and> load_block ec j w1 = (Ok r, w')"
  using assms by (auto simp: getBlock_def io_bind_Ok_iff split: option.splits)

section \<open>The transactions of a block\<close>

lemma cannot_parse_Ok [simp]: "cannot_parse G tx r = Ok t \<longleftrightarrow> r = Ok t"
  by (cases r) (auto simp: cannot_parse_def)

lemma populate_fold:
  assumes "foldM (populate_step ec) (enumerate n ls) (map Some pre @ replicate k None) = Ok res"
    and "length pre = Suc n"
  shows "length ls \<le> k \<and> (\<exists>ts. mapM (populateTransaction ec) ls = Ok ts
    \<and> res = map Some (pre @ ts) @ replicate (k - length ls) None)"
  using assms
proof (induction ls arbitrary: n pre k)
  case (Cons l ls)
  then obtain t where t: "populateTransaction ec l = Ok t" and k: "0 < k" and
    rest: "foldM (populate_step ec) (enumerate (Suc n) ls)
      ((map Some pre @ replicate k None)[n + 1 := Some t]) = Ok res"
    by (auto simp: populate_step_def split: if_splits)
  from k obtain k' where k': "k = Suc k'" by (cases k) simp_all
  have "(map Some pre @ replicate k None)[n + 1 := Some t] = map Some (pre @ [t]) @ replicate k' None"
    using Cons.prems(2) by (simp add: k' list_update_append)
  with rest have "foldM (populate_step ec) (enumerate (Suc n) ls)
      (map Some (pre @ [t]) @ replicate k' None) = Ok res" by (simp only:)
  from Cons.IH [OF this] Cons.prems(2) t show ?case by (auto simp: k')
qed simp

lemma populateTransactions_Ok:
  assumes "populateTransactions ec bid block loaded = Ok txs"
    and "length loaded = length (bk_transactions block)"
  shows "\<exists>reward ts. blockRewardTransaction (cl_geth ec) (cl_p ec) bid
      (address_hex (cl_geth ec) (hd_coinbase (bk_header block))) (bk_uncles block) = Ok reward
    \<and> mapM (populateTransaction ec) loaded = Ok ts \<and> txs = map Some (reward # ts)"
proof -
  from assms(1) obtain reward where
    1: "blockRewardTransaction (cl_geth ec) (cl_p ec) bid
      (address_hex (cl_geth ec) (hd_coinbase (bk_header block))) (bk_uncles block) = Ok reward"
    and f: "foldM (populate_step ec) (enumerate 0 loaded)
      (map Some [reward] @ replicate (length (bk_transactions block)) None) = Ok txs"
    by (auto simp: populateTransactions_def)
  from populate_fold [OF f] 1 assms(2) show ?thesis by auto
qed

text \<open>What the node's tracer guarantees: the calls it reports have types the API declares.\<close>

definition tracer_law :: "'w client \<Rightarrow> bool" where
  "tracer_law ec \<longleftrightarrow> (\<forall>h w calls rawCalls w' c. getBlockTraces ec h w = (Ok (calls, rawCalls), w') \<longrightarrow>
     Some (Some c) \<in> set calls \<longrightarrow> call_declared c)"

lemma getParsedBlock_Ok:
  assumes "getParsedBlock ec m args w = (Ok b, w')"
  shows "\<exists>block loaded. getBlock ec m args w = (Ok (block, loaded), w')
    \<and> populateTransactions ec (rb_identifier b) block loaded = Ok (rb_transactions b)
    \<and> rb_identifier b = \<lparr>bi_hash = hash_hex (cl_geth ec) (hd_hash (bk_header block)),
          bi_index = wrap64 (hd_number (bk_header block))\<rparr>
    \<and> rb_parent b = (if wrap64 (hd_number (bk_header block)) \<noteq> 0
          then \<lparr>bi_hash = hash_hex (cl_geth ec) (hd_parent_hash (bk_header block)),
                bi_index = wrap64 (wrap64 (hd_number (bk_header block)) - 1)\<rparr>
          else rb_identifier b)
    \<and> rb_timestamp b = convertTime (hd_time (bk_header block))"
  using assms by (auto simp: getParsedBlock_def Let_def io_bind_Ok_iff GenesisBlockIndex_def split: prod.splits)

lemma getBlock_loaded:
  assumes "getBlock ec m args w = (Ok (block, loaded), w')"
  shows "length loaded = length (bk_transactions block)"
    and "tracer_law ec \<Longrightarrow> l \<in> set loaded \<Longrightarrow> lt_trace l = Some d \<Longrightarrow> call_declared d"
proof -
  let ?add = "wrap64 (hd_number (bk_header block)) \<noteq> GenesisBlockIndex"
  from getBlock_Ok [OF assms] obtain j w1 where b: "load_block ec j w1 = (Ok (block, loaded), w')" by blast
  obtain body :: rpc_block and receipts traces rawTraces w3 where
    txs: "bk_transactions block = map rp_tx (rbk_transactions body)" and
    m: "mapM (load_tx (cl_geth ec) (bk_header block) receipts ?add traces rawTraces)
       (enumerate 0 (rbk_transactions body)) = Ok loaded" and
    tr: "if ?add then getBlockTraces ec (rbk_hash body) w3 = (Ok (traces, rawTraces), w')
       else traces = [] \<and> rawTraces = [] \<and> w' = w3"
    using load_block_Ok [OF b] by blast
  from mapM_Ok_length [OF m] txs show "length loaded = length (bk_transactions block)" by simp
  assume law: "tracer_law ec" and l: "l \<in> set loaded" and d: "lt_trace l = Some d"
  from mapM_Ok_set [OF m l] obtain i tx where
    "load_tx (cl_geth ec) (bk_header block) receipts ?add traces rawTraces (i, tx) = Ok l" by auto
  from load_tx_Ok(5) [OF this d] have i: "i < length traces" "traces ! i = Some (Some d)" by simp_all
  then have "Some (Some d) \<in> set traces" by (metis nth_mem)
  moreover from i(1) tr have "getBlockTraces ec (rbk_hash body) w3 = (Ok (traces, rawTraces), w')"
    by (auto split: if_splits)
  ultimately show "call_declared d" using law unfolding tracer_law_def by blast
qed

text \<open>The list of transactions, for any node.\<close>

lemma getParsedBlock_txs:
  assumes "getParsedBlock ec m args w = (Ok b, w')"
  shows "\<exists>block loaded reward ts. getBlock ec m args w = (Ok (block, loaded), w')
    \<and> blockRewardTransaction (cl_geth ec) (cl_p ec) (rb_identifier b)
      (address_hex (cl_geth ec) (hd_coinbase (bk_header block))) (bk_uncles block) = Ok reward
    \<and> mapM (populateTransaction ec) loaded = Ok ts \<and> rb_transactions b = map Some (reward # ts)"
proof -
  obtain block loaded where
    g: "getBlock ec m args w = (Ok (block, loaded), w')" and
    p: "populateTransactions ec (rb_identifier b) block loaded = Ok (rb_transactions b)"
    using getParsedBlock_Ok [OF assms] by blast
  from populateTransactions_Ok [OF p getBlock_loaded(1) [OF g]] g show ?thesis by blast
qed

lemma reward_hash: "blockRewardTransaction G p bid miner uncles = Ok tx \<Longrightarrow> rt_hash tx = bi_hash bid"
  by (auto simp: blockRewardTransaction_def Let_def)

lemma getParsedBlock_shape:
  assumes "getParsedBlock ec m args w = (Ok b, w')"
  shows "\<exists>ts. rb_transactions b = map Some ts \<and> ts \<noteq> [] \<and> rt_hash (hd ts) = bi_hash (rb_identifier b)"
proof -
  obtain reward ts where "rb_transactions b = map Some (reward # ts)" "rt_hash reward = bi_hash (rb_identifier b)"
    using getParsedBlock_txs [OF assms] reward_hash by blast
  then show ?thesis by (intro exI [of _ "reward # ts"]) simp
qed

lemma getParsedBlock_wf:
  assumes "address_laws (cl_geth ec)" and "key_order (cl_order ec)" and "tracer_law ec"
    and "getParsedBlock ec m args w = (Ok b, w')"
  shows "\<exists>ts. rb_transactions b = map Some ts \<and> ts \<noteq> []
    \<and> rt_hash (hd ts) = bi_hash (rb_identifier b) \<and> (\<forall>t \<in> set ts. ops_wf 0 (rt_operations t))"
proof -
  from getParsedBlock_txs [OF assms(4)] obtain block loaded reward ts where
    g: "getBlock ec m args w = (Ok (block, loaded), w')" and
    r: "blockRewardTransaction (cl_geth ec) (cl_p ec) (rb_identifier b)
      (address_hex (cl_geth ec) (hd_coinbase (bk_header block))) (bk_uncles block) = Ok reward" and
    ts: "mapM (populateTransaction ec) loaded = Ok ts" "rb_transactions b = map Some (reward # ts)" by blast
  have "ops_wf 0 (rt_operations reward)" using r by (rule blockReward_wf)
  moreover have "ops_wf 0 (rt_operations t)" if "t \<in> set ts" for t
    using mapM_Ok_set [OF ts(1) that] getBlock_loaded(2) [OF g assms(3)]
    by (blast intro: populate_wf [OF assms(1,2)])
  ultimately show ?thesis using ts(2) reward_hash [OF r] by (intro exI [of _ "reward # ts"]) auto
qed

text \<open>Every branch of \<open>Block\<close> is a parsed block.\<close>

lemma Block_parsed: "\<exists>m args. Block ec bid = getParsedBlock ec m args"
  by (cases bid) (auto simp: Block_def Let_def split: option.splits)

section \<open>Errors and resources\<close>

lemma load_block_preserves:
  assumes "sem_law held (cl_node ec)"
  shows "preserves held (load_block ec j)"
  unfolding load_block_def Let_def
  by (intro preserves_bind preserves_lift preserves_mapErr node_calls_preserve [OF assms] preserves_if)
     (auto split: prod.splits)

lemma getParsedBlock_preserves:
  assumes "sem_law held (cl_node ec)"
  shows "preserves held (getParsedBlock ec m args)"
proof -
  have "preserves held (case raw of None \<Rightarrow> io_lift (Err (not_found (cl_geth ec))) | Some j \<Rightarrow> load_block ec j)"
    for raw using load_block_preserves [OF assms] by (cases raw) auto
  then have "preserves held (getBlock ec m args)"
    unfolding getBlock_def
    by (intro preserves_bind preserves_mapErr sem_lawD(1) [OF assms])
  then show ?thesis
    unfolding getParsedBlock_def Let_def
    by (intro preserves_bind preserves_mapErr) (auto split: prod.splits)
qed

lemma Transaction_preserves:
  assumes "sem_law held (cl_node ec)"
  shows "preserves held (Transaction ec bid h)"
proof -
  have tail: "preserves held (io_bind (io_mapErr g
      (if bi_hash bid \<noteq> [] then blockHeaderByHash ec (bi_hash bid)
       else blockHeaderByNumber ec (Some (bi_index bid)))) f)"
    if "\<And>header. preserves held (f header)" for g f
    using that by (intro preserves_bind preserves_mapErr preserves_if node_calls_preserve [OF assms])
  have opt: "preserves held (case raw of None \<Rightarrow> io_lift (Err e) | Some j \<Rightarrow> f j)"
    if "\<And>j. preserves held (f j)" for raw :: json_text and e f
    using that by (cases raw) auto
  show ?thesis
    unfolding Transaction_def Let_def
    by (intro preserves_if preserves_lift preserves_bind opt tail preserves_mapErr
        sem_lawD(1) [OF assms] node_calls_preserve [OF assms])
qed

text \<open>The wrapping of an error keeps its class.\<close>

lemma load_block_receipt_error:
  assumes "header_of_json (cl_geth ec) j = Ok head" and "rpc_block_of_json (cl_geth ec) j = Ok body"
    and "getUncles ec head body w = (Ok us, w2)"
    and "getBlockReceipts ec (rbk_hash body) (rbk_transactions body) w2 = (Err e, w3)"
  shows "load_block ec j w =
    (Err (Wrapf e ('': could not get receipts for '' @ fmt_x_hash (rbk_hash body))), w3)"
  unfolding load_block_def Let_def assms(1,2) io_bind_lift
  using assms(3,4) by (simp add: io_bind_def io_mapErr_def del: append_Cons)

section \<open>A concrete block\<close>

text \<open>What the concrete node of \<open>NodeRpc\<close> returns, decoded.\<close>

definition mock_header :: header where
  "mock_header = \<lparr>hd_hash = 7, hd_parent_hash = 6, hd_uncle_hash = 1, hd_tx_hash = 3, hd_coinbase = 9,
     hd_number = 3, hd_time = 1000, hd_base_fee = None\<rparr>"

definition mock_tx :: eth_tx where
  "mock_tx = \<lparr>tx_hash = 11, tx_type = 0, tx_gas_price = 3, tx_gas = 21, tx_nonce = 0, tx_to = Some 5,
     tx_value = 1, tx_data = [], tx_chain_id = 1\<rparr>"

definition mock_body :: rpc_block where
  "mock_body = \<lparr>rbk_hash = 7, rbk_transactions = [\<lparr>rp_tx = Some mock_tx, rp_block_number = None,
     rp_block_hash = Some 7, rp_from = Some 1\<rparr>], rbk_uncles = []\<rparr>"

definition mock_receipt :: receipt where
  "mock_receipt = \<lparr>rc_block_hash = 7, rc_gas_used = 2, rc_marshal = Ok (JObj [])\<rparr>"

definition mock_loaded :: loaded_transaction where
  "mock_loaded = \<lparr>lt_transaction = Some mock_tx, lt_from = Some 1, lt_block_number = None,
     lt_block_hash = Some 7, lt_fee_amount = Some 6, lt_fee_burned = None, lt_miner = ''0x9'',
     lt_status = False, lt_trace = Some (Call ''CALL'' 1 5 1 0 False [] []),
     lt_raw_trace = Some mock_trace, lt_receipt = Some mock_receipt\<rparr>"

lemma mock_calls:
  "header_of_json standin mock_block = Ok mock_header"
  "rpc_block_of_json standin mock_block = Ok mock_body"
  "call_unmarshal standin mock_trace = Ok (Call ''CALL'' 1 5 1 0 False [] [])"
  "load_tx standin mock_header [mock_receipt] True [Some (Some (Call ''CALL'' 1 5 1 0 False [] []))]
     [Some (Some mock_trace)] (0, hd (rbk_transactions mock_body)) = Ok mock_loaded"
  by code_simp+

lemma mock_traces:
  "getBlockTraces mock_client h w =
     (Ok ([Some (Some (Call ''CALL'' 1 5 1 0 False [] []))], [Some (Some mock_trace)]), w)"
proof -
  have "rpcCall_of_json standin (JObj [(''result'', mock_trace)]) = Ok (Some (Call ''CALL'' 1 5 1 0 False [] []))"
    using mock_calls(3) by (simp add: rpcCall_of_json_def json_field_def ptr_value_def mock_trace_def)
  moreover have "rpcRawCall_of_json (JObj [(''result'', mock_trace)]) = Ok (Some mock_trace)"
    by (simp add: rpcRawCall_of_json_def json_field_def)
  ultimately show ?thesis
    by (simp add: getBlockTraces_def io_bind_def io_defer_def io_lift_def mock_client_def mock_node_def
        mock_call_def json_parse_def ptr_value_def)
qed

lemma mock_uncles: "getUncles mock_client mock_header mock_body w = (Ok [], w)"
  by (simp add: getUncles_def mock_header_def mock_body_def standin_def io_lift_def)

lemma mock_receipts: "getBlockReceipts mock_client 7 (rbk_transactions mock_body) w = (Ok [mock_receipt], w)"
proof -
  have "receipt_of_json standin (JObj []) = Ok mock_receipt"
    by (simp add: standin_def mock_receipt_def)
  then show ?thesis
    by (simp add: getBlockReceipts_def mock_body_def io_lift_def io_bind_def mock_client_def mock_node_def
      receipt_result_def batch_result_def ptr_reply_def ptr_value_def) (simp add: mock_receipt_def)
qed

lemma mock_load: "load_block mock_client mock_block w =
   (Ok (\<lparr>bk_header = mock_header, bk_transactions = [Some mock_tx], bk_uncles = []\<rparr>, [mock_loaded]), w)"
proof -
  have b: "rbk_hash mock_body = 7" "map rp_tx (rbk_transactions mock_body) = [Some mock_tx]"
    "enumerate 0 (rbk_transactions mock_body) = [(0, hd (rbk_transactions mock_body))]"
    and h: "hd_number mock_header = 3"
    by (simp_all add: mock_body_def mock_header_def)
  then show ?thesis
    unfolding load_block_def Let_def
    by (simp add: mock_calls io_bind_def io_mapErr_def mock_uncles mock_receipts mock_traces io_lift_def
        GenesisBlockIndex_def int64_range_def)
qed

lemma mock_populate: "ok_with (\<lambda>t. rt_hash t = ''0xb'') (populateTransaction mock_client mock_loaded)"
  by code_simp

lemma mock_Block: "\<exists>b. Block mock_client None w = (Ok b, w) \<and> rb_identifier b = \<lparr>bi_hash = ''0x7'', bi_index = 3\<rparr>"
proof -
  obtain t where t: "populateTransaction mock_client mock_loaded = Ok t"
    using mock_populate by (auto simp: ok_with_iff)
  have hex: "hash_hex standin 7 = ''0x7''" by code_simp
  have call: "getBlock mock_client ''eth_getBlockByNumber'' args w = load_block mock_client mock_block w" for args w
    by (simp add: getBlock_def io_bind_def io_mapErr_def mock_client_def mock_node_def mock_call_def)
  show ?thesis
    using t hex by (simp add: Block_def Let_def getParsedBlock_def io_bind_def io_mapErr_def call mock_load
        populateTransactions_def blockReward_eq populate_step_def io_lift_def)
      (simp add: mock_header_def int64_range_def)
qed

lemma mock_tracer_law: "tracer_law mock_client"
  by (simp add: tracer_law_def mock_traces OperationTypes_def op_type_defs)

section \<open>Properties\<close>

text \<open>
  Whatever block is asked for (by hash, by index, or the latest): if the node's laws hold and
  \<open>Block\<close> returns a block, it has no nil transaction, the first transaction carries the hash of
  the block, and every transaction's operations are well formed: indices count up from 0,
  related operations come earlier, types and statuses are declared.
\<close>

theorem Block_well_formed:
  assumes "address_laws (cl_geth ec)" and "key_order (cl_order ec)" and "tracer_law ec"
    and "Block ec bid w = (Ok b, w')"
  shows "\<exists>ts. rb_transactions b = map Some ts \<and> ts \<noteq> []
    \<and> rt_hash (hd ts) = bi_hash (rb_identifier b) \<and> (\<forall>t \<in> set ts. ops_wf 0 (rt_operations t))"
proof -
  obtain m args where "Block ec bid = getParsedBlock ec m args" using Block_parsed by blast
  with assms(4) show ?thesis using getParsedBlock_wf [OF assms(1-3)] by simp
qed

text \<open>
  C12. Identifiers of a returned block: they are those of the header the node sent. The block's
  index is the header's number, its parent is the header's parent hash with the index before
  (the genesis block is its own parent), the timestamp is in milliseconds, and there is one
  transaction for every transaction of the block plus the reward transaction.
\<close>

theorem getParsedBlock_identifiers:
  assumes "getParsedBlock ec m args w = (Ok b, w')"
  shows "\<exists>j w1 head body. call_context (cl_node ec) m args w = (Ok (Some j), w1)
    \<and> header_of_json (cl_geth ec) j = Ok head \<and> rpc_block_of_json (cl_geth ec) j = Ok body
    \<and> length (rb_transactions b) = Suc (length (rbk_transactions body))
    \<and> (0 \<le> hd_number head \<and> hd_number head < 2 ^ 63 \<longrightarrow>
        rb_identifier b = \<lparr>bi_hash = hash_hex (cl_geth ec) (hd_hash head), bi_index = hd_number head\<rparr>
        \<and> rb_parent b = (if hd_number head = 0 then rb_identifier b
            else \<lparr>bi_hash = hash_hex (cl_geth ec) (hd_parent_hash head), bi_index = hd_number head - 1\<rparr>))
    \<and> rb_timestamp b = convertTime (hd_time head)"
proof -
  obtain block loaded where g: "getBlock ec m args w = (Ok (block, loaded), w')"
    and p: "populateTransactions ec (rb_identifier b) block loaded = Ok (rb_transactions b)"
    and id: "rb_identifier b = \<lparr>bi_hash = hash_hex (cl_geth ec) (hd_hash (bk_header block)),
              bi_index = wrap64 (hd_number (bk_header block))\<rparr>"
      "rb_parent b = (if wrap64 (hd_number (bk_header block)) \<noteq> 0
              then \<lparr>bi_hash = hash_hex (cl_geth ec) (hd_parent_hash (bk_header block)),
                    bi_index = wrap64 (wrap64 (hd_number (bk_header block)) - 1)\<rparr>
              else rb_identifier b)"
      "rb_timestamp b = convertTime (hd_time (bk_header block))"
    using getParsedBlock_Ok [OF assms] by blast
  from getBlock_Ok [OF g] obtain j w1 where j: "call_context (cl_node ec) m args w = (Ok (Some j), w1)"
    and l: "load_block ec j w1 = (Ok (block, loaded), w')" by blast
  from load_block_Ok [OF l] obtain body :: rpc_block where
    body: "header_of_json (cl_geth ec) j = Ok (bk_header block)" "rpc_block_of_json (cl_geth ec) j = Ok body"
      "bk_transactions block = map rp_tx (rbk_transactions body)" by blast
  have len: "length loaded = length (bk_transactions block)" by (rule getBlock_loaded(1) [OF g])
  from populateTransactions_Ok [OF p len] obtain reward ts where
    "mapM (populateTransaction ec) loaded = Ok ts" "rb_transactions b = map Some (reward # ts)" by blast
  then have n: "length (rb_transactions b) = Suc (length (rbk_transactions body))"
    using len body(3) by (simp add: mapM_Ok_length)
  have "rb_identifier b = \<lparr>bi_hash = hash_hex (cl_geth ec) (hd_hash (bk_header block)),
        bi_index = hd_number (bk_header block)\<rparr>
      \<and> rb_parent b = (if hd_number (bk_header block) = 0 then rb_identifier b
            else \<lparr>bi_hash = hash_hex (cl_geth ec) (hd_parent_hash (bk_header block)),
              bi_index = hd_number (bk_header block) - 1\<rparr>)"
    if "0 \<le> hd_number (bk_header block) \<and> hd_number (bk_header block) < 2 ^ 63"
    using that id by (auto simp: int64_range_def)
  with j body n id(3) show ?thesis by blast
qed

text \<open>
  The timestamp is exactly a thousand times the header's time if and only if that fits an
  int64; later times wrap around.
\<close>

theorem convertTime_exact:
  "convertTime t = 1000 * uint t \<longleftrightarrow> uint t \<le> 9223372036854775"
proof
  assume "convertTime t = 1000 * uint t"
  then have "int64_range (1000 * uint t)" unfolding convertTime_def by (metis wrap64_range)
  then show "uint t \<le> 9223372036854775" by (simp add: int64_range_def)
next
  assume "uint t \<le> 9223372036854775"
  have "0 \<le> uint t" and c: "(2::int) ^ 63 = 9223372036854775808" by simp_all
  have "int64_range (uint t)"
    using \<open>uint t \<le> _\<close> by (intro int64_range_uint) simp
  moreover have "int64_range (uint t * 1000)"
    using \<open>uint t \<le> _\<close> \<open>0 \<le> uint t\<close> unfolding int64_range_def c by linarith
  ultimately show "convertTime t = 1000 * uint t" by (simp add: convertTime_def)
qed

text \<open>
  The trace semaphore is given back on every path: whether \<open>Block\<close> and \<open>Transaction\<close>
  return, fail or panic, the number of permits held is what it was before.
\<close>

theorem traces_release_semaphore:
  assumes "sem_law held (cl_node ec)"
  shows "held (snd (Block ec bid w)) = held w \<and> held (snd (Transaction ec b h w)) = held w"
proof -
  obtain m args where "Block ec bid = getParsedBlock ec m args" using Block_parsed by blast
  then show ?thesis
    using getParsedBlock_preserves [OF assms] Transaction_preserves [OF assms]
    unfolding preserves_def by simp
qed

text \<open>
  A block whose receipts belong to another block (the chain was reorganised between two
  calls) is not returned: the error of \<open>Block\<close> wraps \<open>ErrBlockOrphaned\<close> exactly if the error of
  the receipt fetch does, so that callers can tell it from other failures.
\<close>

theorem getParsedBlock_receipt_error:
  assumes "call_context (cl_node ec) m args w = (Ok (Some j), w1)"
    and "header_of_json (cl_geth ec) j = Ok head" and "rpc_block_of_json (cl_geth ec) j = Ok body"
    and "getUncles ec head body w1 = (Ok us, w2)"
    and "getBlockReceipts ec (rbk_hash body) (rbk_transactions body) w2 = (Err e, w3)"
  shows "\<exists>e'. getParsedBlock ec m args w = (Err e', w3) \<and> (\<forall>s. errors_is e' s = errors_is e s)"
proof -
  have "getBlock ec m args w = (Err (Wrapf e ('': could not get receipts for '' @ fmt_x_hash (rbk_hash body))), w3)"
    using assms(1) load_block_receipt_error [OF assms(2-5)]
    by (simp add: getBlock_def io_bind_def io_mapErr_def del: append_Cons)
  then show ?thesis
    unfolding getParsedBlock_def Let_def by (simp add: io_bind_def io_mapErr_def)
qed

text \<open>
  C35. \<open>Transaction\<close> reads the block hash of the receipt before it looks at the error of the
  receipt fetch: where the fetch fails the call does not return that error but dereferences a
  nil receipt.
\<close>

theorem Transaction_receipt_error_panics:
  assumes "call_context (cl_node ec) ''eth_getTransactionByHash'' [JStr h] w = (Ok (Some j), w1)"
    and "h \<noteq> []" and "rpc_transaction_of_json (cl_geth ec) j = Ok body" and "rp_tx body = Some etx"
    and "(if bi_hash bid \<noteq> [] then blockHeaderByHash ec (bi_hash bid)
          else blockHeaderByNumber ec (Some (bi_index bid))) w1 = (Ok head, w2)"
    and "call_context (cl_node ec) ''eth_getTransactionReceipt''
          [JStr (hash_hex (cl_geth ec) (tx_hash etx))] w2 = (Err e, w3)"
  shows "Transaction ec bid h w = (Crash NilDeref, w3)"
proof -
  have r: "transactionReceipt ec (tx_hash etx) w2 = (Ok (None, Some e), w3)"
    using assms(6) by (simp add: transactionReceipt_def)
  have c: "check_receipt (cl_geth ec) body (tx_hash etx) (None, Some e) = Crash NilDeref"
    by (simp add: check_receipt_def)
  show ?thesis
    using assms(2)
    unfolding Transaction_def Let_def
    by (simp add: io_bind_def io_mapErr_def io_lift_def assms(1,3,4,5) r c del: append_Cons)
qed

text \<open>The operations of a populated transaction, in terms of the balances they move.\<close>

lemma populate_balances:
  assumes "address_laws (cl_geth ec)" and "key_order (cl_order ec)"
    and "lt_from tx = Some f" and "lt_miner tx = address_hex (cl_geth ec) m"
    and "lt_fee_amount tx = Some fee" and "lt_trace tx = Some d"
    and "evm_ok (cl_geth ec) (inherit False [] d) {} bal"
    and "\<forall>tr \<in> set (inherit False [] d). \<not> misreported (cl_geth ec) tr a"
    and "populateTransaction ec tx = Ok t"
  shows "bal a + net_effect a (rt_operations t) =
    (if a \<in> destroyed (cl_geth ec) (inherit False [] d) then 0 else ledger (cl_geth ec) (inherit False [] d) bal a)
    - (if a = address_hex (cl_geth ec) f then fee else 0)
    + (if a = address_hex (cl_geth ec) m
       then fee - (case lt_fee_burned tx of None \<Rightarrow> 0 | Some b \<Rightarrow> b) else 0)"
proof -
  let ?G = "cl_geth ec"
  from assms(6,9) obtain ops fs trs where
    ops: "feeOps ?G tx = Ok ops" and fs: "flattenTraces d [] = Ok fs" and
    trs: "traceOps ?G (range_entries (cl_order ec)) fs (int (length ops)) = Ok trs" and
    t: "rt_operations t = ops @ trs"
    by (auto simp: populateTransaction_def Let_def)
  from fs have fs': "fs = inherit False [] d"
    using flatten_eq(1) [of "[]" d] by (simp split: if_splits)
  have "bal a + net_effect a trs = (if a \<in> destroyed ?G fs then 0 else ledger ?G fs bal a)"
    by (rule traceOps_balances [OF assms(1) map_order_range [OF assms(2)] assms(7) [folded fs'] trs assms(8) [folded fs']])
  moreover have "net_effect a ops = (if a = address_hex ?G m
       then fee - (case lt_fee_burned tx of None \<Rightarrow> 0 | Some b \<Rightarrow> b) else 0)
       - (if a = address_hex ?G f then fee else 0)"
    using feeOps_eq [OF assms(1,3,4,5)] ops
    by (auto simp: net_effect_Cons split: option.splits)
  ultimately show ?thesis by (simp add: t fs')
qed

text \<open>
  C4. The operations of a populated transaction account for the whole change of an account: if its traces are
  those of an execution, the balance before the transaction plus the net effect of the operations is what the
  calls left of it (zero if it destroyed itself), less the fee if it is the sender, plus the fee without the burned
  part if it is the miner. Excepted are the accounts the code misreports: the account of a self-destruct that was
  reverted, and the parties of a \<open>CALLCODE\<close> (or another call that moves nothing) reported with a value.
\<close>

theorem populateTransaction_balances:
  assumes "address_laws (cl_geth ec)" and "key_order (cl_order ec)"
    and "lt_from tx = Some f" and "lt_miner tx = address_hex (cl_geth ec) m"
    and "lt_fee_amount tx = Some fee" and "lt_trace tx = Some d"
    and "evm_ok (cl_geth ec) (inherit False [] d) {} bal"
    and "\<forall>tr \<in> set (inherit False [] d). \<not> misreported (cl_geth ec) tr a"
    and "populateTransaction ec tx = Ok t"
  shows "bal a + net_effect a (rt_operations t) =
    (if a \<in> destroyed (cl_geth ec) (inherit False [] d) then 0 else ledger (cl_geth ec) (inherit False [] d) bal a)
    - (if a = address_hex (cl_geth ec) f then fee else 0)
    + (if a = address_hex (cl_geth ec) m
       then fee - (case lt_fee_burned tx of None \<Rightarrow> 0 | Some b \<Rightarrow> b) else 0)"
  by (rule populate_balances [OF assms])

section \<open>Concrete instances of the properties\<close>

theorem populateTransaction_balances_witness:
  "\<exists>t. populateTransaction mock_client mock_loaded = Ok t
     \<and> bal_example ''0x1'' + net_effect ''0x1'' (rt_operations t) = 2
     \<and> bal_example ''0x9'' + net_effect ''0x9'' (rt_operations t) = 6"
proof -
  obtain t where t: "populateTransaction mock_client mock_loaded = Ok t"
    using mock_populate by (auto simp: ok_with_iff)
  let ?d = "Call ''CALL'' 1 5 1 0 False [] []"
  have l: "lt_from mock_loaded = Some 1" "lt_miner mock_loaded = address_hex (cl_geth mock_client) 9"
    "lt_fee_amount mock_loaded = Some 6" "lt_trace mock_loaded = Some ?d"
    and ex: "evm_ok (cl_geth mock_client) (inherit False [] ?d) {} bal_example"
      "\<forall>tr \<in> set (inherit False [] ?d). \<not> misreported (cl_geth mock_client) tr ''0x1''"
      "\<forall>tr \<in> set (inherit False [] ?d). \<not> misreported (cl_geth mock_client) tr ''0x9''"
      "ledger standin (inherit False [] ?d) bal_example ''0x1'' = 8" "ledger standin (inherit False [] ?d) bal_example ''0x9'' = 0"
      "''0x1'' \<notin> destroyed standin (inherit False [] ?d)" "''0x9'' \<notin> destroyed standin (inherit False [] ?d)"
      "address_hex standin 1 = ''0x1''" "address_hex standin 9 = ''0x9''"
    by code_simp+
  have laws: "address_laws (cl_geth mock_client)" "key_order (cl_order mock_client)"
    "lt_fee_burned mock_loaded = None"
    by (simp_all add: mock_loaded_def)
  show ?thesis
    using t ex(3-) populateTransaction_balances [OF laws(1,2) l ex(1,2) t]
      populateTransaction_balances [OF laws(1,2) l ex(1,3) t]
    by (simp add: laws(3) del: inherit.simps)
qed

theorem Block_well_formed_witness:
  "\<exists>b ts. Block mock_client None 0 = (Ok b, 0) \<and> rb_transactions b = map Some ts \<and> ts \<noteq> []
     \<and> rt_hash (hd ts) = ''0x7'' \<and> (\<forall>t \<in> set ts. ops_wf 0 (rt_operations t))"
proof -
  obtain b where b: "Block mock_client None 0 = (Ok b, 0)" "bi_hash (rb_identifier b) = ''0x7''"
    using mock_Block [of 0] by auto
  from Block_well_formed [OF _ _ mock_tracer_law b(1)] b show ?thesis by simp
qed

theorem getParsedBlock_identifiers_witness:
  "\<exists>b. getParsedBlock mock_client ''eth_getBlockByNumber'' [JStr ''latest'', JBool True] 0 = (Ok b, 0)
     \<and> bi_index (rb_identifier b) = 3 \<and> bi_index (rb_parent b) = 2 \<and> bi_hash (rb_parent b) = ''0x6''
     \<and> rb_timestamp b = 1000000 \<and> length (rb_transactions b) = 2"
proof -
  obtain b where b: "getParsedBlock mock_client ''eth_getBlockByNumber'' [JStr ''latest'', JBool True] 0 = (Ok b, 0)"
    using mock_Block [of 0] by (auto simp: Block_def Let_def toBlockNumArg_def)
  have "call_context (cl_node mock_client) ''eth_getBlockByNumber'' args 0 = (Ok (Some mock_block), 0)" for args
    by (simp add: mock_client_def mock_node_def mock_call_def)
  moreover have "hash_hex standin 6 = ''0x6''" "convertTime 1000 = 1000000" by code_simp+
  ultimately show ?thesis
    using getParsedBlock_identifiers [OF b] b
    by (auto simp: mock_calls mock_header_def mock_body_def)
qed

theorem traces_release_semaphore_witness:
  "snd (Block mock_client None 3) = 3 \<and> snd (Transaction mock_client \<lparr>bi_hash = [], bi_index = 3\<rparr> ''0xb'' 3) = 3"
  using traces_release_semaphore [OF mock_sem_law] by simp

text \<open>A node that answers every batch with the receipts of block 7, asked for block 8.\<close>

definition orphan_block :: json where
  "orphan_block = JObj [(''hash'', JStr ''0x8''), (''uncles'', JArr []),
     (''transactions'', JArr [JObj [(''blockHash'', JStr ''0x8''), (''from'', JStr ''0x1'')]])]"

definition orphan_client :: "int client" where
  "orphan_client = mock_client\<lparr>cl_node := mock_node\<lparr>call_context := (\<lambda>m args held.
     (if m = ''eth_getTransactionReceipt'' then Err (External ''timeout'') else Ok (Some orphan_block), held))\<rparr>\<rparr>"

theorem getParsedBlock_receipt_error_witness:
  "\<exists>e. getParsedBlock orphan_client ''eth_getBlockByNumber'' [] 0 = (Err e, 0) \<and> errors_is e ErrBlockOrphaned"
proof -
  let ?body = "mock_body\<lparr>rbk_hash := 8, rbk_transactions := [\<lparr>rp_tx = Some mock_tx, rp_block_number = None,
     rp_block_hash = Some 8, rp_from = Some 1\<rparr>]\<rparr>"
  have G: "cl_geth orphan_client = standin" by (simp add: orphan_client_def)
  have h: "header_of_json (cl_geth orphan_client) orphan_block = Ok mock_header"
    and b: "rpc_block_of_json (cl_geth orphan_client) orphan_block = Ok ?body"
    unfolding G by code_simp+
  have u: "getUncles orphan_client mock_header ?body 0 = (Ok [], 0)"
    by (simp add: getUncles_def G mock_header_def mock_body_def standin_def io_lift_def)
  have c: "call_context (cl_node orphan_client) ''eth_getBlockByNumber'' [] 0 = (Ok (Some orphan_block), 0)"
    by (simp add: orphan_client_def)
  have "receipt_of_json standin (JObj []) = Ok mock_receipt"
    by (simp add: standin_def mock_receipt_def)
  then have r: "getBlockReceipts orphan_client (rbk_hash ?body) (rbk_transactions ?body) 0
      = (Err (orphaned standin 8 7), 0)"
    by (simp add: getBlockReceipts_def G io_lift_def io_bind_def orphan_client_def mock_node_def
      receipt_result_def batch_result_def ptr_reply_def ptr_value_def) (simp add: mock_receipt_def)
  show ?thesis
    using getParsedBlock_receipt_error [OF c h b u r] by (auto simp: orphaned_def)
qed

theorem Transaction_receipt_error_panics_witness:
  "Transaction orphan_client \<lparr>bi_hash = [], bi_index = 3\<rparr> ''0xb'' 0 = (Crash NilDeref, 0)"
proof -
  have G: "cl_geth orphan_client = standin" by (simp add: orphan_client_def)
  let ?body = "\<lparr>rp_tx = Some mock_tx, rp_block_number = None, rp_block_hash = None, rp_from = None\<rparr>"
  have "rpc_transaction_of_json standin orphan_block = Ok ?body" "header_of_json standin orphan_block = Ok mock_header"
    by code_simp+
  moreover from this(2) have "blockHeaderByNumber orphan_client (Some 3) 0 = (Ok mock_header, 0)"
    by (simp add: blockHeaderByNumber_def call_ptr_def io_bind_def io_lift_def G ptr_reply_def ptr_value_def)
       (simp add: orphan_client_def orphan_block_def ptr_reply_def ptr_value_def io_lift_def)
  ultimately show ?thesis
    by (intro Transaction_receipt_error_panics [where j = orphan_block and body = ?body and etx = mock_tx
        and ?w1.0 = 0 and ?w2.0 = 0 and head = mock_header and e = "External ''timeout''"])
       (simp_all add: G orphan_client_def)
qed

end
