(* ===== verification/CallTracer.thy ===== *)
theory CallTracer
  imports Blocks
begin

text \<open>
  The tracer the node runs for every transaction (\<open>ethereum/call_tracer.js\<close>, loaded by
  \<open>ethereum/tracer.go\<close>). The interpreter of the node calls \<open>enter\<close> and \<open>exit\<close> around every call of a
  contract and \<open>result\<close> at the end; the script keeps a stack of unfinished calls and returns the
  object that \<open>Call.UnmarshalJSON\<close> decodes. An object of JavaScript is the list of its defined
  properties in the order they were added, an undefined property is one that is absent; its end is the top of
  \<open>callstack\<close>, as for \<open>push\<close> and \<open>pop\<close>. The
  functions the node gives to scripts (\<open>toHex\<close>, \<open>bigInt\<close>) are parameters.
\<close>

section \<open>What the node passes to the script\<close>

record js_lib =
  toHex_address :: "address \<Rightarrow> string"
  toHex_bytes :: "bytes \<Rightarrow> string"
  toString16 :: "int \<Rightarrow> string"

record frame =
  getType :: string
  getFrom :: address
  getTo :: address
  getInput :: bytes
  getGas :: uint64
  getValue :: "256 word option"

record frame_result =
  getGasUsed :: uint64
  getOutput :: bytes
  getError :: "string option"

record tracer_ctx =
  ctx_type :: string
  ctx_from :: address
  ctx_to :: address
  ctx_value :: "256 word"
  ctx_gas :: uint64
  ctx_gasUsed :: uint64
  ctx_input :: bytes
  ctx_output :: bytes
  ctx_error :: "string option"

text \<open>The properties of an object: read, assign, \<open>delete\<close>.\<close>

fun js_set :: "string \<Rightarrow> json \<Rightarrow> json_map \<Rightarrow> json_map" where
  "js_set k v [] = [(k, v)]"
| "js_set k v ((l, x) # ps) = (if l = k then (k, v) # ps else (l, x) # js_set k v ps)"

definition js_delete :: "string \<Rightarrow> json_map \<Rightarrow> json_map" where
  "js_delete k ps = filter (\<lambda>p. fst p \<noteq> k) ps"

definition js_some :: "string \<Rightarrow> json option \<Rightarrow> json_map" where
  "js_some k v = (case v of None \<Rightarrow> [] | Some x \<Rightarrow> [(k, x)])"

section \<open>The script\<close>

type_synonym callstack = "json_map list"

definition callstack0 :: callstack where
  "callstack0 = [[]]"

definition hexNumber :: "js_lib \<Rightarrow> int \<Rightarrow> json" where
  "hexNumber J n = JStr (''0x'' @ toString16 J n)"

definition js_fault :: "callstack \<Rightarrow> callstack" where
  "js_fault st = st"

definition js_enter :: "js_lib \<Rightarrow> frame \<Rightarrow> callstack \<Rightarrow> callstack" where
  "js_enter J frame st =
     st @ [[(''type'', JStr (getType frame)),
            (''from'', JStr (toHex_address J (getFrom frame))),
            (''to'', JStr (toHex_address J (getTo frame))),
            (''input'', JStr (toHex_bytes J (getInput frame))),
            (''gas'', hexNumber J (uint (getGas frame)))]
           @ js_some ''value'' (map_option (\<lambda>v. hexNumber J (uint v)) (getValue frame))]"

text \<open>\<open>parent.calls.push(call)\<close>, after \<open>parent.calls = []\<close> where it is undefined.\<close>

definition push_call :: "json_map \<Rightarrow> json_map \<Rightarrow> json_map" where
  "push_call call parent =
     js_set ''calls'' (JArr ((case map_of parent ''calls'' of Some (JArr cs) \<Rightarrow> cs | _ \<Rightarrow> []) @ [JObj call])) parent"

definition close_call :: "js_lib \<Rightarrow> frame_result \<Rightarrow> json_map \<Rightarrow> json_map" where
  "close_call J frameResult call0 =
     (let call = js_set ''gasUsed'' (hexNumber J (uint (getGasUsed frameResult))) call0
      in case getError frameResult of
           None \<Rightarrow> js_set ''output'' (JStr (toHex_bytes J (getOutput frameResult))) call
         | Some error \<Rightarrow>
             let call' = js_set ''error'' (JStr error) call
             in if map_of call' ''type'' \<in> {Some (JStr ''CREATE''), Some (JStr ''CREATE2'')}
                then js_delete ''to'' call' else call')"

definition js_exit :: "js_lib \<Rightarrow> frame_result \<Rightarrow> callstack \<Rightarrow> callstack" where
  "js_exit J frameResult st =
     (if length st > 1 then
        let call = close_call J frameResult (last st); rest = butlast st
        in butlast rest @ [push_call call (last rest)]
      else st)"

text \<open>\<open>finalize\<close> keeps the defined properties in the order of the literal \<open>sorted\<close>.\<close>

definition sortedKeys :: "string list" where
  "sortedKeys = [''type'', ''from'', ''to'', ''value'', ''gas'', ''gasUsed'', ''input'', ''output'', ''error'', ''time'']"

definition sorted_props :: "json_map \<Rightarrow> json_map" where
  "sorted_props call = concat (map (\<lambda>k. js_some k (map_of call k)) sortedKeys)"

lemma size_map_of_less: "map_of ps k = Some (JArr cs) \<Longrightarrow> c \<in> set cs \<Longrightarrow> size c < size (JObj ps)"
proof -
  assume "map_of ps k = Some (JArr cs)" and "c \<in> set cs"
  then have "size (JArr cs) < size (JObj ps)"
    by (intro json_struct_size [of _ ps k]) (auto dest: map_of_SomeD)
  moreover have "size c \<le> size_list size cs"
    using \<open>c \<in> set cs\<close> by (rule size_list_estimation') simp
  ultimately show ?thesis by simp
qed

function finalize :: "json \<Rightarrow> json" where
  "finalize (JObj call) = JObj (sorted_props call @
     js_some ''calls'' (case map_of call ''calls'' of
         None \<Rightarrow> None
       | Some (JArr calls) \<Rightarrow> Some (JArr (map finalize calls))
       | Some v \<Rightarrow> Some v))"
| "finalize JNull = JObj []"
| "finalize (JBool b) = JObj []"
| "finalize (JNum n) = JObj []"
| "finalize (JStr s) = JObj []"
| "finalize (JArr js) = JObj []"
  by pat_completeness auto
termination
  by (relation "measure size") (use size_map_of_less in \<open>auto simp del: json.size\<close>)

definition result_object :: "js_lib \<Rightarrow> tracer_ctx \<Rightarrow> json_map \<Rightarrow> json_map" where
  "result_object J ctx bottom =
     (let error = (case map_of bottom ''error'' of Some e \<Rightarrow> Some e | None \<Rightarrow> map_option JStr (ctx_error ctx));
          output = JStr (toHex_bytes J (ctx_output ctx));
          result = [(''type'', JStr (ctx_type ctx)),
            (''from'', JStr (toHex_address J (ctx_from ctx))),
            (''to'', JStr (toHex_address J (ctx_to ctx))),
            (''value'', hexNumber J (uint (ctx_value ctx))),
            (''gas'', hexNumber J (uint (ctx_gas ctx))),
            (''gasUsed'', hexNumber J (uint (ctx_gasUsed ctx))),
            (''input'', JStr (toHex_bytes J (ctx_input ctx))),
            (''output'', output)]
           @ js_some ''calls'' (map_of bottom ''calls'')
           @ js_some ''error'' error
      in if error \<noteq> None \<and> (error \<noteq> Some (JStr ''execution reverted'') \<or> output = JStr ''0x'')
         then js_delete ''output'' result else result)"

definition js_result :: "js_lib \<Rightarrow> tracer_ctx \<Rightarrow> callstack \<Rightarrow> json" where
  "js_result J ctx st = finalize (JObj (result_object J ctx (st ! 0)))"

section \<open>Runs of the script\<close>

datatype tracer_event = Enter frame | Exit frame_result | Fault

fun tracer_step :: "js_lib \<Rightarrow> tracer_event \<Rightarrow> callstack \<Rightarrow> callstack" where
  "tracer_step J (Enter f) st = js_enter J f st"
| "tracer_step J (Exit r) st = js_exit J r st"
| "tracer_step J Fault st = js_fault st"

definition tracer_run :: "js_lib \<Rightarrow> tracer_event list \<Rightarrow> callstack \<Rightarrow> callstack" where
  "tracer_run J es st = fold (tracer_step J) es st"

definition trace_transaction :: "js_lib \<Rightarrow> tracer_ctx \<Rightarrow> tracer_event list \<Rightarrow> json" where
  "trace_transaction J ctx es = js_result J ctx (tracer_run J es callstack0)"

text \<open>
  What was executed: a call with how it ended and the calls it made, and the events the
  interpreter reports for it.
\<close>

datatype execution = Execution (ex_frame: frame) (ex_result: frame_result) (ex_calls: "execution list")

fun events_of :: "execution \<Rightarrow> tracer_event list" where
  "events_of (Execution f r cs) = Enter f # concat (map events_of cs) @ [Exit r]"

section \<open>What the script is meant to report\<close>

text \<open>The failure of a call in the sense of the client: an error with a message.\<close>

definition message_of :: "string option \<Rightarrow> string" where
  "message_of e = (case e of None \<Rightarrow> [] | Some m \<Rightarrow> m)"

definition is_create :: "string \<Rightarrow> bool" where
  "is_create ty \<longleftrightarrow> ty = ''CREATE'' \<or> ty = ''CREATE2''"

text \<open>The tree of a call: the address of a contract that was not created is not reported.\<close>

fun call_tree :: "execution \<Rightarrow> call" where
  "call_tree (Execution f r cs) = Call (getType f) (getFrom f)
     (if getError r \<noteq> None \<and> is_create (getType f) then 0 else getTo f)
     (case getValue f of None \<Rightarrow> 0 | Some v \<Rightarrow> uint v) (uint (getGasUsed r))
     (message_of (getError r) \<noteq> []) (message_of (getError r)) (map (\<lambda>c. Some (call_tree c)) cs)"

definition transaction_tree :: "tracer_ctx \<Rightarrow> execution list \<Rightarrow> call" where
  "transaction_tree ctx cs = Call (ctx_type ctx) (ctx_from ctx) (ctx_to ctx) (uint (ctx_value ctx))
     (uint (ctx_gasUsed ctx)) (message_of (ctx_error ctx) \<noteq> []) (message_of (ctx_error ctx))
     (map (\<lambda>c. Some (call_tree c)) cs)"

text \<open>
  The documented behaviour of the node's functions and of the client's decoders: the text of an
  address decodes to it, a hexadecimal number of at most 256 bits to its value.
\<close>

definition js_laws :: "geth \<Rightarrow> js_lib \<Rightarrow> bool" where
  "js_laws G J \<longleftrightarrow> (\<forall>a. address_of_json G (JStr (toHex_address J a)) = Ok a)
     \<and> (\<forall>n. 0 \<le> n \<and> n < 2 ^ 256 \<longrightarrow> big_of_json G (JStr (''0x'' @ toString16 J n)) = Ok n)"

section \<open>Objects\<close>

lemma map_of_js_set [simp]: "map_of (js_set k v ps) = (map_of ps)(k \<mapsto> v)"
  by (induction k v ps rule: js_set.induct) auto

lemma map_of_js_delete [simp]: "map_of (js_delete k ps) = (map_of ps)(k := None)"
  unfolding js_delete_def by (induction ps) auto

lemma map_of_js_some [simp]: "map_of (js_some k v) = (\<lambda>x. if x = k then v else None)"
  by (auto simp: js_some_def split: option.split)

lemma json_field_append:
  "json_field n (as @ bs) = (case json_field n bs of None \<Rightarrow> json_field n as | Some v \<Rightarrow> Some v)"
  by (auto simp: json_field_def split: list.splits)

lemma json_field_some:
  "json_field n (js_some k v) = (if map ascii_lower k = map ascii_lower n then v else None)"
  by (auto simp: json_field_def js_some_def split: option.split)

lemma lower_keys:
  "map ascii_lower ''type'' = ''type''" "map ascii_lower ''from'' = ''from''" "map ascii_lower ''to'' = ''to''"
  "map ascii_lower ''value'' = ''value''" "map ascii_lower ''gas'' = ''gas''"
  "map ascii_lower ''gasUsed'' = ''gasused''" "map ascii_lower ''input'' = ''input''"
  "map ascii_lower ''output'' = ''output''" "map ascii_lower ''error'' = ''error''"
  "map ascii_lower ''time'' = ''time''" "map ascii_lower ''calls'' = ''calls''"
  "map ascii_lower ''Revert'' = ''revert''" "map ascii_lower ''result'' = ''result''"
  by code_simp+

lemma json_field_Nil: "json_field n [] = None"
  by (simp add: json_field_def)

lemma sorted_props_eq:
  "sorted_props ps = js_some ''type'' (map_of ps ''type'') @ js_some ''from'' (map_of ps ''from'')
     @ js_some ''to'' (map_of ps ''to'') @ js_some ''value'' (map_of ps ''value'')
     @ js_some ''gas'' (map_of ps ''gas'') @ js_some ''gasUsed'' (map_of ps ''gasUsed'')
     @ js_some ''input'' (map_of ps ''input'') @ js_some ''output'' (map_of ps ''output'')
     @ js_some ''error'' (map_of ps ''error'') @ js_some ''time'' (map_of ps ''time'')"
  by (simp add: sorted_props_def sortedKeys_def)

text \<open>The fields the client reads from a finalized object are the properties of the call.\<close>

lemma sorted_fields:
  "json_field ''type'' (sorted_props ps @ js_some ''calls'' v) = map_of ps ''type''"
  "json_field ''from'' (sorted_props ps @ js_some ''calls'' v) = map_of ps ''from''"
  "json_field ''to'' (sorted_props ps @ js_some ''calls'' v) = map_of ps ''to''"
  "json_field ''value'' (sorted_props ps @ js_some ''calls'' v) = map_of ps ''value''"
  "json_field ''gasUsed'' (sorted_props ps @ js_some ''calls'' v) = map_of ps ''gasUsed''"
  "json_field ''error'' (sorted_props ps @ js_some ''calls'' v) = map_of ps ''error''"
  "json_field ''calls'' (sorted_props ps @ js_some ''calls'' v) = v"
  "json_field ''Revert'' (sorted_props ps @ js_some ''calls'' v) = None"
  by (simp_all add: sorted_props_eq json_field_append json_field_some lower_keys del: list.map split: option.split)

section \<open>The stack\<close>

text \<open>The object of a call that has ended, with its calls in the order they were made.\<close>

fun call_object :: "js_lib \<Rightarrow> execution \<Rightarrow> json_map" where
  "call_object J (Execution f r cs) =
     close_call J r (fold push_call (map (call_object J) cs) (last (js_enter J f [])))"

lemma js_exit_top [simp]:
  "js_exit J r (st @ [parent, call]) = st @ [push_call (close_call J r call) parent]"
  by (simp add: js_exit_def butlast_append)

lemma tracer_run_simps [simp]:
  "tracer_run J [] st = st"
  "tracer_run J (e # es) st = tracer_run J es (tracer_step J e st)"
  "tracer_run J (es @ es') st = tracer_run J es' (tracer_run J es st)"
  by (simp_all add: tracer_run_def)

text \<open>The events of a call leave the stack below it alone and hand the call to its caller.\<close>

lemma tracer_run_call:
  "tracer_run J (events_of x) (st @ [parent]) = st @ [push_call (call_object J x) parent]"
proof (induction x arbitrary: st parent)
  case (Execution f r cs)
  have calls: "tracer_run J (concat (map events_of cs)) (st' @ [ps]) = st' @ [fold push_call (map (call_object J) cs) ps]"
    for st' ps
    using Execution.IH by (induction cs arbitrary: ps) simp_all
  have "js_enter J f (st @ [parent]) = st @ [parent, last (js_enter J f [])]"
    by (simp add: js_enter_def)
  then show ?case using calls [of "st @ [parent]" "last (js_enter J f [])"] by simp
qed

lemma tracer_run_calls:
  "tracer_run J (concat (map events_of cs)) (st @ [parent]) = st @ [fold push_call (map (call_object J) cs) parent]"
  by (induction cs arbitrary: parent) (simp_all add: tracer_run_call)

lemma map_of_push_call [simp]:
  "map_of (push_call call ps) = (map_of ps)(''calls'' \<mapsto>
     JArr ((case map_of ps ''calls'' of Some (JArr cs) \<Rightarrow> cs | _ \<Rightarrow> []) @ [JObj call]))"
  by (simp add: push_call_def)

lemma map_of_push_calls:
  assumes "map_of ps ''calls'' = None"
  shows "map_of (fold push_call os ps)
    = (if os = [] then map_of ps else (map_of ps)(''calls'' \<mapsto> JArr (map JObj os)))"
  using assms by (induction os rule: rev_induct) simp_all

lemma enter_fields:
  "map_of (last (js_enter J f [])) ''type'' = Some (JStr (getType f))"
  "map_of (last (js_enter J f [])) ''from'' = Some (JStr (toHex_address J (getFrom f)))"
  "map_of (last (js_enter J f [])) ''to'' = Some (JStr (toHex_address J (getTo f)))"
  "map_of (last (js_enter J f [])) ''value'' = map_option (\<lambda>v. hexNumber J (uint v)) (getValue f)"
  "map_of (last (js_enter J f [])) ''error'' = None"
  by (simp_all add: js_enter_def)

lemma enter_no_calls: "map_of (last (js_enter J f [])) ''calls'' = None"
  by (simp add: js_enter_def)

lemma call_object_fields:
  "map_of (call_object J (Execution f r cs)) ''type'' = Some (JStr (getType f))"
  "map_of (call_object J (Execution f r cs)) ''from'' = Some (JStr (toHex_address J (getFrom f)))"
  "map_of (call_object J (Execution f r cs)) ''to'' =
     (if getError r \<noteq> None \<and> is_create (getType f) then None else Some (JStr (toHex_address J (getTo f))))"
  "map_of (call_object J (Execution f r cs)) ''value'' = map_option (\<lambda>v. hexNumber J (uint v)) (getValue f)"
  "map_of (call_object J (Execution f r cs)) ''gasUsed'' = Some (hexNumber J (uint (getGasUsed r)))"
  "map_of (call_object J (Execution f r cs)) ''error'' = map_option JStr (getError r)"
  "map_of (call_object J (Execution f r cs)) ''calls'' =
     (if cs = [] then None else Some (JArr (map (\<lambda>c. JObj (call_object J c)) cs)))"
  by (simp_all add: close_call_def Let_def map_of_push_calls [OF enter_no_calls] enter_fields enter_no_calls is_create_def
      o_def split: option.split)

section \<open>Decoding what the script returns\<close>

lemma ptr_value_simps [simp]:
  "ptr_value dec None = Ok None"
  "ptr_value dec (Some (JStr s)) = andThen (dec (JStr s)) (\<lambda>x. Ok (Some x))"
  "ptr_value dec (Some (JObj ps)) = andThen (dec (JObj ps)) (\<lambda>x. Ok (Some x))"
  "ptr_value dec (Some (hexNumber J n)) = andThen (dec (hexNumber J n)) (\<lambda>x. Ok (Some x))"
  by (simp_all add: ptr_value_def hexNumber_def)

lemma js_lawsD:
  assumes "js_laws G J"
  shows "address_of_json G (JStr (toHex_address J a)) = Ok a"
    and "big_of_json G (hexNumber J (uint (v :: 256 word))) = Ok (uint v)"
    and "big_of_json G (hexNumber J (uint (g :: uint64))) = Ok (uint g)"
proof -
  have "uint v < 2 ^ 256" and "uint g < 2 ^ 64" using uint_lt2p [of v] uint_lt2p [of g] by simp_all
  moreover have "(2::int) ^ 64 < 2 ^ 256" by simp
  ultimately show "big_of_json G (hexNumber J (uint (v :: 256 word))) = Ok (uint v)"
    and "big_of_json G (hexNumber J (uint (g :: uint64))) = Ok (uint g)"
    and "address_of_json G (JStr (toHex_address J a)) = Ok a"
    using assms unfolding js_laws_def hexNumber_def by (meson less_trans uint_ge_0)+
qed

text \<open>The decoder on an object of the script, by the properties of the object.\<close>

lemma decode_finalized:
  assumes "js_laws G J"
    and "map_of ps ''type'' = Some (JStr ty)" and "map_of ps ''from'' = Some (JStr (toHex_address J frm))"
    and "map_of ps ''to'' = map_option (\<lambda>a. JStr (toHex_address J a)) dst"
    and "map_of ps ''value'' = map_option (\<lambda>v. hexNumber J (uint v)) (val :: 256 word option)"
    and "map_of ps ''gasUsed'' = Some (hexNumber J (uint (gas :: uint64)))"
    and "map_of ps ''error'' = map_option JStr er"
    and "map_of ps ''calls'' = (if os = [] then None else Some (JArr (map JObj os)))"
    and "\<And>ob. ob \<in> set os \<Longrightarrow> call_unmarshal G (finalize (JObj ob)) = Ok (g ob)"
  shows "call_unmarshal G (finalize (JObj ps)) =
    Ok (Call ty frm (case dst of None \<Rightarrow> 0 | Some a \<Rightarrow> a) (case val of None \<Rightarrow> 0 | Some v \<Rightarrow> uint v) (uint gas)
      (message_of er \<noteq> []) (message_of er) (map (\<lambda>ob. Some (g ob)) os))"
proof -
  define calls where "calls = (if os = [] then None else Some (JArr (map (\<lambda>ob. finalize (JObj ob)) os)))"
  have fin: "finalize (JObj ps) = JObj (sorted_props ps @ js_some ''calls'' calls)"
    using assms(8) by (simp add: calls_def o_def)
  have "mapM (\<lambda>j. ptr_value (call_unmarshal G) (Some j)) (map (\<lambda>ob. finalize (JObj ob)) os)
      = Ok (map (\<lambda>ob. Some (g ob)) os)"
    using assms(9) by (induction os) simp_all
  then have calls: "arr_value (call_unmarshal G) calls = Ok (map (\<lambda>ob. Some (g ob)) os)"
    by (simp add: calls_def)
  show ?thesis
    unfolding fin
    by (subst call_unmarshal.simps)
       (simp add: sorted_fields assms(2-7) calls json_get_defs val_value_def js_lawsD [OF assms(1)]
          call_of_dec_def message_of_def split: option.split)
qed

lemma finalize_is_obj: "\<exists>ps. finalize j = JObj ps"
  by (cases j) simp_all

lemma decode_call_object:
  assumes "js_laws G J"
  shows "call_unmarshal G (finalize (JObj (call_object J x))) = Ok (call_tree x)"
proof (induction x)
  case (Execution f r cs)
  define g where "g ob = (case call_unmarshal G (finalize (JObj ob)) of Ok c \<Rightarrow> c)" for ob
  have g: "g (call_object J c) = call_tree c" if "c \<in> set cs" for c
    using Execution.IH [OF that] by (simp add: g_def)
  have "call_unmarshal G (finalize (JObj (call_object J (Execution f r cs)))) =
    Ok (Call (getType f) (getFrom f)
      (case (if getError r \<noteq> None \<and> is_create (getType f) then None else Some (getTo f)) of None \<Rightarrow> 0 | Some a \<Rightarrow> a)
      (case getValue f of None \<Rightarrow> 0 | Some v \<Rightarrow> uint v) (uint (getGasUsed r))
      (message_of (getError r) \<noteq> []) (message_of (getError r)) (map (\<lambda>ob. Some (g ob)) (map (call_object J) cs)))"
  proof (rule decode_finalized [OF assms])
    show "call_unmarshal G (finalize (JObj ob)) = Ok (g ob)" if "ob \<in> set (map (call_object J) cs)" for ob
      using that Execution.IH g by auto
  qed (simp_all only: call_object_fields, simp_all add: o_def)
  then show ?case by (simp add: g cong: map_cong)
qed

lemma result_fields:
  assumes "map_of bottom ''error'' = None"
  shows "map_of (result_object J ctx bottom) ''type'' = Some (JStr (ctx_type ctx))"
    and "map_of (result_object J ctx bottom) ''from'' = Some (JStr (toHex_address J (ctx_from ctx)))"
    and "map_of (result_object J ctx bottom) ''to'' = Some (JStr (toHex_address J (ctx_to ctx)))"
    and "map_of (result_object J ctx bottom) ''value'' = Some (hexNumber J (uint (ctx_value ctx)))"
    and "map_of (result_object J ctx bottom) ''gasUsed'' = Some (hexNumber J (uint (ctx_gasUsed ctx)))"
    and "map_of (result_object J ctx bottom) ''error'' = map_option JStr (ctx_error ctx)"
    and "map_of (result_object J ctx bottom) ''calls'' = map_of bottom ''calls''"
proof -
  define r where "r = [(''type'', JStr (ctx_type ctx)),
            (''from'', JStr (toHex_address J (ctx_from ctx))),
            (''to'', JStr (toHex_address J (ctx_to ctx))),
            (''value'', hexNumber J (uint (ctx_value ctx))),
            (''gas'', hexNumber J (uint (ctx_gas ctx))),
            (''gasUsed'', hexNumber J (uint (ctx_gasUsed ctx))),
            (''input'', JStr (toHex_bytes J (ctx_input ctx))),
            (''output'', JStr (toHex_bytes J (ctx_output ctx)))]
           @ js_some ''calls'' (map_of bottom ''calls'')
           @ js_some ''error'' (map_option JStr (ctx_error ctx))"
  have "map_of (result_object J ctx bottom) k = map_of r k" if "k \<noteq> ''output''" for k
    using that assms unfolding result_object_def Let_def r_def by simp
  then show "map_of (result_object J ctx bottom) ''type'' = Some (JStr (ctx_type ctx))"
    and "map_of (result_object J ctx bottom) ''from'' = Some (JStr (toHex_address J (ctx_from ctx)))"
    and "map_of (result_object J ctx bottom) ''to'' = Some (JStr (toHex_address J (ctx_to ctx)))"
    and "map_of (result_object J ctx bottom) ''value'' = Some (hexNumber J (uint (ctx_value ctx)))"
    and "map_of (result_object J ctx bottom) ''gasUsed'' = Some (hexNumber J (uint (ctx_gasUsed ctx)))"
    and "map_of (result_object J ctx bottom) ''error'' = map_option JStr (ctx_error ctx)"
    and "map_of (result_object J ctx bottom) ''calls'' = map_of bottom ''calls''"
    by (simp_all add: r_def map_add_def split: option.split)
qed

lemma decode_result:
  assumes "js_laws G J"
  shows "call_unmarshal G (trace_transaction J ctx (concat (map events_of cs))) = Ok (transaction_tree ctx cs)"
proof -
  define os where "os = map (call_object J) cs"
  define bottom where "bottom = fold push_call os []"
  have "tracer_run J (concat (map events_of cs)) callstack0 = [bottom]"
    using tracer_run_calls [of J cs "[]" "[]"] by (simp add: callstack0_def bottom_def os_def)
  then have fin: "trace_transaction J ctx (concat (map events_of cs)) = finalize (JObj (result_object J ctx bottom))"
    by (simp add: trace_transaction_def js_result_def)
  have bottom: "map_of bottom ''error'' = None"
    "map_of bottom ''calls'' = (if os = [] then None else Some (JArr (map JObj os)))"
    using map_of_push_calls [of "[]" os] by (simp_all add: bottom_def)
  define g where "g ob = (case call_unmarshal G (finalize (JObj ob)) of Ok c \<Rightarrow> c)" for ob
  have g: "g (call_object J c) = call_tree c" for c
    using decode_call_object [OF assms] by (simp add: g_def)
  have "call_unmarshal G (finalize (JObj (result_object J ctx bottom))) = Ok (Call (ctx_type ctx) (ctx_from ctx)
      (case Some (ctx_to ctx) of None \<Rightarrow> 0 | Some a \<Rightarrow> a) (case Some (ctx_value ctx) of None \<Rightarrow> 0 | Some v \<Rightarrow> uint v)
      (uint (ctx_gasUsed ctx)) (message_of (ctx_error ctx) \<noteq> []) (message_of (ctx_error ctx)) (map (\<lambda>ob. Some (g ob)) os))"
  proof (rule decode_finalized [OF assms])
    show "call_unmarshal G (finalize (JObj ob)) = Ok (g ob)" if "ob \<in> set os" for ob
      using that decode_call_object [OF assms] g by (auto simp: os_def)
  qed (simp_all add: result_fields [OF bottom(1)] bottom(2))
  then show ?thesis by (simp add: fin transaction_tree_def os_def g o_def)
qed

section \<open>Order of the calls\<close>

fun entered :: "tracer_event list \<Rightarrow> frame list" where
  "entered [] = []"
| "entered (Enter f # es) = f # entered es"
| "entered (_ # es) = entered es"

definition frame_key :: "frame \<Rightarrow> string \<times> address \<times> int" where
  "frame_key f = (getType f, getFrom f, case getValue f of None \<Rightarrow> 0 | Some v \<Rightarrow> uint v)"

definition flat_key :: "flat_call \<Rightarrow> string \<times> address \<times> int" where
  "flat_key x = (fc_type x, fc_from x, fc_value x)"

lemma flat_key_simps [simp]:
  "flat_key \<lparr>fc_type = ty, fc_from = f, fc_to = t, fc_value = v, fc_gas_used = g, fc_revert = r, fc_error = e\<rparr>
     = (ty, f, v)"
  by (simp add: flat_key_def)

lemma entered_append [simp]: "entered (es @ es') = entered es @ entered es'"
  by (induction es rule: entered.induct) simp_all

lemma entered_concat: "entered (concat (map events_of cs)) = concat (map (\<lambda>c. entered (events_of c)) cs)"
  by (induction cs) simp_all

lemma inherit_entered: "map flat_key (inherit rv er (call_tree x)) = map frame_key (entered (events_of x))"
proof (induction x arbitrary: rv er)
  case (Execution f r cs)
  have "map flat_key (inherit rv' er' (call_tree c)) = map frame_key (entered (events_of c))" if "c \<in> set cs" for c rv' er'
    using Execution.IH [OF that] .
  then show ?case
    by (simp add: Let_def map_concat entered_concat o_def frame_key_def cong: map_cong)
qed

lemma call_tree_wf: "call_wf (call_tree x)"
  by (induction x) auto

lemma transaction_tree_wf: "call_wf (transaction_tree ctx cs)"
  by (auto simp: transaction_tree_def call_tree_wf)

lemma transaction_entered:
  "map flat_key (inherit False [] (transaction_tree ctx cs)) =
     (ctx_type ctx, ctx_from ctx, uint (ctx_value ctx)) # map frame_key (entered (concat (map events_of cs)))"
proof -
  have "map flat_key (inherit rv er (transaction_tree ctx cs)) =
     (ctx_type ctx, ctx_from ctx, uint (ctx_value ctx)) # map frame_key (entered (concat (map events_of cs)))" for rv er
    unfolding transaction_tree_def
    by (simp add: Let_def map_concat entered_concat o_def inherit_entered cong: map_cong)
  then show ?thesis .
qed

section \<open>A node that runs the script\<close>

text \<open>The reply to \<open>debug_traceBlockByHash\<close> for transactions that were executed as \<open>txs\<close> says.\<close>

definition block_reply :: "js_lib \<Rightarrow> (tracer_ctx \<times> execution list) list \<Rightarrow> json" where
  "block_reply J txs =
     JArr (map (\<lambda>(ctx, cs). JObj [(''result'', trace_transaction J ctx (concat (map events_of cs)))]) txs)"

text \<open>The calls of the virtual machine have the types the API declares.\<close>

fun evm_execution :: "execution \<Rightarrow> bool" where
  "evm_execution (Execution f r cs) \<longleftrightarrow> getType f \<in> set OperationTypes \<and> (\<forall>c \<in> set cs. evm_execution c)"

definition evm_transaction :: "tracer_ctx \<times> execution list \<Rightarrow> bool" where
  "evm_transaction t \<longleftrightarrow> ctx_type (fst t) \<in> set OperationTypes \<and> (\<forall>c \<in> set (snd t). evm_execution c)"

definition runs_script :: "js_lib \<Rightarrow> 'w client \<Rightarrow> bool" where
  "runs_script J ec \<longleftrightarrow> (\<forall>h w raw w'. call_context (cl_node ec) ''debug_traceBlockByHash''
      [JStr (hash_hex (cl_geth ec) h), cl_tc ec] w = (Ok raw, w') \<longrightarrow>
    (\<exists>txs. raw = Some (block_reply J txs) \<and> (\<forall>t \<in> set txs. evm_transaction t)))"

lemma call_tree_declared: "evm_execution x \<Longrightarrow> call_declared (call_tree x)"
  by (induction x) auto

lemma transaction_tree_declared: "evm_transaction t \<Longrightarrow> call_declared (transaction_tree (fst t) (snd t))"
  by (auto simp: evm_transaction_def transaction_tree_def call_tree_declared)

lemma decode_block_reply:
  assumes "js_laws G J"
  shows "arr_value (rpcCall_of_json G) (Some (block_reply J txs)) =
     Ok (map (\<lambda>t. Some (Some (transaction_tree (fst t) (snd t)))) txs)"
    and "arr_value rpcRawCall_of_json (Some (block_reply J txs)) =
     Ok (map (\<lambda>t. Some (Some (trace_transaction J (fst t) (concat (map events_of (snd t)))))) txs)"
proof -
  have f: "json_field ''result'' [(''result'', j)] = Some j" for j
    by (simp add: json_field_def)
  have d: "ptr_value (call_unmarshal G) (Some (trace_transaction J ctx (concat (map events_of cs))))
      = Ok (Some (transaction_tree ctx cs))" for ctx cs
  proof -
    obtain ps where "trace_transaction J ctx (concat (map events_of cs)) = JObj ps"
      using finalize_is_obj unfolding trace_transaction_def js_result_def by blast
    with decode_result [OF assms, of ctx cs] show ?thesis by simp
  qed
  show "arr_value (rpcCall_of_json G) (Some (block_reply J txs)) =
     Ok (map (\<lambda>t. Some (Some (transaction_tree (fst t) (snd t)))) txs)"
    by (induction txs) (auto simp: block_reply_def rpcCall_of_json_def f d)
  show "arr_value rpcRawCall_of_json (Some (block_reply J txs)) =
     Ok (map (\<lambda>t. Some (Some (trace_transaction J (fst t) (concat (map events_of (snd t)))))) txs)"
    by (induction txs) (auto simp: block_reply_def rpcRawCall_of_json_def f)
qed

lemma script_traces:
  assumes "js_laws (cl_geth ec) J" and "sem_acquire (cl_node ec) w = (Ok u, w1)"
    and "call_context (cl_node ec) ''debug_traceBlockByHash'' [JStr (hash_hex (cl_geth ec) h), cl_tc ec] w1
      = (Ok (Some (block_reply J txs)), w2)"
  shows "getBlockTraces ec h w = (Ok (map (\<lambda>t. Some (Some (transaction_tree (fst t) (snd t)))) txs,
      map (\<lambda>t. Some (Some (trace_transaction J (fst t) (concat (map events_of (snd t)))))) txs),
      sem_release (cl_node ec) w2)"
  using assms(2,3) decode_block_reply [OF assms(1)]
  by (simp add: getBlockTraces_def io_bind_def io_defer_def io_lift_def json_parse_def)

section \<open>Properties\<close>

text \<open>
  C7. The tracer reports what was executed: after the events of a transaction that made the calls
  \<open>cs\<close>, the object the script returns decodes to exactly the tree of those calls, each with its
  type, accounts, value, gas and error message; only the address of a contract that an inner call failed to
  create is missing.
\<close>

theorem tracer_reports_execution:
  assumes "js_laws G J"
  shows "call_unmarshal G (trace_transaction J ctx (concat (map events_of cs))) = Ok (transaction_tree ctx cs)"
  by (rule decode_result [OF assms])

text \<open>
  C30. Whatever events arrive, matched or not, the stack of the tracer never runs empty and its
  bottom only ever collects calls, so the report always carries the transaction's own type and error; and the events of
  a complete call leave the stack as it was but for that call being added to its caller.
\<close>

theorem tracer_stack_invariant:
  "tracer_run J es callstack0 \<noteq> [] \<and> dom (map_of (tracer_run J es callstack0 ! 0)) \<subseteq> {''calls''}
   \<and> (\<exists>ps. trace_transaction J ctx es = JObj ps \<and> json_field ''error'' ps = map_option JStr (ctx_error ctx)
        \<and> json_field ''type'' ps = Some (JStr (ctx_type ctx)))
   \<and> tracer_run J (es @ events_of x) callstack0 =
       butlast (tracer_run J es callstack0) @ [push_call (call_object J x) (last (tracer_run J es callstack0))]"
proof -
  define ok where "ok = (\<lambda>st :: callstack. st \<noteq> [] \<and> dom (map_of (st ! 0)) \<subseteq> {''calls''})"
  have step: "ok (tracer_step J e st)" if "ok st" for e st
  proof (cases e)
    case (Exit r)
    show ?thesis
    proof (cases "length st > 1")
      case True
      then obtain st' p c where st: "st = st' @ [p, c]"
        by (metis (no_types) One_nat_def append.assoc append_Cons append_Nil append_butlast_last_id
            length_0_conv length_append_singleton less_numeral_extra(3,4) list.size(3) not_less_zero Suc_less_eq)
      with \<open>ok st\<close> Exit show ?thesis
        using js_exit_top [of J r st' p c] by (cases st') (simp_all add: ok_def)
    qed (use that Exit in \<open>simp add: js_exit_def\<close>)
  qed (use that in \<open>auto simp: ok_def js_enter_def js_fault_def nth_append\<close>)
  have run: "ok st \<Longrightarrow> ok (tracer_run J es st)" for st
    by (induction es arbitrary: st) (simp_all add: step)
  define st where "st = tracer_run J es callstack0"
  have inv: "ok st" unfolding st_def by (rule run) (simp add: ok_def callstack0_def)
  then have err: "map_of (st ! 0) ''error'' = None" by (auto simp: ok_def)
  have "\<exists>ps. trace_transaction J ctx es = JObj ps \<and> json_field ''error'' ps = map_option JStr (ctx_error ctx)
        \<and> json_field ''type'' ps = Some (JStr (ctx_type ctx))"
    by (simp add: trace_transaction_def js_result_def st_def [symmetric] sorted_fields result_fields [OF err])
  moreover have "tracer_run J (es @ events_of x) callstack0 = butlast st @ [push_call (call_object J x) (last st)]"
    using tracer_run_call [of J x "butlast st" "last st"] inv by (simp add: st_def [symmetric] ok_def)
  ultimately show ?thesis using inv unfolding st_def ok_def by blast
qed

text \<open>
  From the interpreter to the operations: the report of the tracer decodes, it flattens without a
  panic, and the flattened calls are the transaction followed by the calls in the
  order the interpreter entered them, with their types, callers and values.
\<close>

theorem traces_in_execution_order:
  assumes "js_laws G J"
  shows "\<exists>c fs. call_unmarshal G (trace_transaction J ctx (concat (map events_of cs))) = Ok c
    \<and> flattenTraces c [] = Ok fs
    \<and> map flat_key fs = (ctx_type ctx, ctx_from ctx, uint (ctx_value ctx))
        # map frame_key (entered (concat (map events_of cs)))"
  using decode_result [OF assms, of ctx cs] transaction_entered [of ctx cs]
    flatten_eq(1) [of "[]" "transaction_tree ctx cs"] transaction_tree_wf [of ctx cs] by simp

text \<open>
  A node that runs the script keeps the client's law about tracers: if every reply to
  \<open>debug_traceBlockByHash\<close> comes from the script and the calls executed have the types of the virtual machine,
  then all traces the client decodes have types the API declares.
\<close>

theorem script_keeps_tracer_law:
  assumes "js_laws (cl_geth ec) J" and "runs_script J ec"
  shows "tracer_law ec"
  unfolding tracer_law_def
proof (intro allI impI)
  fix h w calls rawCalls w' c
  assume t: "getBlockTraces ec h w = (Ok (calls, rawCalls), w')" and c: "Some (Some c) \<in> set calls"
  obtain u w1 where acq: "sem_acquire (cl_node ec) w = (Ok u, w1)"
    using t unfolding getBlockTraces_def by (elim io_bindE)
  obtain raw w2 where call: "call_context (cl_node ec) ''debug_traceBlockByHash''
      [JStr (hash_hex (cl_geth ec) h), cl_tc ec] w1 = (Ok raw, w2)"
    using t acq unfolding getBlockTraces_def
    by (auto simp: io_bind_def io_defer_def split: prod.splits result.splits)
  from assms(2) call obtain txs where txs: "raw = Some (block_reply J txs)" "\<forall>t \<in> set txs. evm_transaction t"
    unfolding runs_script_def by blast
  from script_traces [OF assms(1) acq] call txs(1) t
  have "calls = map (\<lambda>t. Some (Some (transaction_tree (fst t) (snd t)))) txs" by simp
  with c txs(2) show "call_declared c" using transaction_tree_declared by fastforce
qed

section \<open>Concrete instances of the properties\<close>

definition demo_js :: js_lib where
  "demo_js = \<lparr>toHex_address = address_json standin, toHex_bytes = encode_bytes standin,
     toString16 = (\<lambda>n. digits 16 (nat n))\<rparr>"

lemma demo_js_laws: "js_laws standin demo_js"
proof -
  have "parse0x (CHR ''0'' # CHR ''x'' # digits 16 n) = Some n" for n
    using parse0x_hex0x [of n] by (simp add: hex0x_def)
  then show ?thesis by (simp add: js_laws_def demo_js_def standin_def)
qed

text \<open>A transaction that makes two calls; the first fails to create a contract and had called another one.\<close>

definition demo_call :: execution where
  "demo_call = Execution
     \<lparr>getType = ''CREATE'', getFrom = 5, getTo = 9, getInput = [1], getGas = 900, getValue = Some 3\<rparr>
     \<lparr>getGasUsed = 400, getOutput = [], getError = Some ''out of gas''\<rparr>
     [Execution \<lparr>getType = ''STATICCALL'', getFrom = 9, getTo = 6, getInput = [], getGas = 100, getValue = None\<rparr>
        \<lparr>getGasUsed = 16, getOutput = [255], getError = None\<rparr> []]"

definition demo_calls :: "execution list" where
  "demo_calls = [demo_call, Execution
     \<lparr>getType = ''CALL'', getFrom = 5, getTo = 7, getInput = [], getGas = 50, getValue = Some 0\<rparr>
     \<lparr>getGasUsed = 0, getOutput = [], getError = None\<rparr> []]"

definition demo_ctx :: tracer_ctx where
  "demo_ctx = \<lparr>ctx_type = ''CALL'', ctx_from = 1, ctx_to = 5, ctx_value = 11, ctx_gas = 2000, ctx_gasUsed = 1500,
     ctx_input = [], ctx_output = [], ctx_error = None\<rparr>"

theorem tracer_reports_execution_witness:
  "call_unmarshal standin (trace_transaction demo_js demo_ctx (concat (map events_of demo_calls))) =
     Ok (Call ''CALL'' 1 5 11 1500 False []
       [Some (Call ''CREATE'' 5 0 3 400 True ''out of gas'' [Some (Call ''STATICCALL'' 9 6 0 16 False [] [])]),
        Some (Call ''CALL'' 5 7 0 0 False [] [])])"
proof -
  have "transaction_tree demo_ctx demo_calls = Call ''CALL'' 1 5 11 1500 False []
       [Some (Call ''CREATE'' 5 0 3 400 True ''out of gas'' [Some (Call ''STATICCALL'' 9 6 0 16 False [] [])]),
        Some (Call ''CALL'' 5 7 0 0 False [] [])]"
    by (simp add: transaction_tree_def demo_ctx_def demo_calls_def demo_call_def is_create_def message_of_def)
  with tracer_reports_execution [OF demo_js_laws, of demo_ctx demo_calls] show ?thesis by simp
qed

theorem traces_in_execution_order_witness:
  "\<exists>c fs. call_unmarshal standin (trace_transaction demo_js demo_ctx (concat (map events_of demo_calls))) = Ok c
     \<and> flattenTraces c [] = Ok fs
     \<and> map flat_key fs = [(''CALL'', 1, 11), (''CREATE'', 5, 3), (''STATICCALL'', 9, 0), (''CALL'', 5, 0)]"
proof -
  have "(ctx_type demo_ctx, ctx_from demo_ctx, uint (ctx_value demo_ctx))
      # map frame_key (entered (concat (map events_of demo_calls)))
    = [(''CALL'', 1, 11), (''CREATE'', 5, 3), (''STATICCALL'', 9, 0), (''CALL'', 5, 0)]"
    by (simp add: demo_ctx_def demo_calls_def demo_call_def frame_key_def)
  with traces_in_execution_order [OF demo_js_laws, of demo_ctx demo_calls] show ?thesis by simp
qed

text \<open>A node that answers every request for traces with the script's report on this transaction.\<close>

definition script_client :: "int client" where
  "script_client = mock_client\<lparr>cl_node := mock_node\<lparr>call_context :=
     (\<lambda>m args held. (Ok (Some (block_reply demo_js [(demo_ctx, demo_calls)])), held))\<rparr>\<rparr>"

lemma script_client_runs: "runs_script demo_js script_client"
proof -
  have "\<forall>t \<in> set [(demo_ctx, demo_calls)]. evm_transaction t"
    by (simp add: evm_transaction_def demo_ctx_def demo_calls_def demo_call_def OperationTypes_def op_type_defs)
  then show ?thesis unfolding runs_script_def script_client_def by (auto intro: exI [of _ "[(demo_ctx, demo_calls)]"])
qed

theorem script_keeps_tracer_law_witness:
  "tracer_law script_client
   \<and> fst (getBlockTraces script_client 7 0) = Ok ([Some (Some (transaction_tree demo_ctx demo_calls))],
       [Some (Some (trace_transaction demo_js demo_ctx (concat (map events_of demo_calls))))])"
proof
  have G: "cl_geth script_client = standin" by (simp add: script_client_def)
  show "tracer_law script_client"
    by (rule script_keeps_tracer_law [OF _ script_client_runs]) (simp add: G demo_js_laws)
  have "getBlockTraces script_client 7 0 = (Ok (map (\<lambda>t. Some (Some (transaction_tree (fst t) (snd t)))) [(demo_ctx, demo_calls)],
      map (\<lambda>t. Some (Some (trace_transaction demo_js (fst t) (concat (map events_of (snd t)))))) [(demo_ctx, demo_calls)]),
      sem_release (cl_node script_client) 1)"
    by (rule script_traces) (simp_all add: G demo_js_laws, simp_all add: script_client_def mock_node_def)
  then show "fst (getBlockTraces script_client 7 0) = Ok ([Some (Some (transaction_tree demo_ctx demo_calls))],
       [Some (Some (trace_transaction demo_js demo_ctx (concat (map events_of demo_calls))))])" by simp
qed
end
