(* ===== verification/Machine.thy ===== *)
theory Machine
  imports CallTracer
begin

text \<open>
  What the operations of a transaction are meant to be: an abstract machine with one balance for every account,
  which undoes a call that fails with everything the call did. \<open>execute\<close> runs the tree of calls of
  \<open>CallTracer\<close> on it, written after the documented behaviour of the virtual machine and not after the
  code; the theorems compare its final balances with the operations the code makes of the tracer's report.
\<close>

section \<open>The machine\<close>

record machine =
  mc_balance :: "address \<Rightarrow> int"
  mc_dead :: "address set"

definition pay :: "address \<Rightarrow> address \<Rightarrow> int \<Rightarrow> (address \<Rightarrow> int) \<Rightarrow> address \<Rightarrow> int" where
  "pay f t v b = (let b' = b(f := b f - v) in b'(t := b' t + v))"

text \<open>
  The start of a call: calls and creations pay their value, a self-destruct hands over all its account has
  (nothing is left of it if the account names itself) and marks the account; \<open>CALLCODE\<close>,
  \<open>DELEGATECALL\<close> and \<open>STATICCALL\<close> run code on the caller's own account and pay nothing.
\<close>

definition begin_call :: "string \<Rightarrow> address \<Rightarrow> address \<Rightarrow> int \<Rightarrow> machine \<Rightarrow> machine" where
  "begin_call ty f t v s =
     (if ty = SelfDestructOpType then
        s\<lparr>mc_balance := (if f = t then (mc_balance s)(f := 0) else pay f t (mc_balance s f) (mc_balance s)),
          mc_dead := insert f (mc_dead s)\<rparr>
      else if ty \<in> {CallOpType, CreateOpType, Create2OpType} then s\<lparr>mc_balance := pay f t v (mc_balance s)\<rparr>
      else s)"

definition frame_value :: "frame \<Rightarrow> int" where
  "frame_value f = (case getValue f of None \<Rightarrow> 0 | Some v \<Rightarrow> uint v)"

definition begin_frame :: "frame \<Rightarrow> machine \<Rightarrow> machine" where
  "begin_frame f = begin_call (getType f) (getFrom f) (getTo f) (frame_value f)"

fun execute :: "execution \<Rightarrow> machine \<Rightarrow> machine" where
  "execute (Execution f r cs) s = (if getError r = None then fold execute cs (begin_frame f s) else s)"

definition execute_transaction :: "tracer_ctx \<Rightarrow> execution list \<Rightarrow> machine \<Rightarrow> machine" where
  "execute_transaction ctx cs s =
     (if ctx_error ctx = None
      then fold execute cs (begin_call (ctx_type ctx) (ctx_from ctx) (ctx_to ctx) (uint (ctx_value ctx)) s)
      else s)"

text \<open>At the end of a transaction the destroyed accounts are removed with what they have.\<close>

definition final_balance :: "machine \<Rightarrow> address \<Rightarrow> int" where
  "final_balance s a = (if a \<in> mc_dead s then 0 else mc_balance s a)"

section \<open>Executions of the virtual machine\<close>

text \<open>
  What the machine checks of a call when it starts: an error has a message; a self-destruct does not fail,
  calls nothing and is reported with the balance it hands over (the account of a contract, which is never
  the address 0); a payment is covered unless the call fails; no contract is created on a destroyed account.
\<close>

definition call_allowed :: "string \<Rightarrow> address \<Rightarrow> address \<Rightarrow> int \<Rightarrow> string option \<Rightarrow> machine \<Rightarrow> bool" where
  "call_allowed ty f t v er s \<longleftrightarrow> er \<noteq> Some []
     \<and> (if ty = SelfDestructOpType then er = None \<and> f \<noteq> 0 \<and> v = mc_balance s f
        else ty \<in> {CallOpType, CreateOpType, Create2OpType} \<and> er = None \<longrightarrow> v \<le> mc_balance s f)
     \<and> (CreateType ty \<and> er = None \<longrightarrow> t \<notin> mc_dead s)"

fun allowed :: "execution \<Rightarrow> machine \<Rightarrow> bool" and all_allowed :: "execution list \<Rightarrow> machine \<Rightarrow> bool" where
  "allowed (Execution f r cs) s \<longleftrightarrow>
     call_allowed (getType f) (getFrom f) (getTo f) (frame_value f) (getError r) s \<and> all_allowed cs (begin_frame f s)"
| "all_allowed [] s \<longleftrightarrow> True"
| "all_allowed (c # cs) s \<longleftrightarrow> allowed c s \<and> all_allowed cs (execute c s)"

definition transaction_allowed :: "tracer_ctx \<Rightarrow> execution list \<Rightarrow> machine \<Rightarrow> bool" where
  "transaction_allowed ctx cs s \<longleftrightarrow> ctx_type ctx \<in> {CallOpType, CreateOpType}
     \<and> call_allowed (ctx_type ctx) (ctx_from ctx) (ctx_to ctx) (uint (ctx_value ctx)) (ctx_error ctx) s
     \<and> all_allowed cs (begin_call (ctx_type ctx) (ctx_from ctx) (ctx_to ctx) (uint (ctx_value ctx)) s)"

text \<open>
  The accounts the code misreports: that of a self-destruct that is undone because a call around it fails, and
  the two parties of a call that pays nothing, is not undone and is reported with a value.
\<close>

definition misread :: "address \<Rightarrow> bool \<Rightarrow> string \<Rightarrow> address \<Rightarrow> address \<Rightarrow> int \<Rightarrow> bool" where
  "misread a undone ty f t v \<longleftrightarrow>
     (if ty = SelfDestructOpType then undone \<and> a = f
      else ty \<notin> {CallOpType, CreateOpType, Create2OpType} \<and> \<not> undone \<and> v \<noteq> 0 \<and> a \<in> {f, t})"

fun misreads :: "address \<Rightarrow> bool \<Rightarrow> execution \<Rightarrow> bool" where
  "misreads a undone (Execution f r cs) \<longleftrightarrow>
     (let u = undone \<or> getError r \<noteq> None
      in misread a u (getType f) (getFrom f) (getTo f) (frame_value f) \<or> (\<exists>c \<in> set cs. misreads a u c))"

definition transaction_misreads :: "address \<Rightarrow> tracer_ctx \<Rightarrow> execution list \<Rightarrow> bool" where
  "transaction_misreads a ctx cs \<longleftrightarrow> (\<exists>c \<in> set cs. misreads a (ctx_error ctx \<noteq> None) c)"

section \<open>The ledger of a list of calls\<close>

text \<open>
  The correspondence: \<open>live\<close> says that the calls are not inside one that failed; otherwise the ledger leaves
  them out and the machine will undo them. \<open>D\<close> is the checksums of the accounts destroyed so far; a call inside
  one that failed sees more of them destroyed than will stay so.
\<close>

definition same_balances :: "geth \<Rightarrow> (string \<Rightarrow> int) \<Rightarrow> machine \<Rightarrow> bool" where
  "same_balances G bal s \<longleftrightarrow> (\<forall>a. bal (address_hex G a) = mc_balance s a \<and> 0 \<le> mc_balance s a)"

definition marks :: "geth \<Rightarrow> bool \<Rightarrow> string set \<Rightarrow> machine \<Rightarrow> bool" where
  "marks G live D s \<longleftrightarrow> D \<subseteq> address_hex G ` mc_dead s \<and> (live \<longrightarrow> D = address_hex G ` mc_dead s) \<and> 0 \<notin> mc_dead s"

definition follows ::
    "geth \<Rightarrow> bool \<Rightarrow> flat_call list \<Rightarrow> string set \<Rightarrow> (string \<Rightarrow> int) \<Rightarrow> machine \<Rightarrow> bool" where
  "follows G live fs D bal s' \<longleftrightarrow> evm_ok G fs D bal
     \<and> (if live then same_balances G (ledger G fs bal) s' else ledger G fs bal = bal \<and> destroyed G fs = {})
     \<and> marks G live (D \<union> destroyed G fs) s'"

lemma follows_Nil: "marks G live D s \<Longrightarrow> (live \<longrightarrow> same_balances G bal s) \<Longrightarrow> follows G live [] D bal s"
  by (simp add: follows_def)

lemma follows_append:
  "follows G live xs D bal s \<Longrightarrow> follows G live ys (D \<union> destroyed G xs) (ledger G xs bal) s'
    \<Longrightarrow> follows G live (xs @ ys) D bal s'"
  by (simp add: follows_def Un_assoc split: if_splits)

lemma followsD:
  assumes "follows G live fs D bal s"
  shows "marks G live (D \<union> destroyed G fs) s" and "live \<longrightarrow> same_balances G (ledger G fs bal) s"
  using assms by (auto simp: follows_def)

text \<open>When the calls were undone, the machine is where it was before them.\<close>

lemma follows_failed:
  "follows G False fs D bal s' \<Longrightarrow> marks G live D s \<Longrightarrow> live \<longrightarrow> same_balances G bal s \<Longrightarrow> follows G live fs D bal s"
  by (simp add: follows_def)

section \<open>The start of a call\<close>

lemma op_types_distinct:
  "SelfDestructOpType \<noteq> CallOpType" "SelfDestructOpType \<noteq> CreateOpType" "SelfDestructOpType \<noteq> Create2OpType"
  "\<not> CreateType SelfDestructOpType" "\<not> CreateType CallOpType" "CreateType CreateOpType" "CreateType Create2OpType"
  "CreateType ty \<longleftrightarrow> ty = CreateOpType \<or> ty = Create2OpType" "is_create ty \<longleftrightarrow> CreateType ty"
  by (auto simp: CreateType_def is_create_def op_type_defs)

lemma begin_dead [simp]:
  "mc_dead (begin_call ty f t v s) = (if ty = SelfDestructOpType then insert f (mc_dead s) else mc_dead s)"
  by (simp add: begin_call_def)

text \<open>\<open>t'\<close> is the address the tracer reports: none (0) for an inner creation that failed.\<close>

lemma follows_begin:
  assumes laws: "address_laws G" and ok: "call_allowed ty f t v er s" "0 \<le> v" and m: "marks G live D s"
    and to: "t' = t \<or> er \<noteq> None \<and> t' = 0" and r: "fc_revert x \<longleftrightarrow> \<not> live"
    and x: "fc_type x = ty" "fc_from x = f" "fc_to x = t'" "fc_value x = v"
    and fresh: "CreateType ty \<and> er \<noteq> None \<longrightarrow> t' \<notin> mc_dead s"
    and live: "live \<longrightarrow> er = None \<and> same_balances G bal s"
  shows "follows G live [x] D bal (begin_call ty f t v s)"
proof -
  have t': "CreateType ty \<Longrightarrow> t' \<notin> mc_dead s"
    using ok(1) to fresh by (auto simp: call_allowed_def)
  have fresh': "address_hex G t' \<notin> D" if "CreateType ty"
    using t' [OF that] m by (auto simp: marks_def address_hex_inject [OF laws])
  have "evm_ok G [x] D bal"
    using ok r x live fresh'
    by (auto simp: call_allowed_def same_balances_def pays_def op_types_distinct split: if_splits)
  moreover have "if live then same_balances G (ledger G [x] bal) (begin_call ty f t v s)
      else ledger G [x] bal = bal \<and> destroyed G [x] = {}"
    using ok r x live to
    by (auto simp: same_balances_def apply_trace_def Let_def begin_call_def pay_def pays_def call_allowed_def
        op_types_distinct destroyed_def address_hex_inject [OF laws])
  moreover have "marks G live (D \<union> destroyed G [x]) (begin_call ty f t v s)"
    using m ok(1) r x by (auto simp: marks_def destroyed_def call_allowed_def)
  ultimately show ?thesis unfolding follows_def by blast
qed

section \<open>The calls of an execution\<close>

lemma message_of_iff: "er \<noteq> Some [] \<Longrightarrow> message_of er \<noteq> [] \<longleftrightarrow> er \<noteq> None"
  by (cases er) (simp_all add: message_of_def)

lemma frame_value_nonneg [simp]: "0 \<le> frame_value f"
  by (simp add: frame_value_def split: option.split)

definition children_calls :: "bool \<Rightarrow> string \<Rightarrow> execution list \<Rightarrow> flat_call list" where
  "children_calls rv er cs = concat (map (\<lambda>c. inherit rv er (call_tree c)) cs)"

lemma inherit_tree:
  "inherit rv er (Call ty f t v g (m \<noteq> []) m (map (\<lambda>c. Some (call_tree c)) cs)) =
     \<lparr>fc_type = ty, fc_from = f, fc_to = t, fc_value = v, fc_gas_used = g, fc_revert = (rv \<or> m \<noteq> []),
        fc_error = (if rv \<and> m = [] then er else m)\<rparr>
     # children_calls (rv \<or> m \<noteq> []) (if rv \<and> m = [] then er else m) cs"
  by (simp add: Let_def children_calls_def o_def cong: map_cong)

lemma follows_children:
  assumes "\<And>c er s D bal. c \<in> set cs \<Longrightarrow> allowed c s \<Longrightarrow> marks G live D s \<Longrightarrow> live \<longrightarrow> same_balances G bal s
      \<Longrightarrow> follows G live (inherit (\<not> live) er (call_tree c)) D bal (execute c s)"
    and "all_allowed cs s" and "marks G live D s" and "live \<longrightarrow> same_balances G bal s"
  shows "follows G live (children_calls (\<not> live) er cs) D bal (fold execute cs s)"
  using assms
proof (induction cs arbitrary: s D bal)
  case Nil
  then show ?case by (simp add: children_calls_def follows_Nil)
next
  case (Cons c cs)
  let ?fs = "inherit (\<not> live) er (call_tree c)"
  have c: "follows G live ?fs D bal (execute c s)" using Cons.prems by simp
  have "follows G live (children_calls (\<not> live) er cs) (D \<union> destroyed G ?fs) (ledger G ?fs bal)
      (fold execute cs (execute c s))"
    by (rule Cons.IH) (use Cons.prems followsD [OF c] in auto)
  from follows_append [OF c this] show ?case by (simp add: children_calls_def)
qed

text \<open>A call: its start, then its children; if it fails the machine forgets both and the ledger never saw them.\<close>

lemma follows_call:
  assumes laws: "address_laws G"
    and children: "\<And>live c er s D bal. c \<in> set cs \<Longrightarrow> allowed c s \<Longrightarrow> marks G live D s
      \<Longrightarrow> live \<longrightarrow> same_balances G bal s
      \<Longrightarrow> follows G live (inherit (\<not> live) er (call_tree c)) D bal (execute c s)"
    and ok: "call_allowed ty f t v er s" "0 \<le> v" "all_allowed cs (begin_call ty f t v s)"
    and to: "t' = t \<or> er \<noteq> None \<and> t' = 0" and fresh: "CreateType ty \<and> er \<noteq> None \<longrightarrow> t' \<notin> mc_dead s"
    and m: "marks G live D s" and bal: "live \<longrightarrow> same_balances G bal s"
  shows "follows G live (inherit (\<not> live) e (Call ty f t' v g (message_of er \<noteq> []) (message_of er)
      (map (\<lambda>c. Some (call_tree c)) cs))) D bal
    (if er = None then fold execute cs (begin_call ty f t v s) else s)"
proof -
  define eff where "eff \<longleftrightarrow> live \<and> er = None"
  define e' where "e' = (if \<not> live \<and> message_of er = [] then e else message_of er)"
  define x where "x = \<lparr>fc_type = ty, fc_from = f, fc_to = t', fc_value = v, fc_gas_used = g,
    fc_revert = (\<not> eff), fc_error = e'\<rparr>"
  let ?b = "begin_call ty f t v s"
  have er: "message_of er \<noteq> [] \<longleftrightarrow> er \<noteq> None" using ok(1) by (simp add: call_allowed_def message_of_iff)
  then have list: "inherit (\<not> live) e (Call ty f t' v g (message_of er \<noteq> []) (message_of er)
      (map (\<lambda>c. Some (call_tree c)) cs)) = [x] @ children_calls (\<not> eff) e' cs"
    unfolding inherit_tree eff_def x_def e'_def by auto
  have m': "marks G eff D s" using m by (simp add: marks_def eff_def)
  have b: "follows G eff [x] D bal ?b"
    by (rule follows_begin [OF laws ok(1,2) m' to]) (use fresh bal in \<open>auto simp: x_def eff_def\<close>)
  have "follows G eff (children_calls (\<not> eff) e' cs) (D \<union> destroyed G [x]) (ledger G [x] bal) (fold execute cs ?b)"
    by (rule follows_children [OF children ok(3) followsD [OF b]])
  with b have f: "follows G eff ([x] @ children_calls (\<not> eff) e' cs) D bal (fold execute cs ?b)"
    by (rule follows_append)
  show ?thesis
  proof (cases "er = None")
    case True
    with f list show ?thesis by (simp add: eff_def)
  next
    case False
    with f have "follows G False ([x] @ children_calls True e' cs) D bal (fold execute cs ?b)" by (simp add: eff_def)
    from follows_failed [OF this m bal] show ?thesis
      using False unfolding list if_not_P [OF False] by (simp add: eff_def)
  qed
qed

lemma follows_execution:
  assumes "address_laws G"
  shows "allowed x s \<Longrightarrow> marks G live D s \<Longrightarrow> live \<longrightarrow> same_balances G bal s
    \<Longrightarrow> follows G live (inherit (\<not> live) er (call_tree x)) D bal (execute x s)"
proof (induction x arbitrary: live er s D bal)
  case (Execution f r cs)
  have "follows G live (inherit (\<not> live) er (Call (getType f) (getFrom f)
      (if getError r \<noteq> None \<and> is_create (getType f) then 0 else getTo f) (frame_value f) (uint (getGasUsed r))
      (message_of (getError r) \<noteq> []) (message_of (getError r)) (map (\<lambda>c. Some (call_tree c)) cs))) D bal
    (if getError r = None then fold execute cs (begin_call (getType f) (getFrom f) (getTo f) (frame_value f) s) else s)"
    by (rule follows_call [OF assms Execution.IH])
       (use Execution.prems in \<open>auto simp: begin_frame_def call_allowed_def op_types_distinct marks_def\<close>)
  then show ?case by (simp only: call_tree.simps execute.simps begin_frame_def frame_value_def)
qed

lemma follows_transaction:
  assumes "address_laws G" and "transaction_allowed ctx cs s" and "mc_dead s = {}" and "same_balances G bal s"
  shows "follows G True (inherit False [] (transaction_tree ctx cs)) {} bal (execute_transaction ctx cs s)"
proof -
  have "follows G True (inherit (\<not> True) [] (Call (ctx_type ctx) (ctx_from ctx) (ctx_to ctx) (uint (ctx_value ctx))
      (uint (ctx_gasUsed ctx)) (message_of (ctx_error ctx) \<noteq> []) (message_of (ctx_error ctx))
      (map (\<lambda>c. Some (call_tree c)) cs))) {} bal
    (if ctx_error ctx = None
     then fold execute cs (begin_call (ctx_type ctx) (ctx_from ctx) (ctx_to ctx) (uint (ctx_value ctx)) s) else s)"
    by (rule follows_call [OF assms(1) follows_execution [OF assms(1)]])
       (use assms in \<open>auto simp: transaction_allowed_def marks_def\<close>)
  then show ?thesis by (simp add: transaction_tree_def execute_transaction_def)
qed

text \<open>An account is misreported in the list of calls only if the execution says so.\<close>

lemma all_allowed_mem: "all_allowed cs s \<Longrightarrow> c \<in> set cs \<Longrightarrow> \<exists>s'. allowed c s'"
  by (induction cs arbitrary: s) auto

lemma misreported_call:
  assumes "address_laws G" and "fc_revert tr \<longleftrightarrow> u" and "fc_type tr = ty" "fc_from tr = f" "fc_value tr = v"
    and "fc_to tr = t \<or> is_create ty"
  shows "misreported G tr (address_hex G a) \<Longrightarrow> misread a u ty f t v"
  using assms(2-)
  by (auto simp: misreported_def misread_def pays_def op_types_distinct address_hex_inject [OF assms(1)])

lemma misreported_execution:
  assumes "address_laws G"
  shows "allowed x s \<Longrightarrow> tr \<in> set (inherit u er (call_tree x)) \<Longrightarrow> misreported G tr (address_hex G a) \<Longrightarrow> misreads a u x"
proof (induction x arbitrary: u er s)
  case (Execution f r cs)
  let ?m = "message_of (getError r)" and ?t = "if getError r \<noteq> None \<and> is_create (getType f) then 0 else getTo f"
  define u' where "u' \<longleftrightarrow> u \<or> getError r \<noteq> None"
  define e' where "e' = (if u \<and> ?m = [] then er else ?m)"
  have m: "?m \<noteq> [] \<longleftrightarrow> getError r \<noteq> None"
    using Execution.prems(1) by (simp add: call_allowed_def message_of_iff)
  have "inherit u er (call_tree (Execution f r cs)) =
      \<lparr>fc_type = getType f, fc_from = getFrom f, fc_to = ?t, fc_value = frame_value f, fc_gas_used = uint (getGasUsed r),
        fc_revert = u', fc_error = e'\<rparr> # children_calls u' e' cs"
    using inherit_tree [of u er "getType f" "getFrom f" ?t "frame_value f" "uint (getGasUsed r)" ?m cs]
    unfolding m by (simp only: call_tree.simps frame_value_def u'_def e'_def m)
  with Execution.prems(2) consider (own) "tr = \<lparr>fc_type = getType f, fc_from = getFrom f, fc_to = ?t,
      fc_value = frame_value f, fc_gas_used = uint (getGasUsed r), fc_revert = u', fc_error = e'\<rparr>"
    | (child) c where "c \<in> set cs" "tr \<in> set (inherit u' e' (call_tree c))"
    by (auto simp: children_calls_def)
  then show ?case
  proof cases
    case own
    have "misread a u' (getType f) (getFrom f) (getTo f) (frame_value f)"
      by (rule misreported_call [OF assms _ _ _ _ _ Execution.prems(3)]) (auto simp: own)
    then show ?thesis by (simp add: u'_def Let_def)
  next
    case child
    obtain s' where "allowed c s'" using all_allowed_mem [OF _ child(1)] Execution.prems(1) by auto
    from Execution.IH [OF child(1) this child(2) Execution.prems(3)] child(1)
    show ?thesis by (auto simp: u'_def Let_def)
  qed
qed

lemma misreported_transaction:
  assumes "address_laws G" and "transaction_allowed ctx cs s" and "\<not> transaction_misreads a ctx cs"
  shows "\<forall>tr \<in> set (inherit False [] (transaction_tree ctx cs)). \<not> misreported G tr (address_hex G a)"
proof -
  let ?m = "message_of (ctx_error ctx)"
  have m: "?m \<noteq> [] \<longleftrightarrow> ctx_error ctx \<noteq> None"
    using assms(2) by (simp add: transaction_allowed_def call_allowed_def message_of_iff)
  have "\<not> misreported G tr (address_hex G a)" if "tr \<in> set (children_calls (ctx_error ctx \<noteq> None) e cs)" for tr e
  proof -
    from that obtain c where c: "c \<in> set cs" "tr \<in> set (inherit (ctx_error ctx \<noteq> None) e (call_tree c))"
      by (auto simp: children_calls_def)
    obtain s' where "allowed c s'" using all_allowed_mem [OF _ c(1)] assms(2) by (auto simp: transaction_allowed_def)
    with misreported_execution [OF assms(1) this c(2)] c(1) assms(3) show ?thesis
      by (auto simp: transaction_misreads_def)
  qed
  moreover have "pays (ctx_type ctx)" "ctx_type ctx \<noteq> SelfDestructOpType"
    using assms(2) by (auto simp: transaction_allowed_def pays_def op_type_defs)
  then have "\<not> misreported G tr b" if "fc_type tr = ctx_type ctx" for tr b
    using that by (simp add: misreported_def)
  ultimately show ?thesis
    unfolding transaction_tree_def inherit_tree by (simp add: m)
qed

section \<open>Properties\<close>

text \<open>
  C1. From the execution to the operations, the whole way: when the tracer's script has
  watched a transaction, its report was decoded and the transaction populated from it, then what the
  operations add to an account is what the virtual machine did to it, failed calls undone and destroyed
  accounts emptied, less the fee for the sender and plus the unburned fee for the miner. Two kinds of accounts
  are excepted: that of a self-destruct that a failing call around it undid, and the two parties of a
  \<open>CALLCODE\<close> (or another call that pays nothing) that took effect and was reported with a value.
\<close>

theorem operations_match_execution:
  assumes "address_laws (cl_geth ec)" and "key_order (cl_order ec)" and "js_laws (cl_geth ec) J"
    and "transaction_allowed ctx cs s" and "mc_dead s = {}" and "\<forall>a. 0 \<le> mc_balance s a"
    and "\<not> transaction_misreads a ctx cs"
    and "call_unmarshal (cl_geth ec) (trace_transaction J ctx (concat (map events_of cs))) = Ok d"
    and "lt_trace tx = Some d" and "lt_from tx = Some f" and "lt_miner tx = address_hex (cl_geth ec) m"
    and "lt_fee_amount tx = Some fee" and "populateTransaction ec tx = Ok t"
  shows "mc_balance s a + net_effect (address_hex (cl_geth ec) a) (rt_operations t) =
    final_balance (execute_transaction ctx cs s) a
    - (if a = f then fee else 0)
    + (if a = m then fee - (case lt_fee_burned tx of None \<Rightarrow> 0 | Some b \<Rightarrow> b) else 0)"
proof -
  let ?G = "cl_geth ec" and ?s = "execute_transaction ctx cs s"
  define bal where "bal = (\<lambda>x. mc_balance s (hex_to_address ?G x))"
  have d: "d = transaction_tree ctx cs" using assms(8) decode_result [OF assms(3), of ctx cs] by simp
  have bal: "bal (address_hex ?G a) = mc_balance s a" for a by (simp add: bal_def address_lawsD [OF assms(1)])
  have "same_balances ?G bal s" using assms(6) by (simp add: same_balances_def bal)
  from follows_transaction [OF assms(1,4,5) this]
  have fs: "follows ?G True (inherit False [] d) {} bal ?s" by (simp add: d)
  then have evm: "evm_ok ?G (inherit False [] d) {} bal" by (simp add: follows_def)
  have mis: "\<forall>tr \<in> set (inherit False [] d). \<not> misreported ?G tr (address_hex ?G a)"
    unfolding d by (rule misreported_transaction [OF assms(1,4,7)])
  have "bal (address_hex ?G a) + net_effect (address_hex ?G a) (rt_operations t) =
      (if address_hex ?G a \<in> destroyed ?G (inherit False [] d) then 0
       else ledger ?G (inherit False [] d) bal (address_hex ?G a))
      - (if a = f then fee else 0)
      + (if a = m then fee - (case lt_fee_burned tx of None \<Rightarrow> 0 | Some b \<Rightarrow> b) else 0)"
    using populate_balances [OF assms(1,2,10,11,12,9) evm mis assms(13)]
    by (simp add: address_hex_inject [OF assms(1)])
  moreover have "address_hex ?G a \<in> destroyed ?G (inherit False [] d) \<longleftrightarrow> a \<in> mc_dead ?s"
    and "ledger ?G (inherit False [] d) bal (address_hex ?G a) = mc_balance ?s a"
    using fs by (auto simp: follows_def marks_def same_balances_def address_hex_inject [OF assms(1)])
  ultimately show ?thesis by (simp add: bal final_balance_def)
qed

text \<open>
  C31. What the code makes of \<open>CALLCODE\<close> is not what happened: the call runs the code of \<open>b\<close> on the account of
  \<open>a\<close> and pays nothing, but it is reported with its value, and the operations take that value
  from \<open>a\<close> and give it to \<open>b\<close>.
\<close>

theorem callcode_reported_as_payment:
  assumes "address_laws G" and "js_laws G J" and "map_order rng" and "a \<noteq> b"
    and "ctx_type ctx = CallOpType" and "ctx_value ctx = 0" and "ctx_error ctx = None"
    and "getType f = CallCodeOpType" and "getFrom f = a" and "getTo f = b" and "getError r = None"
  shows "execute_transaction ctx [Execution f r []] s = execute_transaction ctx [] s
    \<and> (\<exists>d fs ops. call_unmarshal G (trace_transaction J ctx (events_of (Execution f r []))) = Ok d
        \<and> flattenTraces d [] = Ok fs \<and> traceOps G rng fs i = Ok ops
        \<and> net_effect (address_hex G a) ops = - frame_value f \<and> net_effect (address_hex G b) ops = frame_value f)"
proof -
  let ?d = "transaction_tree ctx [Execution f r []]"
  have d: "call_unmarshal G (trace_transaction J ctx (events_of (Execution f r []))) = Ok ?d"
    using decode_result [OF assms(2), of ctx "[Execution f r []]"] by simp
  have fs: "flattenTraces ?d [] = Ok (inherit False [] ?d)"
    using flatten_eq(1) [of "[]" ?d] transaction_tree_wf by simp
  define x y where "x = \<lparr>fc_type = CallOpType, fc_from = ctx_from ctx, fc_to = ctx_to ctx, fc_value = 0,
      fc_gas_used = uint (ctx_gasUsed ctx), fc_revert = False, fc_error = []\<rparr>"
    and "y = \<lparr>fc_type = CallCodeOpType, fc_from = a, fc_to = b, fc_value = frame_value f,
      fc_gas_used = uint (getGasUsed r), fc_revert = False, fc_error = []\<rparr>"
  have list: "inherit False [] ?d = [x, y]"
    using assms(5-11) by (simp add: transaction_tree_def x_def y_def message_of_def frame_value_def Let_def)
  have types: "CallType CallOpType" "CallType CallCodeOpType" "CallCodeOpType \<noteq> SelfDestructOpType"
    "CallOpType \<noteq> SelfDestructOpType" "\<not> CreateType CallOpType" "\<not> CreateType CallCodeOpType"
    by (simp_all add: CallType_def CreateType_def op_type_defs)
  have des: "run_destroyed G [x, y] [] = []"
    by (simp add: step_destroyed_def should_add_def x_def y_def types track_def Let_def)
  have "rng [] = []" using map_order_set [OF assms(3), of "[]"] by simp
  then have ops: "traceOps G rng [x, y] i = Ok (run_ops G i [x, y])"
    by (simp add: traceOps_cases [OF assms(1,3)] des del: run_ops.simps run_destroyed.simps)
  have "net_effect (address_hex G a) (run_ops G i [x, y]) = - frame_value f
      \<and> net_effect (address_hex G b) (run_ops G i [x, y]) = frame_value f"
    using assms(4) unfolding net_effect_run [OF assms(1)]
    by (simp add: reported_change_def x_def y_def types address_hex_inject [OF assms(1)])
  moreover have "execute_transaction ctx [Execution f r []] s = execute_transaction ctx [] s"
    using assms(7,8,11) by (simp add: execute_transaction_def begin_frame_def begin_call_def op_type_defs)
  ultimately show ?thesis using d fs ops unfolding list by blast
qed

section \<open>Concrete instances of the properties\<close>

text \<open>
  Account 1 calls contract 5 with 2; the contract calls 7 with 9, which pays 4 to 8, has 8 destroy itself and
  fails; contract 3 runs the code of 4 on its own account with the value 1, and 5 destroys itself in favour of 6.
\<close>

definition frame_of :: "string \<Rightarrow> address \<Rightarrow> address \<Rightarrow> 256 word \<Rightarrow> frame" where
  "frame_of ty f t v = \<lparr>getType = ty, getFrom = f, getTo = t, getInput = [], getGas = 0, getValue = Some v\<rparr>"

definition result_of :: "string option \<Rightarrow> frame_result" where
  "result_of er = \<lparr>getGasUsed = 0, getOutput = [], getError = er\<rparr>"

definition machine_calls :: "execution list" where
  "machine_calls =
     [Execution (frame_of ''CALL'' 5 7 9) (result_of (Some ''execution reverted''))
        [Execution (frame_of ''CALL'' 7 8 4) (result_of None) [Execution (frame_of ''SELFDESTRUCT'' 8 7 4) (result_of None) []]],
      Execution (frame_of ''CALLCODE'' 3 4 1) (result_of None) [],
      Execution (frame_of ''SELFDESTRUCT'' 5 6 22) (result_of None) []]"

definition machine_ctx :: tracer_ctx where
  "machine_ctx = \<lparr>ctx_type = ''CALL'', ctx_from = 1, ctx_to = 5, ctx_value = 2, ctx_gas = 0, ctx_gasUsed = 0,
     ctx_input = [], ctx_output = [], ctx_error = None\<rparr>"

definition machine_start :: machine where
  "machine_start = \<lparr>mc_balance = (\<lambda>a. if a = 1 then 10 else if a = 5 then 20 else 0), mc_dead = {}\<rparr>"

lemmas machine_defs = machine_calls_def machine_ctx_def machine_start_def frame_of_def result_of_def
  begin_frame_def begin_call_def frame_value_def pay_def op_type_defs

definition machine_loaded :: loaded_transaction where
  "machine_loaded = mock_loaded\<lparr>lt_trace := Some (transaction_tree machine_ctx machine_calls)\<rparr>"

theorem operations_match_execution_witness:
  "\<exists>t. populateTransaction mock_client machine_loaded = Ok t
     \<and> 10 + net_effect ''0x1'' (rt_operations t) = 2 \<and> 20 + net_effect ''0x5'' (rt_operations t) = 0
     \<and> net_effect ''0x6'' (rt_operations t) = 22 \<and> net_effect ''0x7'' (rt_operations t) = 0"
proof -
  have G: "cl_geth mock_client = standin" by simp
  have "ok_with (\<lambda>_. True) (populateTransaction mock_client machine_loaded)" by code_simp
  then obtain t where t: "populateTransaction mock_client machine_loaded = Ok t" by (auto simp: ok_with_iff)
  have laws: "address_laws (cl_geth mock_client)" "key_order (cl_order mock_client)" "js_laws (cl_geth mock_client) demo_js"
    by (simp_all add: demo_js_laws)
  have run: "transaction_allowed machine_ctx machine_calls machine_start" "mc_dead machine_start = {}"
    "\<forall>a. 0 \<le> mc_balance machine_start a"
    by (simp_all add: transaction_allowed_def call_allowed_def CreateType_def machine_defs)
  have mis: "transaction_misreads a machine_ctx machine_calls \<longleftrightarrow> a \<in> {8, 3, 4}" for a
    by (simp add: transaction_misreads_def misread_def machine_defs)
  have dec: "call_unmarshal (cl_geth mock_client) (trace_transaction demo_js machine_ctx (concat (map events_of machine_calls)))
      = Ok (transaction_tree machine_ctx machine_calls)"
    by (rule decode_result [OF laws(3)])
  have l: "lt_trace machine_loaded = Some (transaction_tree machine_ctx machine_calls)" "lt_from machine_loaded = Some 1"
    "lt_miner machine_loaded = address_hex (cl_geth mock_client) 9" "lt_fee_amount machine_loaded = Some 6"
    "lt_fee_burned machine_loaded = None"
    by (simp_all add: machine_loaded_def mock_loaded_def, code_simp)
  have hex: "address_hex standin 1 = ''0x1''" "address_hex standin 5 = ''0x5''" "address_hex standin 6 = ''0x6''"
    "address_hex standin 7 = ''0x7''"
    by code_simp+
  have fin: "final_balance (execute_transaction machine_ctx machine_calls machine_start) a =
      (if a = 1 then 8 else if a = 6 then 22 else 0)" for a
    by (simp add: final_balance_def execute_transaction_def machine_defs)
  note th = operations_match_execution [OF laws run _ dec l(1-4) t, unfolded fin G l(5) mis]
  show ?thesis
    using t th [of 1] th [of 5] th [of 6] th [of 7] by (simp add: hex machine_start_def)
qed

theorem callcode_reported_as_payment_witness:
  "\<exists>d fs ops. call_unmarshal standin (trace_transaction demo_js (machine_ctx\<lparr>ctx_value := 0\<rparr>)
        (events_of (Execution (frame_of ''CALLCODE'' 5 7 9) (result_of None) []))) = Ok d
     \<and> flattenTraces d [] = Ok fs \<and> traceOps standin rev fs 0 = Ok ops
     \<and> net_effect (address_hex standin 5) ops = - 9 \<and> net_effect (address_hex standin 7) ops = 9"
  using callcode_reported_as_payment [OF standin_address_laws demo_js_laws map_order_examples(2), of 5 7
      "machine_ctx\<lparr>ctx_value := 0\<rparr>" "frame_of ''CALLCODE'' 5 7 9" "result_of None" machine_start 0]
  by (simp add: machine_defs)

end
