(* ===== verification/ServiceErrors.thy ===== *)
theory ServiceErrors
  imports EthTypes
begin

text \<open>
  \<open>services/errors.go\<close>: the errors of the API and \<open>wrapErr\<close>. Four of them share their name
  with an error of the \<open>ethereum\<close> package and carry the suffix \<open>_svc\<close> here. The contract of an
  endpoint is a locale: every error it returns is one of the declared ones up to its details.
\<close>

section \<open>The errors\<close>

record rosetta_error =
  re_code :: int
  re_message :: string
  re_retriable :: bool
  re_details :: json_map

definition rosetta_err :: "int \<Rightarrow> string \<Rightarrow> bool \<Rightarrow> rosetta_error" where
  "rosetta_err c m r = \<lparr>re_code = c, re_message = m, re_retriable = r, re_details = []\<rparr>"

definition ErrUnimplemented :: rosetta_error where
  "ErrUnimplemented = rosetta_err 0 ''Endpoint not implemented'' False"
definition ErrUnavailableOffline :: rosetta_error where
  "ErrUnavailableOffline = rosetta_err 1 ''Endpoint unavailable offline'' False"
definition ErrGeth :: rosetta_error where
  "ErrGeth = rosetta_err 2 ''geth error'' False"
definition ErrUnableToDecompressPubkey :: rosetta_error where
  "ErrUnableToDecompressPubkey = rosetta_err 3 ''unable to decompress public key'' False"
definition ErrUnclearIntent :: rosetta_error where
  "ErrUnclearIntent = rosetta_err 4 ''Unable to parse intent'' False"
definition ErrUnableToParseIntermediateResult :: rosetta_error where
  "ErrUnableToParseIntermediateResult = rosetta_err 5 ''Unable to parse intermediate result'' False"
definition ErrSignatureInvalid :: rosetta_error where
  "ErrSignatureInvalid = rosetta_err 6 ''Signature invalid'' False"
definition ErrBroadcastFailed :: rosetta_error where
  "ErrBroadcastFailed = rosetta_err 7 ''Unable to broadcast transaction'' False"
definition ErrCallParametersInvalid_svc :: rosetta_error where
  "ErrCallParametersInvalid_svc = rosetta_err 8 ''Call parameters invalid'' False"
definition ErrCallOutputMarshal_svc :: rosetta_error where
  "ErrCallOutputMarshal_svc = rosetta_err 9 ''Call output marshal failed'' False"
definition ErrCallMethodInvalid_svc :: rosetta_error where
  "ErrCallMethodInvalid_svc = rosetta_err 10 ''Call method invalid'' False"
definition ErrBlockOrphaned_svc :: rosetta_error where
  "ErrBlockOrphaned_svc = rosetta_err 11 ''Block orphaned'' True"
definition ErrInvalidAddress :: rosetta_error where
  "ErrInvalidAddress = rosetta_err 12 ''Invalid address'' False"
definition ErrGethNotReady :: rosetta_error where
  "ErrGethNotReady = rosetta_err 13 ''geth not ready'' True"
definition ErrInvalidInput :: rosetta_error where
  "ErrInvalidInput = rosetta_err 14 ''invalid input'' False"

definition Errors :: "rosetta_error list" where
  "Errors = [ErrUnimplemented, ErrUnavailableOffline, ErrGeth, ErrUnableToDecompressPubkey,
     ErrUnclearIntent, ErrUnableToParseIntermediateResult, ErrSignatureInvalid, ErrBroadcastFailed,
     ErrCallParametersInvalid_svc, ErrCallOutputMarshal_svc, ErrCallMethodInvalid_svc,
     ErrBlockOrphaned_svc, ErrInvalidAddress, ErrGethNotReady, ErrInvalidInput]"

lemmas svc_error_defs = ErrUnimplemented_def ErrUnavailableOffline_def ErrGeth_def
  ErrUnableToDecompressPubkey_def ErrUnclearIntent_def ErrUnableToParseIntermediateResult_def
  ErrSignatureInvalid_def ErrBroadcastFailed_def ErrCallParametersInvalid_svc_def
  ErrCallOutputMarshal_svc_def ErrCallMethodInvalid_svc_def ErrBlockOrphaned_svc_def
  ErrInvalidAddress_def ErrGethNotReady_def ErrInvalidInput_def

text \<open>\<open>wrapErr\<close> copies the error and adds the text of the cause, if there is one.\<close>

definition wrapErr :: "rosetta_error \<Rightarrow> gerr option \<Rightarrow> rosetta_error" where
  "wrapErr rErr err =
     (let newErr = \<lparr>re_code = re_code rErr, re_message = re_message rErr,
           re_retriable = re_retriable rErr, re_details = []\<rparr>
      in case err of None \<Rightarrow> newErr
       | Some e \<Rightarrow> newErr\<lparr>re_details := [(''context'', JStr (error_text e))]\<rparr>)"

section \<open>Declared errors\<close>

text \<open>An error the API declares, whatever its details.\<close>

definition error_kind :: "rosetta_error \<Rightarrow> int \<times> string \<times> bool" where
  "error_kind e = (re_code e, re_message e, re_retriable e)"

definition declared_error :: "rosetta_error \<Rightarrow> bool" where
  "declared_error e \<longleftrightarrow> error_kind e \<in> error_kind ` set Errors"

lemma error_kind_wrapErr [simp]: "error_kind (wrapErr r e) = error_kind r"
  by (simp add: error_kind_def wrapErr_def Let_def split: option.split)

lemma declared_wrapErr [simp]: "declared_error (wrapErr r e) = declared_error r"
  by (simp add: declared_error_def)

lemma declared_Errors: "e \<in> set Errors \<Longrightarrow> declared_error e"
  by (simp add: declared_error_def)

lemma declared_errors [simp]:
  "declared_error ErrUnimplemented" "declared_error ErrUnavailableOffline" "declared_error ErrGeth"
  "declared_error ErrUnableToDecompressPubkey" "declared_error ErrUnclearIntent"
  "declared_error ErrUnableToParseIntermediateResult" "declared_error ErrSignatureInvalid"
  "declared_error ErrBroadcastFailed" "declared_error ErrCallParametersInvalid_svc"
  "declared_error ErrCallOutputMarshal_svc" "declared_error ErrCallMethodInvalid_svc"
  "declared_error ErrBlockOrphaned_svc" "declared_error ErrInvalidAddress"
  by (simp_all add: declared_error_def Errors_def)

lemma wrapErr_code [simp]: "re_code (wrapErr r e) = re_code r" "re_retriable (wrapErr r e) = re_retriable r"
  by (simp_all add: wrapErr_def Let_def split: option.split)

lemma svc_error_codes [simp]:
  "re_code ErrGeth = 2" "re_code ErrBlockOrphaned_svc = 11" "re_code ErrCallParametersInvalid_svc = 8"
  "re_code ErrCallOutputMarshal_svc = 9" "re_code ErrCallMethodInvalid_svc = 10"
  "re_code ErrUnavailableOffline = 1" "re_code ErrInvalidAddress = 12" "re_code ErrUnclearIntent = 4"
  "re_code ErrUnableToParseIntermediateResult = 5" "re_code ErrSignatureInvalid = 6"
  "re_code ErrBroadcastFailed = 7"
  by (simp_all add: svc_error_defs rosetta_err_def)

section \<open>Properties\<close>

text \<open>
  The declared errors are told apart by their codes, which are 0 to 14 in the order of the
  list, and wrapping an error keeps its kind and puts the text of the cause into its details.
\<close>

theorem Errors_codes:
  "map re_code Errors = [0..14] \<and> distinct (map re_message Errors)
   \<and> (\<forall>r. error_kind (wrapErr r None) = error_kind r \<and> re_details (wrapErr r None) = [])
   \<and> (\<forall>r e. error_kind (wrapErr r (Some e)) = error_kind r
        \<and> re_details (wrapErr r (Some e)) = [(''context'', JStr (error_text e))])"
proof -
  have "map re_code Errors = [0..14]" by code_simp
  moreover have "distinct (map re_message Errors)"
    by (simp add: Errors_def svc_error_defs rosetta_err_def)
  ultimately show ?thesis by (simp add: wrapErr_def Let_def error_kind_def)
qed

end
