(* ===== verification/NodeStatus.thy ===== *)
theory NodeStatus
  imports Blocks
begin

text \<open>
  The smaller operations of the client (\<open>ethereum/client.go\<close>): the status of the node
  (\<open>Status\<close>, \<open>syncProgress\<close>, \<open>peers\<close>), the nonce and gas price used to build transactions,
  \<open>SendTransaction\<close>, account balances over GraphQL (\<open>Balance\<close>) and the mempool
  (\<open>GetMempool\<close>).
\<close>

section \<open>Status\<close>

record sync_progress =
  sp_starting :: uint64
  sp_current :: uint64
  sp_highest :: uint64
  sp_pulled :: uint64
  sp_known :: uint64

text \<open>\<open>rpcProgress\<close>, decoded and converted to \<open>SyncProgress\<close>.\<close>

definition rpcProgress_of_json :: "geth \<Rightarrow> json \<Rightarrow> sync_progress outcome" where
  "rpcProgress_of_json G j =
     andThen (json_struct j) (\<lambda>obj.
     andThen (val_value (uint64_of_json G) 0 (json_field ''StartingBlock'' obj)) (\<lambda>a.
     andThen (val_value (uint64_of_json G) 0 (json_field ''CurrentBlock'' obj)) (\<lambda>b.
     andThen (val_value (uint64_of_json G) 0 (json_field ''HighestBlock'' obj)) (\<lambda>c.
     andThen (val_value (uint64_of_json G) 0 (json_field ''PulledStates'' obj)) (\<lambda>d.
     andThen (val_value (uint64_of_json G) 0 (json_field ''KnownStates'' obj)) (\<lambda>e.
       Ok \<lparr>sp_starting = a, sp_current = b, sp_highest = c, sp_pulled = d, sp_known = e\<rparr>))))))"

text \<open>A document that decodes into a bool means that the node is not syncing.\<close>

definition syncProgress :: "'w client \<Rightarrow> ('w, gerr, sync_progress option) io" where
  "syncProgress ec =
     io_bind (call_context (cl_node ec) ''eth_syncing'' []) (\<lambda>raw. io_lift (
       case andThen (json_parse raw) (\<lambda>j. bool_value ''bool'' (Some j)) of
         Ok _ \<Rightarrow> Ok None
       | Crash c \<Rightarrow> Crash c
       | Err _ \<Rightarrow> andThen (json_parse raw) (\<lambda>j.
           andThen (rpcProgress_of_json (cl_geth ec) j) (\<lambda>p. Ok (Some p)))))"

definition peer_of_info :: "peer_info \<Rightarrow> peer" where
  "peer_of_info info = \<lparr>peer_id = pi_id info, peer_metadata =
     [(''name'', JStr (pi_name info)), (''enode'', JStr (pi_enode info)),
      (''caps'', JArr (map JStr (pi_caps info))), (''enr'', JStr (pi_enr info)),
      (''protocols'', JObj (pi_protocols info))]\<rparr>"

definition peers :: "'w client \<Rightarrow> ('w, gerr, peer list) io" where
  "peers ec =
     (if cl_skip_admin ec then io_lift (Ok [])
      else io_bind (call_context (cl_node ec) ''admin_peers'' []) (\<lambda>raw. io_lift (
        andThen (arr_value (peer_info_of_json (cl_geth ec)) raw) (\<lambda>info.
          mapM (\<lambda>p. andThen (deref p) (\<lambda>peerInfo. Ok (peer_of_info peerInfo))) info))))"

definition Status ::
  "'w client \<Rightarrow> ('w, gerr, block_identifier \<times> int \<times> sync_status option \<times> peer list) io" where
  "Status ec =
     io_bind (blockHeaderByNumber ec None) (\<lambda>header.
     io_bind (syncProgress ec) (\<lambda>progress.
     let syncStatus = (case progress of None \<Rightarrow> None
           | Some p \<Rightarrow> Some \<lparr>current_index = Some (wrap64 (uint (sp_current p))),
               target_index = Some (wrap64 (uint (sp_highest p)))\<rparr>)
     in io_bind (peers ec) (\<lambda>ps. io_lift (Ok
          (\<lparr>bi_hash = hash_hex (cl_geth ec) (hd_hash header), bi_index = wrap64 (hd_number header)\<rparr>,
           convertTime (hd_time header), syncStatus, ps)))))"

section \<open>Nonce, gas price and submission\<close>

definition PendingNonceAt :: "'w client \<Rightarrow> address \<Rightarrow> ('w, gerr, uint64) io" where
  "PendingNonceAt ec account =
     io_bind (call_context (cl_node ec) ''eth_getTransactionCount''
        [JStr (address_json (cl_geth ec) account), JStr ''pending''])
      (\<lambda>r. io_lift (val_value (uint64_of_json (cl_geth ec)) 0 r))"

definition SuggestGasPrice :: "'w client \<Rightarrow> ('w, gerr, int) io" where
  "SuggestGasPrice ec =
     io_bind (call_context (cl_node ec) ''eth_gasPrice'' [])
      (\<lambda>r. io_lift (val_value (big_of_json (cl_geth ec)) 0 r))"

definition SendTransaction :: "'w client \<Rightarrow> eth_tx \<Rightarrow> ('w, gerr, unit) io" where
  "SendTransaction ec tx =
     io_bind (io_lift (rlp_encode (cl_geth ec) tx)) (\<lambda>data.
     io_bind (call_context (cl_node ec) ''eth_sendRawTransaction''
        [JStr (encode_bytes (cl_geth ec) data)]) (\<lambda>_. io_lift (Ok ())))"

section \<open>Balances\<close>

record account_balance =
  ab_balances :: "amount list"
  ab_block :: block_identifier
  ab_metadata :: json_map

definition line :: "nat \<Rightarrow> string \<Rightarrow> string" where
  "line n s = CHR 0x0A # replicate n (CHR 0x09) @ s"

definition balance_query :: "string \<Rightarrow> string \<Rightarrow> string" where
  "balance_query blockQuery address =
     ''{'' @ line 3 (''block('' @ blockQuery @ ''){'') @ line 4 ''hash'' @ line 4 ''number''
     @ line 4 (''account(address:'' @ [CHR 0x22] @ address @ [CHR 0x22] @ ''){'')
     @ line 5 ''balance'' @ line 5 ''transactionCount'' @ line 5 ''code'' @ line 4 ''}''
     @ line 3 ''}'' @ line 2 ''}''"

definition block_query :: "partial_block_identifier option \<Rightarrow> string" where
  "block_query block = (case block of None \<Rightarrow> []
     | Some b \<Rightarrow> (case pb_hash b of
           Some h \<Rightarrow> ''hash: '' @ [CHR 0x22] @ h @ [CHR 0x22]
         | None \<Rightarrow> (case pb_index b of Some i \<Rightarrow> ''number: '' @ int_string i | None \<Rightarrow> [])))"

text \<open>\<open>graphqlBalance\<close>: the errors, and of the block its hash, number and account.\<close>

record graphql_balance =
  gb_errors :: "(string \<times> string list) list"
  gb_hash :: string
  gb_number :: int
  gb_balance :: string
  gb_nonce :: string
  gb_code :: string

definition struct_field :: "string \<Rightarrow> json_map \<Rightarrow> json_map outcome" where
  "struct_field name obj = (case json_field name obj of None \<Rightarrow> Ok [] | Some j \<Rightarrow> json_struct j)"

definition str_elem :: "json \<Rightarrow> string outcome" where
  "str_elem j = str_value ''string'' (Some j)"

definition graphql_error_of_json :: "json \<Rightarrow> (string \<times> string list) outcome" where
  "graphql_error_of_json j =
     andThen (json_struct j) (\<lambda>obj.
     andThen (get_str obj ''message'') (\<lambda>m.
     andThen (slice_value str_elem (json_field ''path'' obj)) (\<lambda>p. Ok (m, p))))"

definition graphqlBalance_of_json :: "json \<Rightarrow> graphql_balance outcome" where
  "graphqlBalance_of_json j =
     andThen (json_struct j) (\<lambda>obj.
     andThen (slice_value graphql_error_of_json (json_field ''errors'' obj)) (\<lambda>errs.
     andThen (struct_field ''data'' obj) (\<lambda>dat.
     andThen (struct_field ''block'' dat) (\<lambda>blk.
     andThen (get_str blk ''hash'') (\<lambda>h.
     andThen (get_int blk ''number'') (\<lambda>n.
     andThen (struct_field ''account'' blk) (\<lambda>acc.
     andThen (get_str acc ''balance'') (\<lambda>bal.
     andThen (get_str acc ''transactionCount'') (\<lambda>nonce.
     andThen (get_str acc ''code'') (\<lambda>code.
       Ok \<lparr>gb_errors = errs, gb_hash = h, gb_number = n, gb_balance = bal, gb_nonce = nonce,
           gb_code = code\<rparr>))))))))))"

text \<open>\<open>new(big.Int).SetString(s[2:], 16)\<close> with the error message of its caller.\<close>

definition hex_amount :: "string \<Rightarrow> string \<Rightarrow> int outcome" where
  "hex_amount what s =
     andThen (slice_from 2 s) (\<lambda>digs. case SetString 16 digs of
        None \<Rightarrow> Err (ErrorNew (''could not extract account '' @ what @ '' from '' @ s))
      | Some x \<Rightarrow> Ok x)"

definition balance_of :: "sdk \<Rightarrow> graphql_balance \<Rightarrow> account_balance outcome" where
  "balance_of S bal =
     (if 0 < length (gb_errors bal) then Err (ErrorNew (sdk_print_errors S (gb_errors bal)))
      else andThen (hex_amount ''balance'' (gb_balance bal)) (\<lambda>balance.
           andThen (hex_amount ''nonce'' (gb_nonce bal)) (\<lambda>nonce.
           Ok \<lparr>ab_balances = [\<lparr>amt_value = int_string balance, amt_currency = Currency\<rparr>],
               ab_block = \<lparr>bi_hash = gb_hash bal, bi_index = gb_number bal\<rparr>,
               ab_metadata = [(''nonce'', JNum (int_string (wrap64 nonce))), (''code'', JStr (gb_code bal))]\<rparr>)))"

definition Balance ::
  "'w client \<Rightarrow> string \<Rightarrow> partial_block_identifier option \<Rightarrow> ('w, gerr, account_balance) io" where
  "Balance ec account block =
     io_bind (graphql_query (cl_node ec) (balance_query (block_query block) account)) (\<lambda>result.
       io_lift (andThen (json_parse result) (\<lambda>j.
         andThen (graphqlBalance_of_json j) (balance_of (cl_sdk ec)))))"

section \<open>The mempool\<close>

text \<open>
  \<open>txPool\<close> and \<open>txPoolInner\<close>: maps from accounts to maps from nonces to transactions. A map is
  decoded entry by entry, a later entry replacing an earlier one with the same key.
\<close>

fun map_of_json :: "(json \<Rightarrow> 'a outcome) \<Rightarrow> json \<Rightarrow> (string \<times> 'a) list outcome" where
  "map_of_json dec (JObj kvs) =
     andThen (mapM (\<lambda>(k, v). andThen (dec v) (\<lambda>x. Ok (k, x))) kvs) (\<lambda>es. Ok (gm_of_list es []))"
| "map_of_json dec JNull = Ok []"
| "map_of_json dec _ = Err (json_type_error ''map'')"

type_synonym tx_pool = "(string \<times> (string \<times> rpc_transaction) list) list"

definition txPool_of_json :: "geth \<Rightarrow> json option \<Rightarrow> tx_pool outcome" where
  "txPool_of_json G v = (case v of None \<Rightarrow> Ok []
     | Some j \<Rightarrow> map_of_json (map_of_json (rpc_transaction_of_json G)) j)"

definition txPoolContent_of_json :: "geth \<Rightarrow> json \<Rightarrow> (tx_pool \<times> tx_pool) outcome" where
  "txPoolContent_of_json G j =
     andThen (json_struct j) (\<lambda>obj.
     andThen (txPool_of_json G (json_field ''pending'' obj)) (\<lambda>pending.
     andThen (txPool_of_json G (json_field ''queued'' obj)) (\<lambda>queued. Ok (pending, queued))))"

text \<open>The two nested loops over a pool: each ranges over a map in an order Go leaves open.\<close>

definition inner_step :: "geth \<Rightarrow> string \<times> rpc_transaction \<Rightarrow> string list \<Rightarrow> string list outcome" where
  "inner_step G = (\<lambda>(_, info) identifiers.
     andThen (deref (rp_tx info)) (\<lambda>tx. Ok (identifiers @ [hash_hex G (tx_hash tx)])))"

definition pool_step ::
  "'w client \<Rightarrow> string \<times> (string \<times> rpc_transaction) list \<Rightarrow> string list \<Rightarrow> string list outcome" where
  "pool_step ec = (\<lambda>(_, inner) identifiers.
     foldM (inner_step (cl_geth ec)) (range_entries (cl_order ec) inner) identifiers)"

definition GetMempool :: "'w client \<Rightarrow> ('w, gerr, string list) io" where
  "GetMempool ec =
     io_bind (call_context (cl_node ec) ''txpool_content'' []) (\<lambda>r. io_lift (
       andThen (case r of None \<Rightarrow> Ok ([], []) | Some j \<Rightarrow> txPoolContent_of_json (cl_geth ec) j)
        (\<lambda>(pending, queued).
          andThen (foldM (pool_step ec) (range_entries (cl_order ec) pending) []) (\<lambda>identifiers.
            foldM (pool_step ec) (range_entries (cl_order ec) queued) identifiers))))"

section \<open>The mempool loops\<close>

lemma gm_put_values: "x \<in> snd ` set (gm_put k v m) \<Longrightarrow> x = v \<or> x \<in> snd ` set m"
  by (induction k v m rule: gm_put.induct) (auto split: if_splits)

lemma gm_of_list_values: "x \<in> snd ` set (gm_of_list es m) \<Longrightarrow> x \<in> snd ` set es \<or> x \<in> snd ` set m"
proof (induction es m rule: gm_of_list.induct)
  case (2 k v es m)
  then have "x \<in> snd ` set es \<or> x \<in> snd ` set (gm_put k v m)" by simp
  with gm_put_values [of x k v m] show ?case by auto
qed simp

lemma map_of_json_gm_ok: "map_of_json dec j = Ok m \<Longrightarrow> gm_ok m"
  by (cases "(dec, j)" rule: map_of_json.cases) auto

lemma map_of_json_values:
  assumes "map_of_json dec j = Ok m" and "(k, v) \<in> set m"
  shows "\<exists>x. dec x = Ok v"
proof (cases j)
  case (JObj kvs)
  with assms obtain es where es: "mapM (\<lambda>(k, v). andThen (dec v) (\<lambda>x. Ok (k, x))) kvs = Ok es"
    and "(k, v) \<in> set (gm_of_list es [])" by auto
  from this(2) have "v \<in> snd ` set (gm_of_list es [])" by force
  with gm_of_list_values [of v es "[]"] obtain k' where "(k', v) \<in> set es" by auto
  from mapM_Ok_set [OF es this] show ?thesis by auto
qed (use assms in auto)

text \<open>The transaction hashes of a pool, in the order of the decoded document.\<close>

definition entry_hash :: "geth \<Rightarrow> string \<times> rpc_transaction \<Rightarrow> string" where
  "entry_hash G e = hash_hex G (tx_hash (the (rp_tx (snd e))))"

definition pool_hashes :: "geth \<Rightarrow> tx_pool \<Rightarrow> string list" where
  "pool_hashes G pool = concat (map (\<lambda>e. map (entry_hash G) (snd e)) pool)"

definition pool_present :: "tx_pool \<Rightarrow> bool" where
  "pool_present pool \<longleftrightarrow> (\<forall>e \<in> set pool. \<forall>t \<in> set (snd e). rp_tx (snd t) \<noteq> None)"

definition pool_ok :: "tx_pool \<Rightarrow> bool" where
  "pool_ok pool \<longleftrightarrow> gm_ok pool \<and> (\<forall>e \<in> set pool. gm_ok (snd e))"

lemma txPool_of_json_ok: "txPool_of_json G v = Ok pool \<Longrightarrow> pool_ok pool"
proof (cases v)
  case (Some j)
  assume "txPool_of_json G v = Ok pool"
  with Some have m: "map_of_json (map_of_json (rpc_transaction_of_json G)) j = Ok pool"
    by (simp add: txPool_of_json_def)
  have "gm_ok inner" if "(k, inner) \<in> set pool" for k inner
    using map_of_json_values [OF m that] map_of_json_gm_ok by blast
  with map_of_json_gm_ok [OF m] show ?thesis by (auto simp: pool_ok_def)
qed (simp add: txPool_of_json_def pool_ok_def)

lemma inner_loop:
  assumes "\<forall>t \<in> set es. rp_tx (snd t) \<noteq> None"
  shows "foldM (inner_step G) es ids = Ok (ids @ map (entry_hash G) es)"
  using assms
  by (induction es arbitrary: ids) (auto simp: inner_step_def entry_hash_def)

lemma pool_loop:
  assumes "key_order (cl_order ec)" and "\<forall>e \<in> set es. gm_ok (snd e)" and "pool_present es"
  shows "\<exists>out. foldM (pool_step ec) es ids = Ok (ids @ out) \<and> mset out = mset (pool_hashes (cl_geth ec) es)"
  using assms(2,3)
proof (induction es arbitrary: ids)
  case Nil
  then show ?case by (simp add: pool_hashes_def)
next
  case (Cons e es)
  obtain k inner where e: "e = (k, inner)" by (cases e)
  let ?r = "range_entries (cl_order ec) inner" and ?h = "entry_hash (cl_geth ec)"
  have m: "mset ?r = mset inner"
    using Cons.prems(1) e by (intro mset_range_entries [OF assms(1)]) simp
  then have "set ?r = set inner" by (rule mset_eq_setD)
  then have "\<forall>t \<in> set ?r. rp_tx (snd t) \<noteq> None"
    using Cons.prems(2) e by (auto simp: pool_present_def)
  then have run: "foldM (inner_step (cl_geth ec)) ?r ids = Ok (ids @ map ?h ?r)"
    by (rule inner_loop)
  have "pool_present es" "\<forall>e \<in> set es. gm_ok (snd e)"
    using Cons.prems by (simp_all add: pool_present_def)
  from Cons.IH [OF this(2,1), of "ids @ map ?h ?r"] obtain out where
    out: "foldM (pool_step ec) es (ids @ map ?h ?r) = Ok ((ids @ map ?h ?r) @ out)"
      "mset out = mset (pool_hashes (cl_geth ec) es)" by blast
  show ?case
    using run out m by (intro exI [of _ "map ?h ?r @ out"]) (simp add: e pool_step_def pool_hashes_def)
qed

lemma pool_range:
  assumes "key_order (cl_order ec)" and "pool_ok pool" and "pool_present pool"
  shows "\<exists>out. foldM (pool_step ec) (range_entries (cl_order ec) pool) ids = Ok (ids @ out)
    \<and> mset out = mset (pool_hashes (cl_geth ec) pool)"
proof -
  let ?r = "range_entries (cl_order ec) pool"
  have m: "mset ?r = mset pool"
    using assms(2) by (intro mset_range_entries [OF assms(1)]) (simp add: pool_ok_def)
  then have s: "set ?r = set pool" by (rule mset_eq_setD)
  have "mset (pool_hashes G ?r) = sum_mset (image_mset (\<lambda>e. mset (map (entry_hash G) (snd e))) (mset ?r))" for G
    by (simp add: pool_hashes_def mset_concat sum_mset_sum_list [symmetric] o_def)
  moreover have "mset (pool_hashes G pool) = sum_mset (image_mset (\<lambda>e. mset (map (entry_hash G) (snd e))) (mset pool))" for G
    by (simp add: pool_hashes_def mset_concat sum_mset_sum_list [symmetric] o_def)
  ultimately have "mset (pool_hashes (cl_geth ec) ?r) = mset (pool_hashes (cl_geth ec) pool)"
    by (simp only: m)
  with pool_loop [OF assms(1), of ?r ids] assms(2,3) s show ?thesis
    by (simp add: pool_ok_def pool_present_def)
qed

section \<open>Quantities of the GraphQL interface\<close>

lemma SetString_digits: "2 \<le> b \<Longrightarrow> b \<le> 36 \<Longrightarrow> SetString b (digits b n) = Some (int n)"
proof -
  assume b: "2 \<le> b" "b \<le> 36"
  obtain c cs where d: "digits b n = c # cs" by (meson digits_nonempty neq_Nil_conv)
  with digits_no_sign [OF b, of n] have "c \<noteq> CHR ''-''" "c \<noteq> CHR ''+''" by simp_all
  with d parse_nat_digits [OF b, of n] show ?thesis by simp
qed

lemma hex_amount_digits [simp]: "hex_amount what (''0x'' @ digits 16 n) = Ok (int n)"
  "hex_amount what (CHR ''0'' # CHR ''x'' # digits 16 n) = Ok (int n)"
  by (simp_all add: hex_amount_def slice_from_def SetString_digits)

lemma hex_amount_short [simp]: "hex_amount what [] = Crash IndexOutOfRange"
  by (simp add: hex_amount_def slice_from_def)

section \<open>Properties\<close>

text \<open>
  C24. The mempool lists every pending and every queued transaction exactly as often as it occurs
  in the pools, in whatever order Go ranges over the nested maps: the multiset of the returned
  identifiers does not depend on it.
\<close>

theorem GetMempool_complete:
  assumes "key_order (cl_order ec)"
    and "call_context (cl_node ec) ''txpool_content'' [] w = (Ok (Some j), w')"
    and "txPoolContent_of_json (cl_geth ec) j = Ok (pending, queued)"
    and "pool_present pending" and "pool_present queued"
  shows "\<exists>ids. GetMempool ec w = (Ok ids, w')
    \<and> mset ids = mset (pool_hashes (cl_geth ec) pending) + mset (pool_hashes (cl_geth ec) queued)"
proof -
  from assms(3) have ok: "pool_ok pending" "pool_ok queued"
    by (auto simp: txPoolContent_of_json_def intro: txPool_of_json_ok)
  obtain o1 where 1: "foldM (pool_step ec) (range_entries (cl_order ec) pending) [] = Ok o1"
      "mset o1 = mset (pool_hashes (cl_geth ec) pending)"
    using pool_range [OF assms(1) ok(1) assms(4), of "[]"] by auto
  obtain o2 where 2: "foldM (pool_step ec) (range_entries (cl_order ec) queued) o1 = Ok (o1 @ o2)"
      "mset o2 = mset (pool_hashes (cl_geth ec) queued)"
    using pool_range [OF assms(1) ok(2) assms(5), of o1] by blast
  have "GetMempool ec w = (Ok (o1 @ o2), w')"
    using 1(1) 2(1) assms(2,3) by (simp add: GetMempool_def io_bind_def io_lift_def)
  then show ?thesis using 1(2) 2(2) by simp
qed

text \<open>
  A balance reply round-trips: where the node reports the block \<open>(h, n)\<close> and the balance
  and nonce as the hexadecimal quantities of \<open>bal\<close> and \<open>k\<close>, the response carries exactly that
  block, the balance as the decimal of \<open>bal\<close> in the currency of the network, and the nonce.
\<close>

theorem Balance_roundtrip:
  assumes "graphql_query (cl_node ec) (balance_query (block_query b) a) w = (Ok (Some j), w')"
    and "graphqlBalance_of_json j = Ok \<lparr>gb_errors = [], gb_hash = h, gb_number = n,
          gb_balance = ''0x'' @ digits 16 bal, gb_nonce = ''0x'' @ digits 16 k, gb_code = code\<rparr>"
    and "k < 2 ^ 63"
  shows "\<exists>r. Balance ec a b w = (Ok r, w') \<and> ab_block r = \<lparr>bi_hash = h, bi_index = n\<rparr>
    \<and> map (\<lambda>x. (SetString 10 (amt_value x), amt_currency x)) (ab_balances r) = [(Some (int bal), Currency)]
    \<and> ab_metadata r = [(''nonce'', JNum (int_string (int k))), (''code'', JStr code)]"
proof -
  have "int64_range (int k)" using assms(3) by (simp add: int64_range_def)
  with assms(1,2) show ?thesis
    by (simp add: Balance_def io_bind_def io_lift_def json_parse_def balance_of_def)
qed

text \<open>
  C37. What \<open>Balance\<close> makes of a decoded reply of the GraphQL interface. A reply with errors is answered with
  an error. \<open>Balance\<close> panics exactly when the reply has no errors and the balance, or after a well-formed balance the
  nonce, is shorter than the two characters that are sliced off. So a reply whose block is \<open>null\<close> is an error if
  it names errors, as a node does for an unknown hash, and a panic if it names none.
\<close>

theorem Balance_replies:
  assumes "graphql_query (cl_node ec) (balance_query (block_query b) a) w = (Ok (Some j), w')"
    and "graphqlBalance_of_json j = Ok gb"
  shows "(gb_errors gb \<noteq> [] \<longrightarrow> Balance ec a b w = (Err (ErrorNew (sdk_print_errors (cl_sdk ec) (gb_errors gb))), w'))
    \<and> (Balance ec a b w = (Crash IndexOutOfRange, w') \<longleftrightarrow> gb_errors gb = [] \<and>
        (length (gb_balance gb) < 2
         \<or> SetString 16 (drop 2 (gb_balance gb)) \<noteq> None \<and> length (gb_nonce gb) < 2))
    \<and> (\<forall>obj dat. j = JObj obj \<and> json_field ''data'' obj = Some (JObj dat) \<and> json_field ''block'' dat \<in> {None, Some JNull}
        \<and> gb_errors gb = [] \<longrightarrow> Balance ec a b w = (Crash IndexOutOfRange, w'))"
proof -
  have bal: "Balance ec a b w = (balance_of (cl_sdk ec) gb, w')"
    using assms by (simp add: Balance_def io_bind_def io_lift_def json_parse_def)
  have no_field: "json_field x [] = None" for x by (simp add: json_field_def)
  have panics: "balance_of (cl_sdk ec) gb = Crash IndexOutOfRange \<longleftrightarrow> gb_errors gb = [] \<and>
        (length (gb_balance gb) < 2
         \<or> SetString 16 (drop 2 (gb_balance gb)) \<noteq> None \<and> length (gb_nonce gb) < 2)"
    by (auto simp: balance_of_def hex_amount_def slice_from_def not_less split: option.splits)
  have "gb_balance gb = []" if "j = JObj obj" "json_field ''data'' obj = Some (JObj dat)" "json_field ''block'' dat \<in> {None, Some JNull}"
    for obj dat
    using assms(2) that no_field by (auto simp: graphqlBalance_of_json_def struct_field_def get_str_def)
  then show ?thesis using panics unfolding bal by (auto simp: balance_of_def)
qed

text \<open>
  \<open>Status\<close> reports the header of the latest block. A boolean answer to \<open>eth_syncing\<close> means
  that no sync is running; a progress document is reported with its current and highest block,
  exactly as long as these are below \<open>2 ^ 63\<close>.
\<close>

theorem Status_reports:
  assumes "blockHeaderByNumber ec None w = (Ok head, w1)"
    and "call_context (cl_node ec) ''eth_syncing'' [] w1 = (Ok (Some j), w2)" and "cl_skip_admin ec"
    and "0 \<le> hd_number head" and "hd_number head < 2 ^ 63"
  shows "(\<forall>b. j = JBool b \<longrightarrow> Status ec w = (Ok (\<lparr>bi_hash = hash_hex (cl_geth ec) (hd_hash head),
        bi_index = hd_number head\<rparr>, convertTime (hd_time head), None, []), w2))
    \<and> (\<forall>kvs p. j = JObj kvs \<and> rpcProgress_of_json (cl_geth ec) j = Ok p
        \<and> uint (sp_current p) < 2 ^ 63 \<and> uint (sp_highest p) < 2 ^ 63 \<longrightarrow>
        Status ec w = (Ok (\<lparr>bi_hash = hash_hex (cl_geth ec) (hd_hash head), bi_index = hd_number head\<rparr>,
          convertTime (hd_time head),
          Some \<lparr>current_index = Some (uint (sp_current p)), target_index = Some (uint (sp_highest p))\<rparr>, []), w2))"
proof -
  have n: "wrap64 (hd_number head) = hd_number head"
    using assms(4,5) by (simp add: int64_range_def)
  have u: "wrap64 (uint x) = uint x" if "uint x < 2 ^ 63" for x :: uint64
    using that by (intro wrap64_id int64_range_uint)
  show ?thesis
    using assms(1,2,3)
    by (auto simp: Status_def io_bind_def io_lift_def syncProgress_def json_parse_def peers_def Let_def n u)
qed

section \<open>Concrete instances of the properties\<close>

definition pool_reply :: json where
  "pool_reply = JObj [(''pending'', JObj [(''0x1'', JObj [(''0'', JObj []), (''1'', JObj [])])]),
     (''queued'', JObj [(''0x2'', JObj [(''7'', JObj [])])])]"

definition status_client :: "int client" where
  "status_client = mock_client\<lparr>cl_skip_admin := True, cl_node := mock_node\<lparr>
     call_context := (\<lambda>m args held. (Ok (Some (if m = ''txpool_content'' then pool_reply
        else if m = ''eth_syncing'' then JObj [(''currentBlock'', JStr ''0x5''), (''highestBlock'', JStr ''0x9'')]
        else mock_block)), held)),
     graphql_query := (\<lambda>q held. (Ok (Some (JObj [(''data'', JObj [(''block'', JObj [(''hash'', JStr ''0x7''),
        (''number'', JNum ''3''), (''account'', JObj [(''balance'', JStr ''0xff''),
          (''transactionCount'', JStr ''0x2''), (''code'', JStr ''0x'')])])])])), held))\<rparr>\<rparr>"

theorem GetMempool_complete_witness:
  "\<exists>ids. GetMempool status_client 0 = (Ok ids, 0) \<and> mset ids = {#''0xb'', ''0xb'', ''0xb''#}"
proof -
  let ?t = "\<lparr>rp_tx = Some mock_tx, rp_block_number = None, rp_block_hash = None, rp_from = None\<rparr>"
  let ?p = "[(''0x1'', [(''0'', ?t), (''1'', ?t)])]" and ?q = "[(''0x2'', [(''7'', ?t)])]"
  have G: "cl_geth status_client = standin" "cl_order status_client = rev" by (simp_all add: status_client_def)
  have c: "call_context (cl_node status_client) ''txpool_content'' [] 0 = (Ok (Some pool_reply), 0)"
    by (simp add: status_client_def)
  have d: "txPoolContent_of_json (cl_geth status_client) pool_reply = Ok (?p, ?q)"
    unfolding G by code_simp
  have "hash_hex standin 11 = ''0xb''" by code_simp
  then show ?thesis
    using GetMempool_complete [OF _ c d]
    by (simp add: G pool_present_def pool_hashes_def entry_hash_def mock_tx_def)
qed

theorem Balance_roundtrip_witness:
  "\<exists>r. Balance status_client ''0x1'' None 0 = (Ok r, 0) \<and> ab_block r = \<lparr>bi_hash = ''0x7'', bi_index = 3\<rparr>
     \<and> map (\<lambda>x. SetString 10 (amt_value x)) (ab_balances r) = [Some 255]"
proof -
  let ?j = "JObj [(''data'', JObj [(''block'', JObj [(''hash'', JStr ''0x7''),
        (''number'', JNum ''3''), (''account'', JObj [(''balance'', JStr ''0xff''),
          (''transactionCount'', JStr ''0x2''), (''code'', JStr ''0x'')])])])]"
  have q: "graphql_query (cl_node status_client) x 0 = (Ok (Some ?j), 0)" for x
    by (simp add: status_client_def)
  have d: "graphqlBalance_of_json ?j = Ok \<lparr>gb_errors = [], gb_hash = ''0x7'', gb_number = 3,
      gb_balance = ''0x'' @ digits 16 255, gb_nonce = ''0x'' @ digits 16 2, gb_code = ''0x''\<rparr>"
    by code_simp
  show ?thesis
    using Balance_roundtrip [OF q d, where b = None and a = "''0x1''"] by (auto simp: map_eq_Cons_conv)
qed

text \<open>An unknown block, first as \<open>testdata/account_balance_invalid_block.json\<close> has it, then without the errors.\<close>

definition null_block_reply :: "json_map \<Rightarrow> json" where
  "null_block_reply errs = JObj (errs @ [(''data'', JObj [(''block'', JNull)])])"

definition hash_not_found :: json_map where
  "hash_not_found = [(''errors'', JArr [JObj [(''message'', JStr ''header for hash not found''), (''path'', JArr [JStr ''block''])]])]"

definition replying :: "json \<Rightarrow> int client" where
  "replying j = mock_client\<lparr>cl_node := mock_node\<lparr>graphql_query := (\<lambda>q held. (Ok (Some j), held))\<rparr>\<rparr>"

theorem Balance_replies_witness:
  "(\<exists>e. Balance (replying (null_block_reply hash_not_found)) ''0x1'' (Some \<lparr>pb_hash = Some ''0x7'', pb_index = None\<rparr>) 4 = (Err e, 4))
   \<and> Balance (replying (null_block_reply [])) ''0x1'' (Some \<lparr>pb_hash = None, pb_index = Some 99\<rparr>) 4 = (Crash IndexOutOfRange, 4)"
proof -
  let ?gb = "\<lambda>errs. \<lparr>gb_errors = errs, gb_hash = [], gb_number = 0, gb_balance = [], gb_nonce = [], gb_code = []\<rparr>"
  have d: "graphqlBalance_of_json (null_block_reply hash_not_found) = Ok (?gb [(''header for hash not found'', [''block''])])"
    "graphqlBalance_of_json (null_block_reply []) = Ok (?gb [])"
    by code_simp+
  have q: "graphql_query (cl_node (replying j)) x 4 = (Ok (Some j), 4)" for j x by (simp add: replying_def)
  show ?thesis using Balance_replies [OF q d(1)] Balance_replies [OF q d(2)] by fastforce
qed

definition progress_reply :: json where
  "progress_reply = JObj [(''currentBlock'', JStr ''0x5''), (''highestBlock'', JStr ''0x9'')]"

lemma status_calls:
  "blockHeaderByNumber status_client None 0 = (Ok mock_header, 0)"
  "call_context (cl_node status_client) ''eth_syncing'' [] 0 = (Ok (Some progress_reply), 0)"
  "rpcProgress_of_json standin progress_reply
     = Ok \<lparr>sp_starting = 0, sp_current = 5, sp_highest = 9, sp_pulled = 0, sp_known = 0\<rparr>"
  "hash_hex standin 7 = ''0x7''" "convertTime 1000 = 1000000"
  "cl_skip_admin status_client" "cl_geth status_client = standin"
proof -
  show G: "cl_geth status_client = standin" and "cl_skip_admin status_client"
    by (simp_all add: status_client_def)
  show "blockHeaderByNumber status_client None 0 = (Ok mock_header, 0)"
    using mock_calls(1)
    by (simp add: blockHeaderByNumber_def call_ptr_def io_bind_def io_lift_def G ptr_reply_def ptr_value_def)
       (simp add: status_client_def mock_block_def ptr_reply_def ptr_value_def io_lift_def)
  show "call_context (cl_node status_client) ''eth_syncing'' [] 0 = (Ok (Some progress_reply), 0)"
    by (simp add: status_client_def progress_reply_def)
  show "rpcProgress_of_json standin progress_reply
      = Ok \<lparr>sp_starting = 0, sp_current = 5, sp_highest = 9, sp_pulled = 0, sp_known = 0\<rparr>"
    and "hash_hex standin 7 = ''0x7''" and "convertTime 1000 = 1000000"
    by code_simp+
qed

lemma status_example:
  "Status status_client 0 = (Ok (\<lparr>bi_hash = ''0x7'', bi_index = 3\<rparr>, 1000000,
     Some \<lparr>current_index = Some 5, target_index = Some 9\<rparr>, []), 0)"
  by (simp add: Status_def io_bind_def io_lift_def syncProgress_def json_parse_def peers_def Let_def status_calls)
    (simp add: progress_reply_def status_calls [unfolded progress_reply_def] mock_header_def int64_range_def json_parse_def)

theorem Status_reports_witness:
  "\<exists>s. Status status_client 0 = (Ok (\<lparr>bi_hash = ''0x7'', bi_index = 3\<rparr>, 1000000, Some s, []), 0)
     \<and> current_index s = Some 5 \<and> target_index s = Some 9"
  using Status_reports [OF status_calls(1,2)] status_calls(3-)
  by (simp add: mock_header_def) (simp add: progress_reply_def)

end
