(* ===== verification/CallApi.thy ===== *)
theory CallApi
  imports Blocks
begin

text \<open>
  The \<open>/call\<close> interface of the client (\<open>ethereum/client.go\<close>): the four methods \<open>Call\<close>
  dispatches on, the decoding and validation of their parameters, and the calls they make to
  the node. The decoding goes through \<open>UnmarshalMap\<close> of the Rosetta SDK, which turns the map
  into a JSON document (\<open>sdk_document\<close>) and decodes that.
\<close>

section \<open>Inputs\<close>

text \<open>\<open>GetBlockByNumberInput\<close>, \<open>GetTransactionReceiptInput\<close> and \<open>GetCallInput\<close>.\<close>

record block_input =
  bin_index :: "int option"
  bin_show_details :: bool

record call_input =
  cin_block_index :: int
  cin_block_hash :: string
  cin_from :: string
  cin_to :: string
  cin_gas :: int
  cin_gas_price :: int
  cin_value :: int
  cin_data :: string

definition block_input_of_json :: "json \<Rightarrow> block_input outcome" where
  "block_input_of_json j =
     andThen (json_struct j) (\<lambda>obj.
     andThen (get_int_ptr obj ''index'') (\<lambda>i.
     andThen (get_bool obj ''show_transaction_details'') (\<lambda>b.
       Ok \<lparr>bin_index = i, bin_show_details = b\<rparr>)))"

definition receipt_input_of_json :: "json \<Rightarrow> string outcome" where
  "receipt_input_of_json j = andThen (json_struct j) (\<lambda>obj. get_str obj ''tx_hash'')"

definition call_input_of_json :: "json \<Rightarrow> call_input outcome" where
  "call_input_of_json j =
     andThen (json_struct j) (\<lambda>obj.
     andThen (get_int obj ''index'') (\<lambda>i.
     andThen (get_str obj ''hash'') (\<lambda>h.
     andThen (get_str obj ''from'') (\<lambda>f.
     andThen (get_str obj ''to'') (\<lambda>t.
     andThen (get_int obj ''gas'') (\<lambda>g.
     andThen (get_int obj ''gas_price'') (\<lambda>gp.
     andThen (get_int obj ''value'') (\<lambda>v.
     andThen (get_str obj ''data'') (\<lambda>d.
       Ok \<lparr>cin_block_index = i, cin_block_hash = h, cin_from = f, cin_to = t, cin_gas = g,
           cin_gas_price = gp, cin_value = v, cin_data = d\<rparr>)))))))))"

definition UnmarshalMap :: "sdk \<Rightarrow> (json \<Rightarrow> 'a outcome) \<Rightarrow> json_map \<Rightarrow> 'a outcome" where
  "UnmarshalMap S dec m = andThen (sdk_document S m) dec"

text \<open>\<open>fmt.Errorf("%w: %s", s, err.Error())\<close>: the text of an error under a sentinel.\<close>

definition under :: "sentinel \<Rightarrow> gerr \<Rightarrow> gerr" where
  "under s e = Wrapf (Sentinel s) ('': '' @ error_text e)"

definition validateCallInput :: "sdk \<Rightarrow> json_map \<Rightarrow> call_input outcome" where
  "validateCallInput S params =
     andThen (mapErr (under ErrCallParametersInvalid) (UnmarshalMap S call_input_of_json params)) (\<lambda>input.
       if length (cin_to input) = 0
         then Err (Wrapf (Sentinel ErrCallParametersInvalid) '':to address is missing from parameters'')
       else if length (cin_data input) = 0
         then Err (Wrapf (Sentinel ErrCallParametersInvalid) '':data is missing from parameters'')
       else Ok input)"

section \<open>The methods\<close>

definition blockByNumber :: "'w client \<Rightarrow> int option \<Rightarrow> bool \<Rightarrow> ('w, gerr, json_map) io" where
  "blockByNumber ec idx showTxDetails =
     io_bind (call_context (cl_node ec) ''eth_getBlockByNumber''
        [JStr (toBlockNumArg (cl_geth ec) idx), JBool showTxDetails])
      (\<lambda>r. io_lift (case r of
          None \<Rightarrow> Ok []
        | Some JNull \<Rightarrow> Err (not_found (cl_geth ec))
        | Some j \<Rightarrow> json_map_value j))"

text \<open>The block the call is evaluated at; an index that is not positive is ignored.\<close>

definition call_block_query :: "geth \<Rightarrow> call_input \<Rightarrow> string" where
  "call_block_query G input =
     (if 0 < cin_block_index input then toBlockNumArg G (Some (cin_block_index input))
      else if 0 < length (cin_block_hash input) then cin_block_hash input
      else ''latest'')"

definition valid_address :: "geth \<Rightarrow> string \<Rightarrow> unit outcome" where
  "valid_address G s = (case ChecksumAddress G s of
      None \<Rightarrow> Err (Sentinel ErrCallParametersInvalid) | Some _ \<Rightarrow> Ok ())"

definition contractCall :: "'w client \<Rightarrow> json_map \<Rightarrow> ('w, gerr, json_map) io" where
  "contractCall ec params =
     io_bind (io_lift (validateCallInput (cl_sdk ec) params)) (\<lambda>input.
     io_bind (io_lift (valid_address (cl_geth ec) (cin_to input))) (\<lambda>_.
     io_bind (call_context (cl_node ec) ''eth_call''
        [JObj [(''data'', JStr (cin_data input)), (''to'', JStr (cin_to input))],
         JStr (call_block_query (cl_geth ec) input)])
      (\<lambda>r. io_lift (andThen (str_value ''string'' r) (\<lambda>resp. Ok [(''data'', JStr resp)])))))"

definition estimateGas :: "'w client \<Rightarrow> json_map \<Rightarrow> ('w, gerr, json_map) io" where
  "estimateGas ec params =
     io_bind (io_lift (validateCallInput (cl_sdk ec) params)) (\<lambda>input.
     io_bind (io_lift (valid_address (cl_geth ec) (cin_to input))) (\<lambda>_.
     io_bind (io_lift (valid_address (cl_geth ec) (cin_from input))) (\<lambda>_.
     io_bind (call_context (cl_node ec) ''eth_estimateGas''
        [JObj [(''data'', JStr (cin_data input)), (''from'', JStr (cin_from input)),
               (''to'', JStr (cin_to input))]])
      (\<lambda>r. io_lift (andThen (str_value ''string'' r) (\<lambda>resp. Ok [(''data'', JStr resp)]))))))"

text \<open>The case \<open>eth_getTransactionReceipt\<close>.\<close>

definition receipt_document :: "receipt option \<times> gerr option \<Rightarrow> json_map outcome" where
  "receipt_document = (\<lambda>(receipt, err). case err of
      Some e \<Rightarrow> Err e
    | None \<Rightarrow> andThen (deref receipt) (\<lambda>rc.
        mapErr (under ErrCallOutputMarshal) (andThen (rc_marshal rc) json_map_value)))"

definition callReceipt :: "'w client \<Rightarrow> json_map \<Rightarrow> ('w, gerr, json_map) io" where
  "callReceipt ec params =
     io_bind (io_lift (mapErr (under ErrCallParametersInvalid)
        (UnmarshalMap (cl_sdk ec) receipt_input_of_json params))) (\<lambda>txHash.
     if length txHash = 0
       then io_lift (Err (Wrapf (Sentinel ErrCallParametersInvalid) '':tx_hash missing from params''))
     else io_bind (transactionReceipt ec (hex_to_hash (cl_geth ec) txHash)) (\<lambda>fetched.
       io_lift (receipt_document fetched)))"

definition callBlock :: "'w client \<Rightarrow> json_map \<Rightarrow> ('w, gerr, json_map) io" where
  "callBlock ec params =
     io_bind (io_lift (mapErr (under ErrCallParametersInvalid)
        (UnmarshalMap (cl_sdk ec) block_input_of_json params))) (\<lambda>input.
     blockByNumber ec (bin_index input) (bin_show_details input))"

definition call_method :: "'w client \<Rightarrow> string \<Rightarrow> json_map \<Rightarrow> ('w, gerr, json_map) io" where
  "call_method ec meth params =
     (if meth = ''eth_getBlockByNumber'' then callBlock ec params
      else if meth = ''eth_getTransactionReceipt'' then callReceipt ec params
      else if meth = ''eth_call'' then contractCall ec params
      else if meth = ''eth_estimateGas'' then estimateGas ec params
      else io_lift (Err (Wrapf (Sentinel ErrCallMethodInvalid) ('': '' @ meth))))"

section \<open>Errors\<close>

lemma errors_is_under [simp]: "errors_is (under s e) t \<longleftrightarrow> s = t"
  by (simp add: under_def)

text \<open>A failure of the parameters, as opposed to one of the node.\<close>

definition bad_params :: "'a outcome \<Rightarrow> bool" where
  "bad_params r \<longleftrightarrow> (\<exists>e. r = Err e \<and> errors_is e ErrCallParametersInvalid)"

lemma validateCallInput_Err:
  "validateCallInput S params = Err e \<Longrightarrow> errors_is e ErrCallParametersInvalid"
  by (auto simp: validateCallInput_def andThen_Err_iff mapErr_Err_iff split: if_splits)

lemma validateCallInput_Ok:
  "validateCallInput S params = Ok i \<Longrightarrow> cin_to i \<noteq> [] \<and> cin_data i \<noteq> []"
  by (auto simp: validateCallInput_def split: if_splits)

section \<open>Properties\<close>

text \<open>
  \<open>Call\<close> and the declared list of methods agree: a method outside \<open>CallMethods\<close> is refused
  with \<open>ErrCallMethodInvalid\<close> and without asking the node, so a call that returns a result has a
  declared method.
\<close>

theorem Call_methods:
  "(meth \<notin> set CallMethods \<longrightarrow> (\<exists>e. call_method ec meth params w = (Err e, w)
      \<and> errors_is e ErrCallMethodInvalid))
   \<and> (\<forall>r w'. call_method ec meth params w = (Ok r, w') \<longrightarrow> meth \<in> set CallMethods)"
  by (auto simp: call_method_def CallMethods_def io_lift_def)

text \<open>
  Bad parameters never reach the node: where the parameters of \<open>eth_call\<close> or
  \<open>eth_estimateGas\<close> do not decode, lack the data or the address, or name no valid address, the
  call fails with \<open>ErrCallParametersInvalid\<close> and the node is left untouched.
\<close>

theorem contractCall_validates:
  assumes "\<forall>c. validateCallInput (cl_sdk ec) params \<noteq> Crash c"
    and "\<forall>i. validateCallInput (cl_sdk ec) params = Ok i \<longrightarrow>
       ChecksumAddress (cl_geth ec) (cin_to i) = None"
  shows "(\<exists>e. contractCall ec params w = (Err e, w) \<and> errors_is e ErrCallParametersInvalid)
    \<and> (\<exists>e. estimateGas ec params w = (Err e, w) \<and> errors_is e ErrCallParametersInvalid)"
proof (cases "validateCallInput (cl_sdk ec) params")
  case (Ok i)
  with assms(2) show ?thesis
    by (simp add: contractCall_def estimateGas_def valid_address_def io_lift_def)
next
  case (Err e)
  with validateCallInput_Err [OF Err] show ?thesis
    by (simp add: contractCall_def estimateGas_def io_lift_def)
qed (use assms(1) in auto)

text \<open>
  A valid \<open>eth_call\<close> asks the node exactly once, at the block the parameters name: a positive
  index wins over a hash, a hash over the latest block; an index of 0, the genesis block, is
  treated as if it were absent.
\<close>

theorem contractCall_block:
  assumes "validateCallInput (cl_sdk ec) params = Ok i"
    and "ChecksumAddress (cl_geth ec) (cin_to i) = Some c"
    and "call_context (cl_node ec) ''eth_call''
       [JObj [(''data'', JStr (cin_data i)), (''to'', JStr (cin_to i))],
        JStr (if 0 < cin_block_index i then encode_big (cl_geth ec) (cin_block_index i)
              else if cin_block_hash i \<noteq> [] then cin_block_hash i else ''latest'')] w
       = (Ok (Some (JStr resp)), w')"
  shows "call_method ec ''eth_call'' params w = (Ok [(''data'', JStr resp)], w')"
proof -
  have q: "call_block_query (cl_geth ec) i = (if 0 < cin_block_index i
      then encode_big (cl_geth ec) (cin_block_index i)
      else if cin_block_hash i \<noteq> [] then cin_block_hash i else ''latest'')"
    by (simp add: call_block_query_def toBlockNumArg_def)
  show ?thesis
    using assms(3)
    by (simp add: call_method_def contractCall_def assms(1,2) valid_address_def q io_bind_def io_lift_def)
qed

text \<open>
  A receipt that is fetched but cannot be marshalled is reported as \<open>ErrCallOutputMarshal\<close>,
  an error of the fetch is passed on unchanged, and a missing hash is \<open>ErrCallParametersInvalid\<close>.
\<close>

theorem callReceipt_errors:
  assumes "UnmarshalMap (cl_sdk ec) receipt_input_of_json params = Ok h"
  shows "(h = [] \<longrightarrow> (\<exists>e. callReceipt ec params w = (Err e, w) \<and> errors_is e ErrCallParametersInvalid))
    \<and> (\<forall>p e w'. h \<noteq> [] \<and> transactionReceipt ec (hex_to_hash (cl_geth ec) h) w = (Ok (p, Some e), w')
        \<longrightarrow> callReceipt ec params w = (Err e, w'))
    \<and> (\<forall>rc e w'. h \<noteq> [] \<and> transactionReceipt ec (hex_to_hash (cl_geth ec) h) w = (Ok (Some rc, None), w')
        \<and> rc_marshal rc = Err e \<longrightarrow>
          (\<exists>e'. callReceipt ec params w = (Err e', w') \<and> errors_is e' ErrCallOutputMarshal))"
  using assms
  by (auto simp: callReceipt_def receipt_document_def io_bind_def io_lift_def)

section \<open>Concrete instances of the properties\<close>

definition call_client :: "int client" where
  "call_client = mock_client\<lparr>cl_node := mock_node\<lparr>call_context := (\<lambda>m args held.
     (Ok (Some (JStr (case args of [_, JStr q] \<Rightarrow> q | _ \<Rightarrow> ''none''))), held + 1))\<rparr>\<rparr>"

lemma call_client_simps [simp]: "cl_sdk call_client = standin_sdk" "cl_geth call_client = standin"
  by (simp_all add: call_client_def mock_client_def)

definition call_params :: json_map where
  "call_params = [(''to'', JStr ''0x5''), (''data'', JStr ''0x''), (''index'', JNum ''0'')]"

theorem Call_methods_witness:
  "\<exists>e. call_method call_client ''eth_sign'' [] 7 = (Err e, 7) \<and> errors_is e ErrCallMethodInvalid"
  using Call_methods [where meth = "''eth_sign''" and ec = call_client and params = "[]" and w = 7]
  by (simp add: CallMethods_def)

theorem contractCall_validates_witness:
  "\<exists>e. contractCall call_client [(''to'', JStr ''nobody''), (''data'', JStr ''0x'')] 7 = (Err e, 7)
     \<and> errors_is e ErrCallParametersInvalid"
proof -
  let ?p = "[(''to'', JStr ''nobody''), (''data'', JStr ''0x'')]"
  have v: "validateCallInput standin_sdk ?p = Ok \<lparr>cin_block_index = 0, cin_block_hash = [], cin_from = [],
     cin_to = ''nobody'', cin_gas = 0, cin_gas_price = 0, cin_value = 0, cin_data = ''0x''\<rparr>"
    by code_simp
  have "ChecksumAddress standin ''nobody'' = None" by code_simp
  then show ?thesis
    using contractCall_validates [where ec = call_client and params = ?p and w = 7] by (simp add: v)
qed

theorem contractCall_block_witness:
  "call_method call_client ''eth_call'' call_params 7 = (Ok [(''data'', JStr ''latest'')], 8)"
proof -
  have v: "validateCallInput (cl_sdk call_client) call_params = Ok \<lparr>cin_block_index = 0, cin_block_hash = [],
     cin_from = [], cin_to = ''0x5'', cin_gas = 0, cin_gas_price = 0, cin_value = 0, cin_data = ''0x''\<rparr>"
    unfolding call_client_simps by code_simp
  have "ChecksumAddress (cl_geth call_client) ''0x5'' = Some ''0x5''"
    unfolding call_client_simps by code_simp
  then show ?thesis
    by (intro contractCall_block [OF v]) (simp_all add: call_client_def)
qed

theorem callReceipt_errors_witness:
  "\<exists>e. callReceipt call_client [(''tx_hash'', JStr [])] 7 = (Err e, 7) \<and> errors_is e ErrCallParametersInvalid"
proof -
  have "UnmarshalMap (cl_sdk call_client) receipt_input_of_json [(''tx_hash'', JStr [])] = Ok []"
    unfolding call_client_simps by code_simp
  from callReceipt_errors [OF this] show ?thesis by blast
qed

end
