(* ===== verification/Configuration.thy ===== *)
theory Configuration
  imports GethLib
begin

text \<open>
  \<open>configuration/configuration.go\<close>: the configuration read from the environment. The
  environment is a function from names to values, the empty string standing for a variable that
  is not set, as \<open>os.Getenv\<close> returns it.
\<close>

section \<open>Constants\<close>

type_synonym mode = string

definition Online :: mode where "Online = ''ONLINE''"
definition Offline :: mode where "Offline = ''OFFLINE''"
definition Mainnet :: string where "Mainnet = ''MAINNET''"
definition Ropsten :: string where "Ropsten = ''ROPSTEN''"
definition Rinkeby :: string where "Rinkeby = ''RINKEBY''"
definition Goerli :: string where "Goerli = ''GOERLI''"
definition Testnet :: string where "Testnet = ''TESTNET''"
definition ModeEnv :: string where "ModeEnv = ''MODE''"
definition NetworkEnv :: string where "NetworkEnv = ''NETWORK''"
definition PortEnv :: string where "PortEnv = ''PORT''"
definition GethEnv :: string where "GethEnv = ''GETH''"
definition DefaultGethURL :: string where "DefaultGethURL = ''http://localhost:8545''"
definition SkipGethAdminEnv :: string where "SkipGethAdminEnv = ''SKIP_GETH_ADMIN''"
definition MiddlewareVersion :: string where "MiddlewareVersion = ''0.0.4''"

lemmas config_consts = Online_def Offline_def Mainnet_def Ropsten_def Rinkeby_def Goerli_def
  Testnet_def ModeEnv_def NetworkEnv_def PortEnv_def GethEnv_def DefaultGethURL_def SkipGethAdminEnv_def

text \<open>The chain configurations and genesis hashes of go-ethereum's \<open>params\<close> package.\<close>

record chain_params =
  mainnet_config :: chain_config
  ropsten_config :: chain_config
  rinkeby_config :: chain_config
  goerli_config :: chain_config
  clique_changes :: chain_config
  mainnet_genesis :: hash
  ropsten_genesis :: hash
  rinkeby_genesis :: hash
  goerli_genesis :: hash

definition MainnetGenesisBlockIdentifier :: "geth \<Rightarrow> chain_params \<Rightarrow> block_identifier" where
  "MainnetGenesisBlockIdentifier G P =
     \<lparr>bi_hash = hash_hex G (mainnet_genesis P), bi_index = GenesisBlockIndex\<rparr>"

definition RopstenGenesisBlockIdentifier :: "geth \<Rightarrow> chain_params \<Rightarrow> block_identifier" where
  "RopstenGenesisBlockIdentifier G P =
     \<lparr>bi_hash = hash_hex G (ropsten_genesis P), bi_index = GenesisBlockIndex\<rparr>"

definition RinkebyGenesisBlockIdentifier :: "geth \<Rightarrow> chain_params \<Rightarrow> block_identifier" where
  "RinkebyGenesisBlockIdentifier G P =
     \<lparr>bi_hash = hash_hex G (rinkeby_genesis P), bi_index = GenesisBlockIndex\<rparr>"

definition GoerliGenesisBlockIdentifier :: "geth \<Rightarrow> chain_params \<Rightarrow> block_identifier" where
  "GoerliGenesisBlockIdentifier G P =
     \<lparr>bi_hash = hash_hex G (goerli_genesis P), bi_index = GenesisBlockIndex\<rparr>"

section \<open>The configuration\<close>

record configuration =
  cfg_mode :: mode
  cfg_network :: "network_identifier option"
  cfg_genesis :: "block_identifier option"
  cfg_geth_url :: string
  cfg_remote_geth :: bool
  cfg_port :: int
  cfg_geth_arguments :: string
  cfg_skip_admin :: bool
  cfg_params :: "chain_config option"

definition empty_configuration :: configuration where
  "empty_configuration = \<lparr>cfg_mode = [], cfg_network = None, cfg_genesis = None, cfg_geth_url = [],
     cfg_remote_geth = False, cfg_port = 0, cfg_geth_arguments = [], cfg_skip_admin = False,
     cfg_params = None\<rparr>"

definition quoted :: "string \<Rightarrow> string" where
  "quoted s = [CHR 0x22] @ s @ [CHR 0x22]"

text \<open>The errors of \<open>strconv\<close>; the quotation leaves out the escapes of unprintable characters.\<close>

definition Atoi_error :: "string \<Rightarrow> gerr" where
  "Atoi_error s = External (''strconv.Atoi: parsing '' @ quoted s @
     (if SetString 10 s = None then '': invalid syntax'' else '': value out of range''))"

definition ParseBool_error :: "string \<Rightarrow> gerr" where
  "ParseBool_error s = External (''strconv.ParseBool: parsing '' @ quoted s @ '': invalid syntax'')"

definition load_mode :: "mode \<Rightarrow> configuration \<Rightarrow> configuration outcome" where
  "load_mode modeValue config =
     (if modeValue = Online then Ok (config\<lparr>cfg_mode := Online\<rparr>)
      else if modeValue = Offline then Ok (config\<lparr>cfg_mode := Offline\<rparr>)
      else if modeValue = [] then Err (ErrorNew ''MODE must be populated'')
      else Err (ErrorNew (modeValue @ '' is not a valid mode'')))"

definition set_network ::
  "string \<Rightarrow> block_identifier option \<Rightarrow> chain_config \<Rightarrow> string \<Rightarrow> configuration \<Rightarrow> configuration" where
  "set_network net genesis p args config = config\<lparr>cfg_network := Some \<lparr>ni_blockchain = Blockchain,
     ni_network = net\<rparr>, cfg_genesis := genesis, cfg_params := Some p, cfg_geth_arguments := args\<rparr>"

definition load_network ::
  "geth \<Rightarrow> chain_params \<Rightarrow> string \<Rightarrow> configuration \<Rightarrow> configuration outcome" where
  "load_network G P networkValue config =
     (if networkValue = Mainnet then Ok (set_network MainnetNetwork
        (Some (MainnetGenesisBlockIdentifier G P)) (mainnet_config P) MainnetGethArguments config)
      else if networkValue = Ropsten then Ok (set_network RopstenNetwork
        (Some (RopstenGenesisBlockIdentifier G P)) (ropsten_config P) RopstenGethArguments config)
      else if networkValue = Rinkeby then Ok (set_network RinkebyNetwork
        (Some (RinkebyGenesisBlockIdentifier G P)) (rinkeby_config P) RinkebyGethArguments config)
      else if networkValue = Goerli then Ok (set_network GoerliNetwork
        (Some (GoerliGenesisBlockIdentifier G P)) (goerli_config P) GoerliGethArguments config)
      else if networkValue = Testnet then Ok (set_network DevNetwork
        None (clique_changes P) DevGethArguments config)
      else if networkValue = [] then Err (ErrorNew ''NETWORK must be populated'')
      else Err (ErrorNew (networkValue @ '' is not a valid network'')))"

definition load_geth :: "string \<Rightarrow> configuration \<Rightarrow> configuration" where
  "load_geth envGethURL config =
     (let config' = config\<lparr>cfg_geth_url := DefaultGethURL\<rparr>
      in if 0 < length envGethURL
         then config'\<lparr>cfg_remote_geth := True, cfg_geth_url := envGethURL\<rparr> else config')"

definition load_skip_admin :: "string \<Rightarrow> configuration \<Rightarrow> configuration outcome" where
  "load_skip_admin envSkip config =
     (if 0 < length envSkip
      then (case ParseBool envSkip of
          None \<Rightarrow> Err (Wrapf (ParseBool_error envSkip) ('': unable to parse SKIP_GETH_ADMIN '' @ envSkip))
        | Some val \<Rightarrow> Ok (config\<lparr>cfg_skip_admin := val\<rparr>))
      else Ok (config\<lparr>cfg_skip_admin := False\<rparr>))"

text \<open>A port that parses but is not positive is formatted with \<open>%w\<close> of a nil error.\<close>

definition load_port :: "string \<Rightarrow> configuration \<Rightarrow> configuration outcome" where
  "load_port portValue config =
     (if length portValue = 0 then Err (ErrorNew ''PORT must be populated'')
      else case Atoi portValue of
          None \<Rightarrow> Err (Wrapf (Atoi_error portValue) ('': unable to parse port '' @ portValue))
        | Some port \<Rightarrow> if port \<le> 0
            then Err (ErrorNew (''%!w(<nil>): unable to parse port '' @ portValue))
            else Ok (config\<lparr>cfg_port := port\<rparr>))"

definition LoadConfiguration :: "geth \<Rightarrow> chain_params \<Rightarrow> (string \<Rightarrow> string) \<Rightarrow> configuration outcome" where
  "LoadConfiguration G P env =
     andThen (load_mode (env ModeEnv) empty_configuration) (\<lambda>c1.
     andThen (load_network G P (env NetworkEnv) c1) (\<lambda>c2.
     andThen (load_skip_admin (env SkipGethAdminEnv) (load_geth (env GethEnv) c2)) (\<lambda>c3.
       load_port (env PortEnv) c3)))"

section \<open>The steps\<close>

definition valid_modes :: "mode list" where
  "valid_modes = [Online, Offline]"

definition valid_networks :: "string list" where
  "valid_networks = [Mainnet, Ropsten, Rinkeby, Goerli, Testnet]"

definition valid_env :: "(string \<Rightarrow> string) \<Rightarrow> bool" where
  "valid_env env \<longleftrightarrow> env ModeEnv \<in> set valid_modes \<and> env NetworkEnv \<in> set valid_networks
     \<and> (env SkipGethAdminEnv = [] \<or> ParseBool (env SkipGethAdminEnv) \<noteq> None)
     \<and> (case Atoi (env PortEnv) of None \<Rightarrow> False | Some p \<Rightarrow> 0 < p)"

lemma load_not_Crash [simp]:
  "load_mode m c \<noteq> Crash x" "load_network G P n c \<noteq> Crash x" "load_skip_admin s c \<noteq> Crash x"
  "load_port s c \<noteq> Crash x"
  by (simp_all add: load_mode_def load_network_def load_skip_admin_def load_port_def split: option.split)

lemma load_mode_Ok: "load_mode m c = Ok c' \<longleftrightarrow> m \<in> set valid_modes \<and> c' = c\<lparr>cfg_mode := m\<rparr>"
  by (auto simp: load_mode_def valid_modes_def config_consts)

lemma load_network_valid: "(\<exists>c'. load_network G P n c = Ok c') \<longleftrightarrow> n \<in> set valid_networks"
  by (auto simp: load_network_def valid_networks_def)

lemma load_network_keeps:
  "load_network G P n c = Ok c' \<Longrightarrow> cfg_mode c' = cfg_mode c \<and> cfg_remote_geth c' = cfg_remote_geth c
    \<and> cfg_network c' \<noteq> None \<and> cfg_params c' \<noteq> None \<and> (cfg_genesis c' = None \<longleftrightarrow> n = Testnet)
    \<and> (\<forall>b. cfg_genesis c' = Some b \<longrightarrow> bi_index b = 0)"
  by (auto simp: load_network_def set_network_def config_consts MainnetGenesisBlockIdentifier_def
      RopstenGenesisBlockIdentifier_def RinkebyGenesisBlockIdentifier_def GoerliGenesisBlockIdentifier_def
      GenesisBlockIndex_def split: if_splits)

lemma load_skip_admin_Ok:
  "load_skip_admin s c = Ok c' \<longleftrightarrow> (s = [] \<or> ParseBool s \<noteq> None)
     \<and> c' = c\<lparr>cfg_skip_admin := (s \<noteq> [] \<and> ParseBool s = Some True)\<rparr>"
  by (cases "ParseBool s") (auto simp: load_skip_admin_def)

lemma load_port_Ok:
  "load_port s c = Ok c' \<longleftrightarrow> (\<exists>p. Atoi s = Some p \<and> 0 < p \<and> c' = c\<lparr>cfg_port := p\<rparr>)"
proof (cases "s = []")
  case True
  then show ?thesis by (simp add: load_port_def Atoi_def)
next
  case False
  then show ?thesis by (cases "Atoi s") (auto simp: load_port_def)
qed

lemma LoadConfiguration_reads:
  "if valid_env env then \<exists>c. LoadConfiguration G P env = Ok c else \<exists>e. LoadConfiguration G P env = Err e"
proof (cases "LoadConfiguration G P env")
  case (Ok c)
  then have "valid_env env"
    using load_network_valid [of G P "env NetworkEnv"]
    by (auto simp: LoadConfiguration_def valid_env_def load_mode_Ok load_skip_admin_Ok load_port_Ok)
  with Ok show ?thesis by simp
next
  case (Err e)
  have "\<exists>c. LoadConfiguration G P env = Ok c" if v: "valid_env env"
  proof -
    obtain p where p: "Atoi (env PortEnv) = Some p" "0 < p"
      using v by (auto simp: valid_env_def split: option.splits)
    have "env NetworkEnv \<in> set valid_networks" using v by (simp add: valid_env_def)
    with load_network_valid obtain c2 where "load_network G P (env NetworkEnv)
        (empty_configuration\<lparr>cfg_mode := env ModeEnv\<rparr>) = Ok c2" by blast
    with v p show ?thesis
      by (auto simp: LoadConfiguration_def valid_env_def load_mode_Ok load_skip_admin_Ok load_port_Ok)
  qed
  with Err show ?thesis by auto
next
  case (Crash c)
  then show ?thesis
    by (simp add: LoadConfiguration_def andThen_Crash_iff)
qed


section \<open>Properties\<close>

text \<open>
  C28. The configuration loads exactly from the valid environments: a known mode and network, a
  boolean or absent \<open>SKIP_GETH_ADMIN\<close>, and a port that is a positive int64. Every other
  environment is refused with an error, none makes the program panic.
\<close>

theorem LoadConfiguration_valid:
  "if valid_env env then \<exists>c. LoadConfiguration G P env = Ok c else \<exists>e. LoadConfiguration G P env = Err e"
  by (rule LoadConfiguration_reads)
text \<open>
  What a loaded configuration holds: the mode and the port of the environment, a network with
  its chain parameters, a genesis block with index 0 (except for \<open>TESTNET\<close>, which has none), and
  the URL of a remote node exactly if \<open>GETH\<close> is set.
\<close>

theorem LoadConfiguration_fields:
  assumes "LoadConfiguration G P env = Ok c"
  shows "cfg_mode c = env ModeEnv \<and> Atoi (env PortEnv) = Some (cfg_port c) \<and> 0 < cfg_port c
    \<and> cfg_network c \<noteq> None \<and> cfg_params c \<noteq> None
    \<and> (cfg_genesis c = None \<longleftrightarrow> env NetworkEnv = Testnet)
    \<and> (\<forall>b. cfg_genesis c = Some b \<longrightarrow> bi_index b = 0)
    \<and> (cfg_remote_geth c \<longleftrightarrow> env GethEnv \<noteq> [])
    \<and> cfg_geth_url c = (if env GethEnv = [] then DefaultGethURL else env GethEnv)"
proof -
  from assms obtain c2 p where c2: "load_network G P (env NetworkEnv)
      (empty_configuration\<lparr>cfg_mode := env ModeEnv\<rparr>) = Ok c2"
    and p: "Atoi (env PortEnv) = Some p" "0 < p"
    and c: "c = (load_geth (env GethEnv) c2)\<lparr>cfg_skip_admin := (env SkipGethAdminEnv \<noteq> []
      \<and> ParseBool (env SkipGethAdminEnv) = Some True), cfg_port := p\<rparr>"
    by (auto simp: LoadConfiguration_def load_mode_Ok load_skip_admin_Ok load_port_Ok)
  from load_network_keeps [OF c2] p show ?thesis
    by (auto simp: c load_geth_def Let_def empty_configuration_def)
qed

text \<open>
  A port of 0 or below is refused, but the message wraps a nil error: it starts with
  \<open>%!w(<nil>)\<close>. And \<open>TESTNET\<close> selects the development network, not Ropsten as the comment on the
  constant says.
\<close>

theorem LoadConfiguration_quirks:
  assumes "valid_env (env(PortEnv := ''1''))"
  shows "(\<forall>p. Atoi (env PortEnv) = Some p \<and> p \<le> 0 \<longrightarrow>
      LoadConfiguration G P env = Err (ErrorNew (''%!w(<nil>): unable to parse port '' @ env PortEnv)))
    \<and> (\<forall>c. env NetworkEnv = Testnet \<and> LoadConfiguration G P env = Ok c \<longrightarrow>
      cfg_network c = Some \<lparr>ni_blockchain = Blockchain, ni_network = DevNetwork\<rparr>
      \<and> cfg_geth_arguments c = DevGethArguments)"
proof -
  have v: "env ModeEnv \<in> set valid_modes" "env NetworkEnv \<in> set valid_networks"
    "env SkipGethAdminEnv = [] \<or> ParseBool (env SkipGethAdminEnv) \<noteq> None"
    using assms by (auto simp: valid_env_def config_consts)
  obtain c2 where c2: "load_network G P (env NetworkEnv) (empty_configuration\<lparr>cfg_mode := env ModeEnv\<rparr>) = Ok c2"
    using v(2) load_network_valid by blast
  obtain c3 where c3: "load_skip_admin (env SkipGethAdminEnv) (load_geth (env GethEnv) c2) = Ok c3"
    using v(3) load_skip_admin_Ok by blast
  have run: "LoadConfiguration G P env = load_port (env PortEnv) c3"
    using v(1) c2 c3 by (simp add: LoadConfiguration_def load_mode_Ok [THEN iffD2])
  have "env PortEnv \<noteq> []" if "Atoi (env PortEnv) = Some p" for p
    using that by (auto simp: Atoi_def)
  then have "LoadConfiguration G P env = Err (ErrorNew (''%!w(<nil>): unable to parse port '' @ env PortEnv))"
    if "Atoi (env PortEnv) = Some p" "p \<le> 0" for p
    using that by (simp add: run load_port_def)
  moreover have "cfg_network c = Some \<lparr>ni_blockchain = Blockchain, ni_network = DevNetwork\<rparr>
      \<and> cfg_geth_arguments c = DevGethArguments"
    if "env NetworkEnv = Testnet" "LoadConfiguration G P env = Ok c" for c
  proof -
    have "c2 = set_network DevNetwork None (clique_changes P) DevGethArguments
        (empty_configuration\<lparr>cfg_mode := env ModeEnv\<rparr>)"
      using c2 that(1) by (simp add: load_network_def config_consts)
    with that(2) c3 show ?thesis
      by (auto simp: run load_port_Ok load_skip_admin_Ok load_geth_def Let_def set_network_def)
  qed
  ultimately show ?thesis by blast
qed

section \<open>Concrete instances of the properties\<close>

definition params_example :: chain_params where
  "params_example = (let c = \<lparr>cc_chain_id = 1, cc_is_byzantium = (\<lambda>n. True), cc_is_constantinople = (\<lambda>n. True)\<rparr>
     in \<lparr>mainnet_config = c, ropsten_config = c, rinkeby_config = c, goerli_config = c, clique_changes = c,
         mainnet_genesis = 1, ropsten_genesis = 2, rinkeby_genesis = 3, goerli_genesis = 4\<rparr>)"

definition env_example :: "string \<Rightarrow> string" where
  "env_example = (\<lambda>_. [])(ModeEnv := ''ONLINE'', NetworkEnv := ''TESTNET'', PortEnv := ''80'')"

theorem LoadConfiguration_fields_witness:
  "\<exists>c. LoadConfiguration standin params_example env_example = Ok c \<and> cfg_port c = 80 \<and> \<not> cfg_remote_geth c
     \<and> cfg_genesis c = None"
proof -
  have "ok_with (\<lambda>_. True) (LoadConfiguration standin params_example env_example)" by code_simp
  then obtain c where c: "LoadConfiguration standin params_example env_example = Ok c"
    by (auto simp: ok_with_iff)
  have "Atoi ''80'' = Some 80" by code_simp
  with LoadConfiguration_fields [OF c] c show ?thesis by (simp add: env_example_def config_consts)
qed

theorem LoadConfiguration_quirks_witness:
  "LoadConfiguration standin params_example (env_example(PortEnv := ''-1''))
     = Err (ErrorNew ''%!w(<nil>): unable to parse port -1'')"
proof -
  have "valid_env ((env_example(PortEnv := ''-1''))(PortEnv := ''1''))" "Atoi ''-1'' = Some (- 1)"
    by code_simp+
  with LoadConfiguration_quirks [of "env_example(PortEnv := ''-1'')" standin params_example]
  show ?thesis by simp
qed

end
