(* ===== verification/Services.thy ===== *)
theory Services
  imports ServiceErrors NodeStatus CallApi Configuration
begin

text \<open>
  The data services (\<open>services/\<close>): account, block, call, mempool and network. They reach the
  node only through the interface \<open>Client\<close> of \<open>services/types.go\<close>, a record of operations here;
  \<open>ethereum_client\<close> is the client of the \<open>ethereum\<close> package as such an interface. Each handler
  is a function of the configuration, the interface, the request and the world.
\<close>

section \<open>The interface \<open>Client\<close>\<close>

record 'w iface =
  if_Status :: "('w, gerr, block_identifier \<times> int \<times> sync_status option \<times> peer list) io"
  if_Block :: "partial_block_identifier option \<Rightarrow> ('w, gerr, rosetta_block) io"
  if_Transaction :: "block_identifier \<Rightarrow> string \<Rightarrow> ('w, gerr, rosetta_transaction) io"
  if_Balance :: "string \<Rightarrow> partial_block_identifier option \<Rightarrow> ('w, gerr, account_balance) io"
  if_PendingNonceAt :: "address \<Rightarrow> ('w, gerr, uint64) io"
  if_SuggestGasPrice :: "('w, gerr, int) io"
  if_SendTransaction :: "eth_tx \<Rightarrow> ('w, gerr, unit) io"
  if_GetMempool :: "('w, gerr, string list) io"
  if_Call :: "string \<Rightarrow> json_map \<Rightarrow> ('w, gerr, json_map) io"

definition ethereum_client :: "'w client \<Rightarrow> 'w iface" where
  "ethereum_client ec = \<lparr>if_Status = Status ec, if_Block = Block ec, if_Transaction = Transaction ec,
     if_Balance = Balance ec, if_PendingNonceAt = PendingNonceAt ec, if_SuggestGasPrice = SuggestGasPrice ec,
     if_SendTransaction = SendTransaction ec, if_GetMempool = GetMempool ec, if_Call = call_method ec\<rparr>"

section \<open>Handlers\<close>

text \<open>\<open>if err != nil { return nil, wrapErr(r, err) }\<close>\<close>

definition orErr :: "rosetta_error \<Rightarrow> ('w, gerr, 'a) io \<Rightarrow> ('w, rosetta_error, 'a) io" where
  "orErr r = io_mapErr (\<lambda>e. wrapErr r (Some e))"

text \<open>The guard of the handlers that need the node.\<close>

definition online :: "configuration \<Rightarrow> ('w, rosetta_error, 'a) io \<Rightarrow> ('w, rosetta_error, 'a) io" where
  "online config body = (if cfg_mode config \<noteq> Online then io_lift (Err ErrUnavailableOffline) else body)"

definition AccountBalance ::
  "configuration \<Rightarrow> 'w iface \<Rightarrow> string \<times> partial_block_identifier option \<Rightarrow> ('w, rosetta_error, account_balance) io"
where
  "AccountBalance config C request = (case request of (account, block) \<Rightarrow>
     online config (orErr ErrGeth (if_Balance C account block)))"

definition AccountCoins :: "configuration \<Rightarrow> 'w iface \<Rightarrow> 'r \<Rightarrow> ('w, rosetta_error, 'a) io" where
  "AccountCoins config C request = io_lift (Err (wrapErr ErrUnimplemented None))"

definition block_error :: "gerr \<Rightarrow> rosetta_error" where
  "block_error err = (if errors_is err ErrBlockOrphaned then wrapErr ErrBlockOrphaned_svc (Some err)
     else wrapErr ErrGeth (Some err))"

definition BlockService ::
  "configuration \<Rightarrow> 'w iface \<Rightarrow> partial_block_identifier option \<Rightarrow> ('w, rosetta_error, rosetta_block) io" where
  "BlockService config C request = online config (io_mapErr block_error (if_Block C request))"

definition BlockTransaction ::
  "configuration \<Rightarrow> 'w iface \<Rightarrow> block_identifier \<times> string \<Rightarrow> ('w, rosetta_error, rosetta_transaction) io" where
  "BlockTransaction config C request = (case request of (block, h) \<Rightarrow>
     online config (orErr ErrGeth (if_Transaction C block h)))"

definition call_error :: "gerr \<Rightarrow> rosetta_error" where
  "call_error err =
     (if errors_is err ErrCallParametersInvalid then wrapErr ErrCallParametersInvalid_svc (Some err)
      else if errors_is err ErrCallOutputMarshal then wrapErr ErrCallOutputMarshal_svc (Some err)
      else if errors_is err ErrCallMethodInvalid then wrapErr ErrCallMethodInvalid_svc (Some err)
      else wrapErr ErrGeth (Some err))"

definition CallService ::
  "configuration \<Rightarrow> 'w iface \<Rightarrow> string \<times> json_map \<Rightarrow> ('w, rosetta_error, json_map) io" where
  "CallService config C request = (case request of (meth, params) \<Rightarrow>
     online config (io_mapErr call_error (if_Call C meth params)))"

definition Mempool :: "configuration \<Rightarrow> 'w iface \<Rightarrow> 'r \<Rightarrow> ('w, rosetta_error, string list) io" where
  "Mempool config C request = online config (orErr ErrGeth (if_GetMempool C))"

definition MempoolTransaction :: "configuration \<Rightarrow> 'w iface \<Rightarrow> 'r \<Rightarrow> ('w, rosetta_error, 'a) io" where
  "MempoolTransaction config C request = io_lift (Err (wrapErr ErrUnimplemented None))"

definition NetworkList ::
  "configuration \<Rightarrow> 'w iface \<Rightarrow> 'r \<Rightarrow> ('w, rosetta_error, network_identifier option list) io" where
  "NetworkList config C request = io_lift (Ok [cfg_network config])"

record network_options =
  no_node_version :: string
  no_rosetta_version :: string
  no_middleware_version :: string
  no_errors :: "rosetta_error list"
  no_operation_types :: "string list"
  no_operation_statuses :: "operation_status list"
  no_historical_balance :: bool
  no_call_methods :: "string list"

text \<open>The version of the Rosetta API is a constant of the SDK.\<close>

definition NetworkOptions ::
  "string \<Rightarrow> configuration \<Rightarrow> 'w iface \<Rightarrow> 'r \<Rightarrow> ('w, rosetta_error, network_options) io" where
  "NetworkOptions RosettaAPIVersion config C request = io_lift (Ok
     \<lparr>no_node_version = NodeVersion, no_rosetta_version = RosettaAPIVersion,
      no_middleware_version = MiddlewareVersion, no_errors = Errors,
      no_operation_types = OperationTypes, no_operation_statuses = OperationStatuses,
      no_historical_balance = HistoricalBalanceSupported, no_call_methods = CallMethods\<rparr>)"

record network_status =
  ns_current :: block_identifier
  ns_timestamp :: int
  ns_genesis :: "block_identifier option"
  ns_sync :: "sync_status option"
  ns_peers :: "peer list"

definition NetworkStatus :: "configuration \<Rightarrow> 'w iface \<Rightarrow> 'r \<Rightarrow> ('w, rosetta_error, network_status) io" where
  "NetworkStatus config C request =
     online config (io_bind (orErr ErrGeth (if_Status C))
       (\<lambda>(currentBlock, currentTime, syncStatus, ps). io_lift (Ok
          \<lparr>ns_current = currentBlock, ns_timestamp = currentTime, ns_genesis = cfg_genesis config,
           ns_sync = syncStatus, ns_peers = ps\<rparr>)))"

section \<open>The contract of the client\<close>

text \<open>
  What the services may rely on when they pass a result of the client on: a returned block has
  no nil transaction, the first one carries the hash of the block, indices fit an int64, and a
  call that succeeds has a declared method.
\<close>

locale client_contract =
  fixes C :: "'w iface"
  assumes block_ok: "if_Block C bid w = (Ok b, w') \<Longrightarrow>
      \<exists>ts. rb_transactions b = map Some ts \<and> ts \<noteq> [] \<and> rt_hash (hd ts) = bi_hash (rb_identifier b)"
    and block_index: "if_Block C bid w = (Ok b, w') \<Longrightarrow> int64_range (bi_index (rb_identifier b))
      \<and> (bi_index (rb_identifier b) = 0 \<longrightarrow> rb_parent b = rb_identifier b)"
    and call_ok: "if_Call C meth params w = (Ok r, w') \<Longrightarrow> meth \<in> set CallMethods"
begin

lemma served_block:
  assumes "BlockService config C bid w = (Ok b, w')"
  shows "\<exists>ts. rb_transactions b = map Some ts \<and> ts \<noteq> [] \<and> rt_hash (hd ts) = bi_hash (rb_identifier b)"
  using assms block_ok by (auto simp: BlockService_def online_def split: if_splits)

lemma served_block_index:
  assumes "BlockService config C bid w = (Ok b, w')"
  shows "int64_range (bi_index (rb_identifier b))
    \<and> (bi_index (rb_identifier b) = 0 \<longrightarrow> rb_parent b = rb_identifier b)"
  using assms block_index by (auto simp: BlockService_def online_def split: if_splits)

lemma served_call:
  assumes "CallService config C (meth, params) w = (Ok r, w')"
  shows "meth \<in> set CallMethods"
  using assms call_ok by (auto simp: CallService_def online_def split: if_splits)

end

lemma Block_index:
  assumes "Block ec bid w = (Ok b, w')"
  shows "int64_range (bi_index (rb_identifier b))
    \<and> (bi_index (rb_identifier b) = 0 \<longrightarrow> rb_parent b = rb_identifier b)"
proof -
  obtain m args where "getParsedBlock ec m args w = (Ok b, w')"
    using Block_parsed [of ec bid] assms by auto
  from getParsedBlock_Ok [OF this] show ?thesis by auto
qed

lemma call_method_Ok: "call_method ec meth params w = (Ok r, w') \<Longrightarrow> meth \<in> set CallMethods"
  by (auto simp: call_method_def CallMethods_def io_lift_def split: if_splits)

interpretation eth: client_contract "ethereum_client ec" for ec
proof
  fix bid w b w'
  assume "if_Block (ethereum_client ec) bid w = (Ok b, w')"
  then have b: "Block ec bid w = (Ok b, w')" by (simp add: ethereum_client_def)
  then show "int64_range (bi_index (rb_identifier b))
    \<and> (bi_index (rb_identifier b) = 0 \<longrightarrow> rb_parent b = rb_identifier b)" by (rule Block_index)
  obtain m args where "getParsedBlock ec m args w = (Ok b, w')"
    using Block_parsed [of ec bid] b by auto
  then show "\<exists>ts. rb_transactions b = map Some ts \<and> ts \<noteq> [] \<and> rt_hash (hd ts) = bi_hash (rb_identifier b)"
    by (rule getParsedBlock_shape)
next
  fix meth params w r w'
  assume "if_Call (ethereum_client ec) meth params w = (Ok r, w')"
  then show "meth \<in> set CallMethods" by (simp add: ethereum_client_def call_method_Ok)
qed

section \<open>The contract of the endpoints\<close>

text \<open>
  Every endpoint returns declared errors only. A guarded one answers \<open>ErrUnavailableOffline\<close>
  without touching the world when the mode is not \<open>ONLINE\<close>; an open one never uses the client.
\<close>

locale endpoint =
  fixes handler :: "configuration \<Rightarrow> 'w iface \<Rightarrow> 'r \<Rightarrow> ('w, rosetta_error, 'a) io"
  assumes error_declared: "handler config C request w = (Err e, w') \<Longrightarrow> declared_error e"

locale guarded_endpoint = endpoint +
  assumes offline: "cfg_mode config \<noteq> Online \<Longrightarrow> handler config C request w = (Err ErrUnavailableOffline, w)"
begin

lemma offline_client_unused:
  "cfg_mode config \<noteq> Online \<Longrightarrow> handler config C request = handler config C' request"
  by (rule ext) (simp add: offline)

end

locale open_endpoint = endpoint +
  assumes world_unused: "handler config C request w = (fst (handler config C' request w'), w)"
begin

lemma client_unused: "fst (handler config C request w) = fst (handler config C' request w')"
  using world_unused [of config C request w C' w'] by simp

end

text \<open>The rules that discharge the contract of a handler, from its guard to the error it wraps.\<close>

definition declared_errors_only :: "('w, rosetta_error, 'a) io \<Rightarrow> bool" where
  "declared_errors_only m \<longleftrightarrow> (\<forall>w e w'. m w = (Err e, w') \<longrightarrow> declared_error e)"

named_theorems declared_intros

lemma declared_onlyD: "declared_errors_only m \<Longrightarrow> m w = (Err e, w') \<Longrightarrow> declared_error e"
  by (auto simp: declared_errors_only_def)

lemma declared_mapErr [declared_intros]:
  "(\<And>e. declared_error (g e)) \<Longrightarrow> declared_errors_only (io_mapErr g m)"
  by (auto simp: declared_errors_only_def io_mapErr_def mapErr_Err_iff split: prod.splits)

lemma declared_orErr [declared_intros]: "declared_error r \<Longrightarrow> declared_errors_only (orErr r m)"
  by (auto simp: orErr_def intro: declared_mapErr)

lemma declared_lift [declared_intros]:
  "(\<And>e. r = Err e \<Longrightarrow> declared_error e) \<Longrightarrow> declared_errors_only (io_lift r)"
  by (auto simp: declared_errors_only_def io_lift_def)

lemma declared_online [declared_intros]: "declared_errors_only m \<Longrightarrow> declared_errors_only (online config m)"
  by (auto simp: online_def intro: declared_lift)

lemma declared_bind [declared_intros]:
  "declared_errors_only m \<Longrightarrow> (\<And>a. declared_errors_only (f a)) \<Longrightarrow> declared_errors_only (io_bind m f)"
  by (fastforce simp: declared_errors_only_def io_bind_def split: prod.splits result.splits)

lemma online_offline [simp]: "cfg_mode config \<noteq> Online \<Longrightarrow> online config m w = (Err ErrUnavailableOffline, w)"
  by (simp add: online_def io_lift_def)

lemma block_error_declared [simp]: "declared_error (block_error e)"
  by (simp add: block_error_def)

lemma call_error_declared [simp]: "declared_error (call_error e)"
  by (simp add: call_error_def)

lemma guarded_endpointI:
  assumes shape: "\<And>config C request. handler config C request = online config (body config C request)"
    and body: "\<And>config C request. declared_errors_only (body config C request)"
  shows "guarded_endpoint handler"
proof
  fix config C request w e w'
  show "handler config C request w = (Err e, w') \<Longrightarrow> declared_error e"
    using declared_onlyD [OF declared_online [OF body]] by (auto simp: shape)
  show "cfg_mode config \<noteq> Online \<Longrightarrow> handler config C request w = (Err ErrUnavailableOffline, w)"
    by (simp add: shape)
qed

lemma open_endpointI:
  assumes "\<And>config C request. handler config C request = io_lift (r config request)"
    and "\<And>config request e. r config request = Err e \<Longrightarrow> declared_error e"
  shows "open_endpoint handler"
  by unfold_locales (auto simp: assms io_lift_def)

lemma handler_shapes:
  "AccountBalance config C request = online config (orErr ErrGeth (if_Balance C (fst request) (snd request)))"
  "BlockTransaction config C req = online config (orErr ErrGeth (if_Transaction C (fst req) (snd req)))"
  "CallService config C rq = online config (io_mapErr call_error (if_Call C (fst rq) (snd rq)))"
  by (simp_all add: AccountBalance_def BlockTransaction_def CallService_def split: prod.splits)

interpretation account_balance: guarded_endpoint AccountBalance
  by (rule guarded_endpointI, rule handler_shapes) (auto intro!: declared_intros)
interpretation block_service: guarded_endpoint BlockService
  by (rule guarded_endpointI, rule BlockService_def) (auto intro!: declared_intros)
interpretation block_transaction: guarded_endpoint BlockTransaction
  by (rule guarded_endpointI, rule handler_shapes) (auto intro!: declared_intros)
interpretation call_service: guarded_endpoint CallService
  by (rule guarded_endpointI, rule handler_shapes) (auto intro!: declared_intros)
interpretation mempool: guarded_endpoint Mempool
  by (rule guarded_endpointI, rule Mempool_def) (auto intro!: declared_intros)
interpretation network_status: guarded_endpoint NetworkStatus
  by (rule guarded_endpointI, rule NetworkStatus_def) (auto intro!: declared_intros)

interpretation account_coins: open_endpoint AccountCoins
  by (rule open_endpointI) (auto simp: AccountCoins_def)
interpretation mempool_transaction: open_endpoint MempoolTransaction
  by (rule open_endpointI) (auto simp: MempoolTransaction_def)
interpretation network_list: open_endpoint NetworkList
  by (rule open_endpointI) (auto simp: NetworkList_def)
interpretation network_options: open_endpoint "NetworkOptions v" for v
  by (rule open_endpointI) (auto simp: NetworkOptions_def)

section \<open>Properties\<close>

text \<open>
  Offline, no data endpoint touches the node: in every mode but \<open>ONLINE\<close> each endpoint that
  needs the node answers \<open>ErrUnavailableOffline\<close> and leaves the world as it was, whatever the
  client would have answered.
\<close>

theorem data_endpoints_offline:
  assumes "cfg_mode config \<noteq> Online"
  shows "AccountBalance config C ar w = (Err ErrUnavailableOffline, w)
    \<and> BlockService config C br w = (Err ErrUnavailableOffline, w)
    \<and> BlockTransaction config C tr w = (Err ErrUnavailableOffline, w)
    \<and> CallService config C cr w = (Err ErrUnavailableOffline, w)
    \<and> Mempool config C mr w = (Err ErrUnavailableOffline, w)
    \<and> NetworkStatus config C nr w = (Err ErrUnavailableOffline, w)"
  using assms by (intro conjI account_balance.offline block_service.offline block_transaction.offline
      call_service.offline mempool.offline network_status.offline)

text \<open>
  Whatever a data endpoint answers as an error is an error of the list \<open>NetworkOptions\<close>
  publishes, up to its details.
\<close>

theorem data_endpoints_declared:
  "(AccountBalance config C ar w = (Err e, w') \<longrightarrow> declared_error e)
   \<and> (BlockService config C br w = (Err e, w') \<longrightarrow> declared_error e)
   \<and> (BlockTransaction config C tr w = (Err e, w') \<longrightarrow> declared_error e)
   \<and> (CallService config C cr w = (Err e, w') \<longrightarrow> declared_error e)
   \<and> (Mempool config C mr w = (Err e, w') \<longrightarrow> declared_error e)
   \<and> (NetworkStatus config C nr w = (Err e, w') \<longrightarrow> declared_error e)
   \<and> (AccountCoins config C ur w = (Err e, w') \<longrightarrow> declared_error e)
   \<and> (MempoolTransaction config C ur w = (Err e, w') \<longrightarrow> declared_error e)"
  by (intro conjI impI; elim account_balance.error_declared block_service.error_declared
      block_transaction.error_declared call_service.error_declared mempool.error_declared
      network_status.error_declared account_coins.error_declared mempool_transaction.error_declared)

text \<open>
  How an error of the client is classified online: \<open>/block\<close> reports an orphaned block as the
  retriable error 11 and everything else as the error 2; \<open>/block/transaction\<close> reports an orphaned
  block as the error 2, which must not be retried.
\<close>

theorem block_error_codes:
  assumes "cfg_mode config = Online"
    and "if_Block C bid w = (Err e, w')" and "if_Transaction C b h w = (Err e, w')"
  shows "\<exists>r s. BlockService config C bid w = (Err r, w') \<and> BlockTransaction config C (b, h) w = (Err s, w')
    \<and> re_code r = (if errors_is e ErrBlockOrphaned then 11 else 2)
    \<and> re_retriable r = errors_is e ErrBlockOrphaned
    \<and> re_code s = 2 \<and> \<not> re_retriable s
    \<and> re_details r = re_details s \<and> re_details s = [(''context'', JStr (error_text e))]"
  using assms
  by (simp add: BlockService_def BlockTransaction_def online_def orErr_def io_mapErr_def block_error_def
      wrapErr_def Let_def svc_error_defs rosetta_err_def)

text \<open>
  \<open>/call\<close> tells its three kinds of failure apart: bad parameters, an output that cannot be
  marshalled and an unknown method get the errors 8, 9 and 10, any other failure the error 2.
  An unknown method gets the error 10 from the real client without a call to the node.
\<close>

theorem call_error_codes:
  assumes "cfg_mode config = Online"
  shows "(if_Call C meth params w = (Err e, w') \<longrightarrow>
      (\<exists>r. CallService config C (meth, params) w = (Err r, w')
        \<and> re_code r = (if errors_is e ErrCallParametersInvalid then 8
            else if errors_is e ErrCallOutputMarshal then 9
            else if errors_is e ErrCallMethodInvalid then 10 else 2)))
    \<and> (bad \<notin> set CallMethods \<longrightarrow>
      (\<exists>r. CallService config (ethereum_client ec) (bad, params) w = (Err r, w) \<and> re_code r = 10))"
  using assms
  by (auto simp: CallService_def online_def io_mapErr_def call_error_def ethereum_client_def call_method_def
      CallMethods_def io_lift_def)

text \<open>
  What \<open>/block\<close> serves is covered by what \<open>/network/options\<close> publishes: every transaction of a
  served block is there (none is nil), the first is the reward transaction under the hash of the
  block, and every operation has a published type and a published status and refers to earlier
  operations of its transaction only.
\<close>

theorem served_block_options:
  assumes "address_laws (cl_geth ec)" and "key_order (cl_order ec)" and "tracer_law ec"
    and "BlockService config (ethereum_client ec) bid w = (Ok b, w')"
    and "NetworkOptions v config (ethereum_client ec) () u = (Ok opts, u')"
  shows "\<exists>ts. rb_transactions b = map Some ts \<and> ts \<noteq> [] \<and> rt_hash (hd ts) = bi_hash (rb_identifier b)
    \<and> (\<forall>t \<in> set ts. \<forall>p \<in> set (rt_operations t). op_type p \<in> set (no_operation_types opts)
        \<and> op_status p \<in> Some ` os_status ` set (no_operation_statuses opts)
        \<and> (\<forall>r \<in> set (op_related p). 0 \<le> r \<and> r < op_index p))"
proof -
  have "Block ec bid w = (Ok b, w')"
    using assms(4) by (auto simp: BlockService_def online_def ethereum_client_def io_lift_def split: if_splits)
  then obtain m args where b: "getParsedBlock ec m args w = (Ok b, w')"
    using Block_parsed [of ec bid] by auto
  have "no_operation_types opts = OperationTypes" "no_operation_statuses opts = OperationStatuses"
    using assms(5) by (auto simp: NetworkOptions_def io_lift_def)
  with getParsedBlock_wf [OF assms(1-3) b] show ?thesis
    by (fastforce simp: ops_wf_def op_ok_def)
qed

text \<open>
  Index and parent of a served block: the index fits an int64, and the block at index 0 is its
  own parent, as the API asks of the genesis block.
\<close>

theorem served_block_genesis:
  assumes "BlockService config (ethereum_client ec) bid w = (Ok b, w')"
  shows "int64_range (bi_index (rb_identifier b))
    \<and> (bi_index (rb_identifier b) = 0 \<longrightarrow> rb_parent b = rb_identifier b)"
  using assms by (rule eth.served_block_index)

section \<open>Concrete instances of the properties\<close>

definition online_config :: configuration where
  "online_config = empty_configuration\<lparr>cfg_mode := Online\<rparr>"

definition offline_config :: configuration where
  "offline_config = empty_configuration\<lparr>cfg_mode := Offline\<rparr>"

lemma config_modes [simp]: "cfg_mode online_config = Online" "cfg_mode offline_config \<noteq> Online"
  by (simp_all add: online_config_def offline_config_def config_consts)

text \<open>A client whose every call counts up the world and fails with an orphaned block.\<close>

definition fails :: "(int, gerr, 'a) io" where
  "fails w = (Err (Sentinel ErrBlockOrphaned), w + 1)"

definition failing_client :: "int iface" where
  "failing_client = \<lparr>if_Status = fails, if_Block = (\<lambda>_. fails), if_Transaction = (\<lambda>_ _. fails),
     if_Balance = (\<lambda>_ _. fails), if_PendingNonceAt = (\<lambda>_. fails), if_SuggestGasPrice = fails,
     if_SendTransaction = (\<lambda>_. fails), if_GetMempool = fails, if_Call = (\<lambda>_ _. fails)\<rparr>"

lemma failing_client_simps [simp]:
  "if_Block failing_client b w = (Err (Sentinel ErrBlockOrphaned), w + 1)"
  "if_Transaction failing_client i h w = (Err (Sentinel ErrBlockOrphaned), w + 1)"
  "if_GetMempool failing_client w = (Err (Sentinel ErrBlockOrphaned), w + 1)"
  "if_Call failing_client m ps w = (Err (Sentinel ErrBlockOrphaned), w + 1)"
  by (simp_all add: failing_client_def fails_def)

theorem data_endpoints_offline_witness:
  "AccountBalance offline_config failing_client (''0x1'', None) 4 = (Err ErrUnavailableOffline, 4)
   \<and> CallService offline_config failing_client (''eth_call'', []) 4 = (Err ErrUnavailableOffline, 4)"
  by (simp add: data_endpoints_offline)

theorem data_endpoints_declared_witness:
  "\<exists>e. Mempool online_config failing_client () 4 = (Err e, 5) \<and> declared_error e"
proof -
  obtain e where e: "Mempool online_config failing_client () 4 = (Err e, 5)"
    by (simp add: Mempool_def online_def orErr_def io_mapErr_def )
  have "Mempool online_config failing_client () 4 = (Err e, 5) \<longrightarrow> declared_error e"
    by (rule data_endpoints_declared [THEN conjunct2, THEN conjunct2, THEN conjunct2, THEN conjunct2, THEN conjunct1])
  with e show ?thesis by simp
qed

theorem block_error_codes_witness:
  "\<exists>r s. BlockService online_config failing_client None 4 = (Err r, 5)
     \<and> BlockTransaction online_config failing_client (\<lparr>bi_hash = [], bi_index = 1\<rparr>, []) 4 = (Err s, 5)
     \<and> re_code r = 11 \<and> re_retriable r \<and> re_code s = 2 \<and> \<not> re_retriable s"
  using block_error_codes [where config = online_config and C = failing_client and bid = None and w = 4
      and e = "Sentinel ErrBlockOrphaned" and w' = 5 and b = "\<lparr>bi_hash = [], bi_index = 1\<rparr>" and h = "[]"]
  by auto

theorem call_error_codes_witness:
  "(\<exists>r. CallService online_config failing_client (''eth_call'', []) 4 = (Err r, 5) \<and> re_code r = 2)
   \<and> (\<exists>r. CallService online_config (ethereum_client mock_client) (''eth_sign'', []) 4 = (Err r, 4) \<and> re_code r = 10)"
proof -
  have "if_Call failing_client ''eth_call'' [] 4 = (Err (Sentinel ErrBlockOrphaned), 5)"
    by simp
  with call_error_codes [OF config_modes(1), where C = failing_client and meth = "''eth_call''" and params = "[]"
      and w = 4 and e = "Sentinel ErrBlockOrphaned" and w' = 5 and bad = "''eth_sign''" and ec = mock_client]
  show ?thesis by (simp add: CallMethods_def)
qed

lemma mock_served:
  obtains b where "BlockService online_config (ethereum_client mock_client) None 0 = (Ok b, 0)"
    and "bi_hash (rb_identifier b) = ''0x7''" and "bi_index (rb_identifier b) = 3"
  using mock_Block [of 0]
  by (auto simp: BlockService_def online_def ethereum_client_def io_mapErr_def)

theorem served_block_options_witness:
  "\<exists>b ts. BlockService online_config (ethereum_client mock_client) None 0 = (Ok b, 0)
     \<and> rb_transactions b = map Some ts \<and> rt_hash (hd ts) = ''0x7''
     \<and> (\<forall>t \<in> set ts. \<forall>p \<in> set (rt_operations t). op_type p \<in> set OperationTypes)"
proof -
  obtain b where b: "BlockService online_config (ethereum_client mock_client) None 0 = (Ok b, 0)"
    "bi_hash (rb_identifier b) = ''0x7''" by (rule mock_served)
  obtain opts where o: "NetworkOptions [] online_config (ethereum_client mock_client) () (0::int) = (Ok opts, 0)"
    "no_operation_types opts = OperationTypes"
    by (simp add: NetworkOptions_def io_lift_def)
  from served_block_options [OF _ _ mock_tracer_law b(1) o(1)] b o(2) show ?thesis by fastforce
qed

theorem served_block_genesis_witness:
  "\<exists>b. BlockService online_config (ethereum_client mock_client) None 0 = (Ok b, 0)
     \<and> int64_range (bi_index (rb_identifier b)) \<and> bi_index (rb_identifier b) = 3"
proof -
  obtain b where b: "BlockService online_config (ethereum_client mock_client) None 0 = (Ok b, 0)"
    "bi_index (rb_identifier b) = 3" by (rule mock_served)
  from served_block_genesis [OF b(1)] b show ?thesis by blast
qed

end
