(* ===== verification/Wire.thy ===== *)
theory Wire
  imports GethLib "HOL-Library.List_Lexorder" "HOL-Library.Char_ord"
begin

text \<open>
  The data that travels between the calls of the construction API (\<open>services/types.go\<close>) and its
  JSON form (\<open>services/utils.go\<close>). A marshaller that meets a nil \<open>*big.Int\<close> panics. A codec whose
  encodings decode to the value encoded is a locale; it is interpreted for the options, the
  metadata and the transaction.
\<close>

section \<open>The structs\<close>

record tx_options =
  opt_from :: string

record tx_metadata =
  md_nonce :: uint64
  md_gas_price :: "int option"

record parse_metadata =
  pm_nonce :: uint64
  pm_gas_price :: "int option"
  pm_chain_id :: "int option"

record unsigned_tx =
  ut_from :: string
  ut_to :: string
  ut_value :: "int option"
  ut_data :: bytes
  ut_nonce :: uint64
  ut_gas_price :: "int option"
  ut_gas_limit :: uint64
  ut_chain_id :: "int option"

section \<open>Marshalling\<close>

text \<open>\<open>hexutil.EncodeBig\<close> of a pointer, and the decoding of a field.\<close>

definition encode_ptr :: "geth \<Rightarrow> int option \<Rightarrow> string outcome" where
  "encode_ptr G p = andThen (deref p) (\<lambda>x. Ok (encode_big G x))"

definition big_field :: "geth \<Rightarrow> string \<Rightarrow> int option outcome" where
  "big_field G s = andThen (decode_big G s) (\<lambda>x. Ok (Some x))"

definition options_to_json :: "tx_options \<Rightarrow> json outcome" where
  "options_to_json opts = Ok (JObj [(''from'', JStr (opt_from opts))])"

definition options_of_json :: "json \<Rightarrow> tx_options outcome" where
  "options_of_json j = andThen (json_struct j) (\<lambda>obj.
     andThen (get_str obj ''from'') (\<lambda>f. Ok \<lparr>opt_from = f\<rparr>))"

definition metadata_to_json :: "geth \<Rightarrow> tx_metadata \<Rightarrow> json outcome" where
  "metadata_to_json G m =
     andThen (encode_ptr G (md_gas_price m)) (\<lambda>gp.
       Ok (JObj [(''nonce'', JStr (encode_uint64 G (md_nonce m))), (''gas_price'', JStr gp)]))"

definition metadata_of_json :: "geth \<Rightarrow> json \<Rightarrow> tx_metadata outcome" where
  "metadata_of_json G j =
     andThen (json_struct j) (\<lambda>mw.
     andThen (get_str mw ''nonce'') (\<lambda>wn.
     andThen (get_str mw ''gas_price'') (\<lambda>wg.
     andThen (decode_uint64 G wn) (\<lambda>nonce.
     andThen (big_field G wg) (\<lambda>gasPrice.
       Ok \<lparr>md_nonce = nonce, md_gas_price = gasPrice\<rparr>)))))"

definition parse_metadata_to_json :: "geth \<Rightarrow> parse_metadata \<Rightarrow> json outcome" where
  "parse_metadata_to_json G p =
     andThen (encode_ptr G (pm_gas_price p)) (\<lambda>gp.
     andThen (encode_ptr G (pm_chain_id p)) (\<lambda>cid.
       Ok (JObj [(''nonce'', JStr (encode_uint64 G (pm_nonce p))), (''gas_price'', JStr gp),
                 (''chain_id'', JStr cid)])))"

definition transaction_to_json :: "geth \<Rightarrow> unsigned_tx \<Rightarrow> json outcome" where
  "transaction_to_json G t =
     andThen (encode_ptr G (ut_value t)) (\<lambda>v.
     andThen (encode_ptr G (ut_gas_price t)) (\<lambda>gp.
     andThen (encode_ptr G (ut_chain_id t)) (\<lambda>cid.
       Ok (JObj [(''from'', JStr (ut_from t)), (''to'', JStr (ut_to t)), (''value'', JStr v),
                 (''data'', JStr (encode_bytes G (ut_data t))),
                 (''nonce'', JStr (encode_uint64 G (ut_nonce t))), (''gas_price'', JStr gp),
                 (''gas'', JStr (encode_uint64 G (ut_gas_limit t))), (''chain_id'', JStr cid)]))))"

text \<open>The struct \<open>transactionWire\<close> is decoded first, its fields afterwards, in this order.\<close>

definition transaction_of_json :: "geth \<Rightarrow> json \<Rightarrow> unsigned_tx outcome" where
  "transaction_of_json G j =
     andThen (json_struct j) (\<lambda>tw.
     andThen (mapM (get_str tw) [''from'', ''to'', ''value'', ''data'', ''nonce'', ''gas_price'', ''gas'', ''chain_id''])
       (\<lambda>ws.
     andThen (big_field G (ws ! 2)) (\<lambda>val.
     andThen (decode_bytes G (ws ! 3)) (\<lambda>twData.
     andThen (decode_uint64 G (ws ! 4)) (\<lambda>nonce.
     andThen (big_field G (ws ! 5)) (\<lambda>gasPrice.
     andThen (decode_uint64 G (ws ! 6)) (\<lambda>gasLimit.
     andThen (big_field G (ws ! 7)) (\<lambda>chainID.
       Ok \<lparr>ut_from = ws ! 0, ut_to = ws ! 1, ut_value = val, ut_data = twData, ut_nonce = nonce,
           ut_gas_price = gasPrice, ut_gas_limit = gasLimit, ut_chain_id = chainID\<rparr>))))))))"

text \<open>
  \<open>marshalJSONMap\<close> and \<open>unmarshalJSONMap\<close>, for the marshaller or unmarshaller of the type;
  \<open>json.Marshal\<close> writes the entries of a map in the order of their keys.
\<close>

definition json_of_map :: "json_map \<Rightarrow> json" where
  "json_of_map m = JObj (sort_key fst m)"

definition marshalJSONMap :: "('a \<Rightarrow> json outcome) \<Rightarrow> 'a \<Rightarrow> json_map outcome" where
  "marshalJSONMap enc i = andThen (enc i) json_map_value"

definition unmarshalJSONMap :: "(json \<Rightarrow> 'a outcome) \<Rightarrow> json_map \<Rightarrow> 'a outcome" where
  "unmarshalJSONMap dec m = dec (json_of_map m)"

section \<open>Fields do not depend on their order\<close>

text \<open>No two keys are equal up to letter case.\<close>

definition keys_apart :: "json_map \<Rightarrow> bool" where
  "keys_apart kvs \<longleftrightarrow> distinct (map (\<lambda>e. map ascii_lower (fst e)) kvs)"

lemma filter_distinct_key:
  assumes "distinct (map g xs)" and "x \<in> set xs" and "g x = k"
  shows "filter (\<lambda>e. g e = k) xs = [x]"
  using assms by (induction xs) (auto simp: filter_empty_conv image_iff)

lemma json_field_unique:
  assumes "keys_apart kvs" and "(k, v) \<in> set kvs" and "map ascii_lower k = map ascii_lower n"
  shows "json_field n kvs = Some v"
  using filter_distinct_key [OF assms(1) [unfolded keys_apart_def] assms(2)] assms(3)
  by (simp add: json_field_def)

lemma json_field_absent:
  "(\<And>k v. (k, v) \<in> set kvs \<Longrightarrow> map ascii_lower k \<noteq> map ascii_lower n) \<Longrightarrow> json_field n kvs = None"
proof -
  assume a: "\<And>k v. (k, v) \<in> set kvs \<Longrightarrow> map ascii_lower k \<noteq> map ascii_lower n"
  then have "filter (\<lambda>e. map ascii_lower (fst e) = map ascii_lower n) kvs = []"
    by (auto simp: filter_empty_conv)
  then show ?thesis by (simp add: json_field_def)
qed

lemma json_field_perm:
  assumes "keys_apart kvs" and "keys_apart kvs'" and "set kvs = set kvs'"
  shows "json_field n kvs = json_field n kvs'"
proof (cases "\<exists>k v. (k, v) \<in> set kvs \<and> map ascii_lower k = map ascii_lower n")
  case True
  then show ?thesis using assms json_field_unique by metis
next
  case False
  then show ?thesis using assms(3) json_field_absent [of kvs n] json_field_absent [of kvs' n] by metis
qed

lemma keys_apart_sort [simp]: "keys_apart (sort_key f kvs) = keys_apart kvs"
proof -
  have "mset (map (\<lambda>e. map ascii_lower (fst e)) (sort_key f kvs)) = mset (map (\<lambda>e. map ascii_lower (fst e)) kvs)"
    by simp
  then show ?thesis unfolding keys_apart_def by (metis mset_eq_imp_distinct_iff)
qed

lemma json_field_sorted: "keys_apart kvs \<Longrightarrow> json_field n (sort_key fst kvs) = json_field n kvs"
  by (rule json_field_perm) simp_all

lemma get_str_sorted: "keys_apart kvs \<Longrightarrow> get_str (sort_key fst kvs) n = get_str kvs n"
  by (simp add: get_str_def json_field_sorted)

section \<open>Codecs\<close>

text \<open>
  A codec: its encodings are objects with fields that are told apart, they decode to the value
  encoded, and decoding does not depend on the order of the fields.
\<close>

locale wire_codec =
  fixes enc :: "'a \<Rightarrow> json outcome" and dec :: "json \<Rightarrow> 'a outcome" and valid :: "'a \<Rightarrow> bool"
  assumes enc_valid: "valid x \<Longrightarrow> \<exists>kvs. enc x = Ok (JObj kvs) \<and> keys_apart kvs \<and> dec (JObj kvs) = Ok x"
    and dec_sorted: "keys_apart kvs \<Longrightarrow> dec (JObj (sort_key fst kvs)) = dec (JObj kvs)"
begin

lemma text_roundtrip: "valid x \<Longrightarrow> \<exists>j. enc x = Ok j \<and> andThen (json_parse (Some j)) dec = Ok x"
  using enc_valid [of x] by (auto simp: json_parse_def)

lemma map_roundtrip: "valid x \<Longrightarrow> \<exists>m. marshalJSONMap enc x = Ok m \<and> unmarshalJSONMap dec m = Ok x"
  using enc_valid [of x] dec_sorted
  by (auto simp: marshalJSONMap_def unmarshalJSONMap_def json_of_map_def)

lemma enc_inject: "valid x \<Longrightarrow> valid y \<Longrightarrow> enc x = enc y \<Longrightarrow> x = y"
  using enc_valid [of x] enc_valid [of y] by auto

end

text \<open>Amounts fit 256 bits and are not negative, as those of the chain do.\<close>

definition wei_ptr :: "int option \<Rightarrow> bool" where
  "wei_ptr p \<longleftrightarrow> (\<exists>x. p = Some x \<and> 0 \<le> x \<and> x < 2 ^ 256)"

definition valid_metadata :: "tx_metadata \<Rightarrow> bool" where
  "valid_metadata m \<longleftrightarrow> wei_ptr (md_gas_price m)"

definition valid_unsigned :: "unsigned_tx \<Rightarrow> bool" where
  "valid_unsigned t \<longleftrightarrow> wei_ptr (ut_value t) \<and> wei_ptr (ut_gas_price t) \<and> wei_ptr (ut_chain_id t)"

lemma wei_ptr_codec:
  "hexutil_laws G \<Longrightarrow> wei_ptr p \<Longrightarrow> \<exists>s. encode_ptr G p = Ok s \<and> big_field G s = Ok p"
  by (auto simp: wei_ptr_def encode_ptr_def big_field_def law_simps)

definition codec_laws :: "geth \<Rightarrow> ('a \<Rightarrow> bool) \<Rightarrow> 'a \<Rightarrow> bool" where
  "codec_laws G P x \<longleftrightarrow> hexutil_laws G \<and> P x"

lemmas field_lookups = get_str_def json_field_def

interpretation options_wire: wire_codec options_to_json options_of_json "\<lambda>_. True"
proof
  fix x
  have "options_of_json (JObj [(''from'', JStr (opt_from x))]) = Ok x"
    by (simp add: options_of_json_def field_lookups)
  then show "\<exists>kvs. options_to_json x = Ok (JObj kvs) \<and> keys_apart kvs \<and> options_of_json (JObj kvs) = Ok x"
    by (simp add: options_to_json_def keys_apart_def)
qed (simp add: options_of_json_def get_str_sorted)

interpretation metadata_wire: wire_codec "metadata_to_json G" "metadata_of_json G" "codec_laws G valid_metadata" for G
proof
  fix x
  assume "codec_laws G valid_metadata x"
  then have laws: "hexutil_laws G" and "wei_ptr (md_gas_price x)"
    by (simp_all add: codec_laws_def valid_metadata_def)
  then obtain s where s: "encode_ptr G (md_gas_price x) = Ok s" "big_field G s = Ok (md_gas_price x)"
    using wei_ptr_codec by blast
  let ?kvs = "[(''nonce'', JStr (encode_uint64 G (md_nonce x))), (''gas_price'', JStr s)]"
  have "keys_apart ?kvs" by (simp add: keys_apart_def)
  moreover have "metadata_of_json G (JObj ?kvs) = Ok x"
    using s laws by (simp add: metadata_of_json_def field_lookups law_simps)
  ultimately show "\<exists>kvs. metadata_to_json G x = Ok (JObj kvs) \<and> keys_apart kvs \<and> metadata_of_json G (JObj kvs) = Ok x"
    using s(1) by (simp add: metadata_to_json_def)
qed (simp add: metadata_of_json_def get_str_sorted)

text \<open>The fields of a marshalled transaction.\<close>

definition tx_fields :: "geth \<Rightarrow> unsigned_tx \<Rightarrow> string \<Rightarrow> string \<Rightarrow> string \<Rightarrow> json_map" where
  "tx_fields G t v gp cid = [(''from'', JStr (ut_from t)), (''to'', JStr (ut_to t)), (''value'', JStr v),
     (''data'', JStr (encode_bytes G (ut_data t))), (''nonce'', JStr (encode_uint64 G (ut_nonce t))),
     (''gas_price'', JStr gp), (''gas'', JStr (encode_uint64 G (ut_gas_limit t))), (''chain_id'', JStr cid)]"

lemma tx_fields_apart: "keys_apart (tx_fields G t v gp cid)"
proof -
  have "map (\<lambda>e. map ascii_lower (fst e)) (tx_fields G t v gp cid) = map (map ascii_lower)
     [''from'', ''to'', ''value'', ''data'', ''nonce'', ''gas_price'', ''gas'', ''chain_id'']"
    by (simp add: tx_fields_def)
  moreover have "distinct (map (map ascii_lower)
     [''from'', ''to'', ''value'', ''data'', ''nonce'', ''gas_price'', ''gas'', ''chain_id''])"
    by code_simp
  ultimately show ?thesis by (simp only: keys_apart_def)
qed

lemma get_tx_field: "(k, JStr s) \<in> set (tx_fields G t v gp cid) \<Longrightarrow> get_str (tx_fields G t v gp cid) k = Ok s"
  using json_field_unique [OF tx_fields_apart] by (simp add: get_str_def)

lemma tx_field_members:
  "(''from'', JStr (ut_from t)) \<in> set (tx_fields G t v gp cid)"
  "(''to'', JStr (ut_to t)) \<in> set (tx_fields G t v gp cid)"
  "(''value'', JStr v) \<in> set (tx_fields G t v gp cid)"
  "(''data'', JStr (encode_bytes G (ut_data t))) \<in> set (tx_fields G t v gp cid)"
  "(''nonce'', JStr (encode_uint64 G (ut_nonce t))) \<in> set (tx_fields G t v gp cid)"
  "(''gas_price'', JStr gp) \<in> set (tx_fields G t v gp cid)"
  "(''gas'', JStr (encode_uint64 G (ut_gas_limit t))) \<in> set (tx_fields G t v gp cid)"
  "(''chain_id'', JStr cid) \<in> set (tx_fields G t v gp cid)"
  by (simp_all add: tx_fields_def)

lemmas tx_field_values = tx_field_members [THEN get_tx_field]

interpretation transaction_wire:
  wire_codec "transaction_to_json G" "transaction_of_json G" "codec_laws G valid_unsigned" for G
proof
  fix x
  assume "codec_laws G valid_unsigned x"
  then have laws: "hexutil_laws G" and "wei_ptr (ut_value x)" "wei_ptr (ut_gas_price x)" "wei_ptr (ut_chain_id x)"
    by (simp_all add: codec_laws_def valid_unsigned_def)
  then obtain v gp cid where e: "encode_ptr G (ut_value x) = Ok v" "encode_ptr G (ut_gas_price x) = Ok gp"
    "encode_ptr G (ut_chain_id x) = Ok cid" and
    d: "big_field G v = Ok (ut_value x)" "big_field G gp = Ok (ut_gas_price x)" "big_field G cid = Ok (ut_chain_id x)"
    using wei_ptr_codec by metis
  have "mapM (get_str (tx_fields G x v gp cid))
      [''from'', ''to'', ''value'', ''data'', ''nonce'', ''gas_price'', ''gas'', ''chain_id'']
    = Ok [ut_from x, ut_to x, v, encode_bytes G (ut_data x), encode_uint64 G (ut_nonce x), gp,
          encode_uint64 G (ut_gas_limit x), cid]"
    by (simp add: tx_field_values)
  then have "transaction_of_json G (JObj (tx_fields G x v gp cid)) = Ok x"
    using d laws by (simp add: transaction_of_json_def law_simps)
  moreover have "transaction_to_json G x = Ok (JObj (tx_fields G x v gp cid))"
    by (simp add: transaction_to_json_def e tx_fields_def)
  ultimately show "\<exists>kvs. transaction_to_json G x = Ok (JObj kvs) \<and> keys_apart kvs \<and> transaction_of_json G (JObj kvs) = Ok x"
    using tx_fields_apart by blast
next
  fix kvs :: json_map
  assume "keys_apart kvs"
  then have "get_str (sort_key fst kvs) = get_str kvs" by (intro ext get_str_sorted)
  then show "transaction_of_json G (JObj (sort_key fst kvs)) = transaction_of_json G (JObj kvs)"
    by (simp add: transaction_of_json_def)
qed

section \<open>Properties\<close>

text \<open>A decoded transaction has no nil pointer.\<close>

lemma big_field_Some: "big_field G s = Ok p \<Longrightarrow> \<exists>x. p = Some x"
  by (auto simp: big_field_def)

lemma transaction_of_json_pointers:
  assumes "transaction_of_json G j = Ok t"
  obtains v gp cid where "ut_value t = Some v" "ut_gas_price t = Some gp" "ut_chain_id t = Some cid"
proof -
  from assms have "(\<exists>v. ut_value t = Some v) \<and> (\<exists>gp. ut_gas_price t = Some gp) \<and> (\<exists>cid. ut_chain_id t = Some cid)"
    by (auto simp: transaction_of_json_def dest: big_field_Some)
  with that show ?thesis by blast
qed

text \<open>
  C25. A transaction survives its JSON form: whatever nonce, gas limit, data and amounts below
  \<open>2 ^ 256\<close> it has, marshalling succeeds and unmarshalling gives the same transaction; two
  different transactions have different texts.
\<close>

theorem transaction_roundtrip:
  assumes "hexutil_laws G" and "valid_unsigned t"
  shows "\<exists>j. transaction_to_json G t = Ok j \<and> andThen (json_parse (Some j)) (transaction_of_json G) = Ok t
    \<and> (\<forall>u. valid_unsigned u \<and> transaction_to_json G u = Ok j \<longrightarrow> u = t)"
proof -
  have c: "codec_laws G valid_unsigned x \<longleftrightarrow> valid_unsigned x" for x
    using assms(1) by (simp add: codec_laws_def)
  with assms(2) obtain j where "transaction_to_json G t = Ok j"
    "andThen (json_parse (Some j)) (transaction_of_json G) = Ok t"
    using transaction_wire.text_roundtrip [of G t] by blast
  with transaction_wire.enc_inject [of G _ t] c assms(2) show ?thesis by metis
qed

text \<open>
  Options and metadata survive the maps they travel in: \<open>unmarshalJSONMap\<close> undoes
  \<open>marshalJSONMap\<close>.
\<close>

theorem metadata_map_roundtrip:
  assumes "hexutil_laws G" and "valid_metadata m"
  shows "(\<exists>kvs. marshalJSONMap (metadata_to_json G) m = Ok kvs \<and> unmarshalJSONMap (metadata_of_json G) kvs = Ok m)
    \<and> (\<exists>kvs. marshalJSONMap options_to_json opts = Ok kvs \<and> unmarshalJSONMap options_of_json kvs = Ok opts)"
  using assms metadata_wire.map_roundtrip [of G m] options_wire.map_roundtrip [of opts]
  by (simp add: codec_laws_def)

text \<open>
  Nil amounts: marshalling a transaction panics exactly where one of its three amounts is nil
  and never fails otherwise, and a transaction read from JSON has no nil amount, so it can be
  written again.
\<close>

theorem transaction_nil_amounts:
  "(transaction_to_json G t = Crash NilDeref \<longleftrightarrow>
      ut_value t = None \<or> ut_gas_price t = None \<or> ut_chain_id t = None)
   \<and> (\<forall>e. transaction_to_json G t \<noteq> Err e)
   \<and> (\<forall>j. transaction_of_json G j = Ok t \<longrightarrow> (\<exists>k. transaction_to_json G t = Ok k))"
proof -
  have "\<exists>k. transaction_to_json G t = Ok k" if "transaction_of_json G j = Ok t" for j
    using that by (rule transaction_of_json_pointers) (simp add: transaction_to_json_def encode_ptr_def)
  then show ?thesis
    by (cases "ut_value t"; cases "ut_gas_price t"; cases "ut_chain_id t")
      (auto simp: transaction_to_json_def encode_ptr_def)
qed

section \<open>Concrete instances of the properties\<close>

definition unsigned_example :: unsigned_tx where
  "unsigned_example = \<lparr>ut_from = ''0x1'', ut_to = ''0x5'', ut_value = Some 7, ut_data = [255], ut_nonce = 2,
     ut_gas_price = Some 3, ut_gas_limit = 21, ut_chain_id = Some 1\<rparr>"

lemma valid_example: "valid_unsigned unsigned_example"
  by (simp add: valid_unsigned_def wei_ptr_def unsigned_example_def)

theorem transaction_roundtrip_witness:
  "\<exists>j. transaction_to_json standin unsigned_example = Ok j \<and> transaction_of_json standin j = Ok unsigned_example"
  using transaction_roundtrip [OF standin_hexutil_laws valid_example] by (auto simp: json_parse_def)

theorem metadata_map_roundtrip_witness:
  "\<exists>kvs. marshalJSONMap (metadata_to_json standin) \<lparr>md_nonce = 4, md_gas_price = Some 5\<rparr> = Ok kvs
     \<and> unmarshalJSONMap (metadata_of_json standin) kvs = Ok \<lparr>md_nonce = 4, md_gas_price = Some 5\<rparr>"
  using metadata_map_roundtrip [OF standin_hexutil_laws, where m = "\<lparr>md_nonce = 4, md_gas_price = Some 5\<rparr>"]
  by (simp add: valid_metadata_def wei_ptr_def)

theorem transaction_nil_amounts_witness:
  "transaction_to_json standin (unsigned_example\<lparr>ut_value := None\<rparr>) = Crash NilDeref"
  using transaction_nil_amounts [of standin "unsigned_example\<lparr>ut_value := None\<rparr>"] by simp

end
