(* ===== verification/Construction.thy ===== *)
theory Construction
  imports Services Wire
begin

text \<open>
  The construction API (\<open>services/construction_service.go\<close>). What it takes from go-ethereum's
  \<open>core/types\<close> and \<open>crypto\<close> packages and from the operation parser of the Rosetta SDK is the record
  \<open>tx_lib\<close>; the laws a theorem needs of them are named hypotheses. Transactions that travel as
  text are JSON documents, \<open>None\<close> standing for a text that is no JSON.
\<close>

section \<open>Third-party code\<close>

text \<open>
  The descriptions of the two operations of a transfer, as the parser takes them; what the code
  uses of a match is the result of its method \<open>First\<close>: an operation and the amount parsed.
\<close>

datatype amount_sign = NegativeAmountSign | PositiveAmountSign

record op_description =
  od_type :: string
  od_account_exists :: bool
  od_amount_exists :: bool
  od_amount_sign :: amount_sign
  od_amount_currency :: currency

type_synonym op_match = "operation option \<times> int option"

text \<open>
  \<open>'k\<close> is the type of public keys. \<open>new_transaction nonce to value gas gasPrice data\<close>;
  \<open>signer_hash\<close>, \<open>with_signature\<close> and \<open>tx_sender\<close> take the chain id of an EIP-155 signer;
  \<open>match_operations descriptions err_unmatched operations\<close>.
\<close>

record 'k tx_lib =
  decompress_pubkey :: "bytes \<Rightarrow> 'k outcome"
  pubkey_to_address :: "'k \<Rightarrow> address"
  match_operations :: "op_description list \<Rightarrow> bool \<Rightarrow> operation list \<Rightarrow> op_match list outcome"
  new_transaction :: "uint64 \<Rightarrow> address \<Rightarrow> int option \<Rightarrow> uint64 \<Rightarrow> int option \<Rightarrow> bytes \<Rightarrow> eth_tx"
  signer_hash :: "int option \<Rightarrow> eth_tx \<Rightarrow> hash"
  with_signature :: "eth_tx \<Rightarrow> int option \<Rightarrow> bytes \<Rightarrow> eth_tx outcome"
  tx_to_json :: "eth_tx \<Rightarrow> json outcome"
  tx_sender :: "eth_tx \<Rightarrow> int \<Rightarrow> address outcome"

section \<open>Handlers\<close>

text \<open>\<open>if err != nil { return nil, wrapErr(r, err) }\<close> without a call to the client.\<close>

definition failing :: "rosetta_error \<Rightarrow> 'a outcome \<Rightarrow> (rosetta_error, 'a) result" where
  "failing r = mapErr (\<lambda>e. wrapErr r (Some e))"

definition ensure_address :: "geth \<Rightarrow> string \<Rightarrow> (rosetta_error, string) result" where
  "ensure_address G a = (case ChecksumAddress G a of
      None \<Rightarrow> Err (wrapErr ErrInvalidAddress (Some (ErrorNew (a @ '' is not a valid address''))))
    | Some c \<Rightarrow> Ok c)"

definition ConstructionDerive ::
  "geth \<Rightarrow> 'k tx_lib \<Rightarrow> configuration \<Rightarrow> 'w iface \<Rightarrow> bytes \<Rightarrow> ('w, rosetta_error, string) io" where
  "ConstructionDerive G L config C publicKey = io_lift (
     andThen (failing ErrUnableToDecompressPubkey (decompress_pubkey L publicKey)) (\<lambda>pubkey.
       Ok (address_hex G (pubkey_to_address L pubkey))))"

definition transfer_description :: "amount_sign \<Rightarrow> op_description" where
  "transfer_description sign = \<lparr>od_type = CallOpType, od_account_exists = True, od_amount_exists = True,
     od_amount_sign = sign, od_amount_currency = Currency\<rparr>"

definition descriptions :: "op_description list" where
  "descriptions = [transfer_description NegativeAmountSign, transfer_description PositiveAmountSign]"

text \<open>\<open>op, amount := matches[i].First()\<close> and \<open>op.Account.Address\<close>.\<close>

definition matched_address :: "op_match list \<Rightarrow> nat \<Rightarrow> (rosetta_error, string \<times> int option) result" where
  "matched_address ms i =
     andThen (index ms i) (\<lambda>(op, amount).
     andThen (deref op) (\<lambda>p.
     andThen (deref (op_account p)) (\<lambda>a. Ok (a, amount))))"

definition ConstructionPreprocess ::
  "geth \<Rightarrow> 'k tx_lib \<Rightarrow> configuration \<Rightarrow> 'w iface \<Rightarrow> operation list \<Rightarrow> ('w, rosetta_error, json_map) io" where
  "ConstructionPreprocess G L config C operations = io_lift (
     andThen (failing ErrUnclearIntent (match_operations L descriptions True operations)) (\<lambda>matches.
     andThen (matched_address matches 0) (\<lambda>(fromAdd, _).
     andThen (matched_address matches 1) (\<lambda>(toAdd, _).
     andThen (ensure_address G fromAdd) (\<lambda>checkFrom.
     andThen (ensure_address G toAdd) (\<lambda>_.
       failing ErrUnableToParseIntermediateResult
         (marshalJSONMap options_to_json \<lparr>opt_from = checkFrom\<rparr>)))))))"

text \<open>The suggested fee is an int64 product.\<close>

definition suggestedFee :: "int \<Rightarrow> int" where
  "suggestedFee gasPrice = wrap64 (wrap64 gasPrice * TransferGasLimit)"

record metadata_response =
  mr_metadata :: json_map
  mr_suggested_fee :: "amount list"

definition ConstructionMetadata ::
  "geth \<Rightarrow> configuration \<Rightarrow> 'w iface \<Rightarrow> json_map \<Rightarrow> ('w, rosetta_error, metadata_response) io" where
  "ConstructionMetadata G config C request_options = online config (
     io_bind (io_lift (failing ErrUnableToParseIntermediateResult
        (unmarshalJSONMap options_of_json request_options))) (\<lambda>input.
     io_bind (orErr ErrGeth (if_PendingNonceAt C (hex_to_address G (opt_from input)))) (\<lambda>nonce.
     io_bind (orErr ErrGeth (if_SuggestGasPrice C)) (\<lambda>gasPrice.
     io_bind (io_lift (failing ErrUnableToParseIntermediateResult
        (marshalJSONMap (metadata_to_json G) \<lparr>md_nonce = nonce, md_gas_price = Some gasPrice\<rparr>))) (\<lambda>metadataMap.
     io_lift (Ok \<lparr>mr_metadata = metadataMap, mr_suggested_fee = [wei (suggestedFee gasPrice)]\<rparr>))))))"

record signing_payload =
  sp_address :: string
  sp_bytes :: hash
  sp_signature_type :: string

record payloads_response =
  pr_unsigned :: json_text
  pr_payloads :: "signing_payload list"

text \<open>The transaction struct and the signing payload, from the checked addresses.\<close>

definition unsigned_of ::
  "eth_tx \<Rightarrow> string \<Rightarrow> string \<Rightarrow> int option \<Rightarrow> int option \<Rightarrow> int option \<Rightarrow> unsigned_tx" where
  "unsigned_of tx checkFrom checkTo amount gasPrice chainID =
     \<lparr>ut_from = checkFrom, ut_to = checkTo, ut_value = amount, ut_data = tx_data tx, ut_nonce = tx_nonce tx,
      ut_gas_price = gasPrice, ut_gas_limit = tx_gas tx, ut_chain_id = chainID\<rparr>"

definition ConstructionPayloads ::
  "geth \<Rightarrow> 'k tx_lib \<Rightarrow> configuration \<Rightarrow> 'w iface \<Rightarrow> operation list \<times> json_map
     \<Rightarrow> ('w, rosetta_error, payloads_response) io" where
  "ConstructionPayloads G L config C request = io_lift (
     andThen (failing ErrUnclearIntent (match_operations L descriptions True (fst request))) (\<lambda>matches.
     andThen (failing ErrUnableToParseIntermediateResult
        (unmarshalJSONMap (metadata_of_json G) (snd request))) (\<lambda>metadata.
     andThen (matched_address matches 1) (\<lambda>(toAdd, amount).
     andThen (deref (cfg_params config)) (\<lambda>params.
     andThen (matched_address matches 0) (\<lambda>(fromAdd, _).
     andThen (ensure_address G fromAdd) (\<lambda>checkFrom.
     andThen (ensure_address G toAdd) (\<lambda>checkTo.
       let chainID = Some (cc_chain_id params);
           tx = new_transaction L (md_nonce metadata) (hex_to_address G checkTo) amount
             (word_of_int TransferGasLimit) (md_gas_price metadata) [];
           unsignedTx = unsigned_of tx checkFrom checkTo amount (md_gas_price metadata) chainID;
           payload = \<lparr>sp_address = checkFrom, sp_bytes = signer_hash L chainID tx,
             sp_signature_type = ''ecdsa_recovery''\<rparr>
       in andThen (failing ErrUnableToParseIntermediateResult (transaction_to_json G unsignedTx))
            (\<lambda>doc. Ok \<lparr>pr_unsigned = Some doc, pr_payloads = [payload]\<rparr>)))))))))"

text \<open>The transaction a decoded struct stands for.\<close>

definition eth_of_unsigned :: "geth \<Rightarrow> 'k tx_lib \<Rightarrow> unsigned_tx \<Rightarrow> eth_tx" where
  "eth_of_unsigned G L u = new_transaction L (ut_nonce u) (hex_to_address G (ut_to u)) (ut_value u)
     (ut_gas_limit u) (ut_gas_price u) (ut_data u)"

definition ConstructionCombine ::
  "geth \<Rightarrow> 'k tx_lib \<Rightarrow> configuration \<Rightarrow> 'w iface \<Rightarrow> json_text \<times> bytes option list
     \<Rightarrow> ('w, rosetta_error, json_text) io" where
  "ConstructionCombine G L config C request = io_lift (
     andThen (failing ErrUnableToParseIntermediateResult
        (andThen (json_parse (fst request)) (transaction_of_json G))) (\<lambda>unsignedTx.
     andThen (andThen (index (snd request) 0) deref) (\<lambda>signature.
     andThen (failing ErrSignatureInvalid
        (with_signature L (eth_of_unsigned G L unsignedTx) (ut_chain_id unsignedTx) signature)) (\<lambda>signedTx.
     andThen (failing ErrUnableToParseIntermediateResult (tx_to_json L signedTx)) (\<lambda>doc. Ok (Some doc))))))"

text \<open>\<open>UnmarshalJSON\<close> of a signed transaction.\<close>

definition parse_signed :: "geth \<Rightarrow> json_text \<Rightarrow> (rosetta_error, eth_tx) result" where
  "parse_signed G t = failing ErrUnableToParseIntermediateResult (andThen (json_parse t) (tx_of_json G))"

definition ConstructionHash ::
  "geth \<Rightarrow> configuration \<Rightarrow> 'w iface \<Rightarrow> json_text \<Rightarrow> ('w, rosetta_error, string) io" where
  "ConstructionHash G config C signedText = io_lift (
     andThen (parse_signed G signedText) (\<lambda>signedTx. Ok (hash_hex G (tx_hash signedTx))))"

text \<open>The struct \<open>ConstructionParse\<close> fills from a signed transaction; \<open>To\<close> is nil for a contract creation.\<close>

definition unsigned_of_signed :: "geth \<Rightarrow> 'k tx_lib \<Rightarrow> eth_tx \<Rightarrow> (rosetta_error, unsigned_tx) result" where
  "unsigned_of_signed G L t =
     andThen (deref (tx_to t)) (\<lambda>a.
     andThen (failing ErrUnableToParseIntermediateResult (tx_sender L t (tx_chain_id t))) (\<lambda>sender.
       Ok \<lparr>ut_from = address_hex G sender, ut_to = address_hex G a, ut_value = Some (tx_value t),
           ut_data = tx_data t, ut_nonce = tx_nonce t, ut_gas_price = Some (tx_gas_price t),
           ut_gas_limit = tx_gas t, ut_chain_id = Some (tx_chain_id t)\<rparr>))"

definition transfer_op :: "int \<Rightarrow> int list \<Rightarrow> string \<Rightarrow> int \<Rightarrow> operation" where
  "transfer_op i related a x = \<lparr>op_index = i, op_related = related, op_type = CallOpType, op_status = None,
     op_account = Some a, op_amount = Some (wei x), op_metadata = []\<rparr>"

record parse_response =
  pp_operations :: "operation list"
  pp_signers :: "string list"
  pp_metadata :: json_map

definition ConstructionParse ::
  "geth \<Rightarrow> 'k tx_lib \<Rightarrow> configuration \<Rightarrow> 'w iface \<Rightarrow> bool \<times> json_text
     \<Rightarrow> ('w, rosetta_error, parse_response) io" where
  "ConstructionParse G L config C request = io_lift (
     andThen (if \<not> fst request
        then failing ErrUnableToParseIntermediateResult
          (andThen (json_parse (snd request)) (transaction_of_json G))
        else andThen (parse_signed G (snd request)) (unsigned_of_signed G L)) (\<lambda>tx.
     andThen (ensure_address G (ut_from tx)) (\<lambda>checkFrom.
     andThen (ensure_address G (ut_to tx)) (\<lambda>checkTo.
     andThen (deref (ut_value tx)) (\<lambda>v.
     andThen (failing ErrUnableToParseIntermediateResult (marshalJSONMap (parse_metadata_to_json G)
        \<lparr>pm_nonce = ut_nonce tx, pm_gas_price = ut_gas_price tx, pm_chain_id = ut_chain_id tx\<rparr>)) (\<lambda>metaMap.
       Ok \<lparr>pp_operations = [transfer_op 0 [] checkFrom (- v), transfer_op 1 [0] checkTo v],
           pp_signers = (if fst request then [checkFrom] else []), pp_metadata = metaMap\<rparr>))))))"

definition ConstructionSubmit ::
  "geth \<Rightarrow> configuration \<Rightarrow> 'w iface \<Rightarrow> json_text \<Rightarrow> ('w, rosetta_error, string) io" where
  "ConstructionSubmit G config C signedText = online config (
     io_bind (io_lift (parse_signed G signedText)) (\<lambda>signedTx.
     io_bind (orErr ErrBroadcastFailed (if_SendTransaction C signedTx)) (\<lambda>_.
     io_lift (Ok (hash_hex G (tx_hash signedTx))))))"

section \<open>The contract of the endpoints\<close>

definition declared_result :: "(rosetta_error, 'a) result \<Rightarrow> bool" where
  "declared_result r \<longleftrightarrow> (\<forall>e. r = Err e \<longrightarrow> declared_error e)"

lemma declared_result_intros [declared_intros]:
  "declared_result (Ok x)" "declared_result (deref p)" "declared_result (index xs i)"
  "declared_result (matched_address ms i)" "declared_result (ensure_address G a)"
  "declared_error r \<Longrightarrow> declared_result (failing r m)"
  "declared_result s \<Longrightarrow> (\<And>x. declared_result (f x)) \<Longrightarrow> declared_result (andThen s f)"
  by (auto simp: declared_result_def ensure_address_def failing_def mapErr_Err_iff andThen_Err_iff
      matched_address_def split: option.splits)

lemma declared_lift_result [declared_intros]: "declared_result r \<Longrightarrow> declared_errors_only (io_lift r)"
  by (rule declared_lift) (simp add: declared_result_def)

lemma open_endpoint_resultI:
  assumes "\<And>config C request. handler config C request = io_lift (r config request)"
    and "\<And>config request. declared_result (r config request)"
  shows "open_endpoint handler"
  using assms by (intro open_endpointI) (auto simp: declared_result_def)

lemma parse_signed_declared [declared_intros]: "declared_result (parse_signed G t)"
  "declared_result (unsigned_of_signed G L tx)"
  by (auto simp: parse_signed_def unsigned_of_signed_def intro!: declared_intros)

interpretation derive: open_endpoint "ConstructionDerive G L" for G L
  by (rule open_endpoint_resultI, rule ConstructionDerive_def) (auto intro!: declared_intros)
interpretation preprocess: open_endpoint "ConstructionPreprocess G L" for G L
  by (rule open_endpoint_resultI, rule ConstructionPreprocess_def) (auto intro!: declared_intros split: prod.split)
interpretation payloads: open_endpoint "ConstructionPayloads G L" for G L
  by (rule open_endpoint_resultI, rule ConstructionPayloads_def)
    (auto simp: Let_def intro!: declared_intros split: prod.split)
interpretation combine: open_endpoint "ConstructionCombine G L" for G L
  by (rule open_endpoint_resultI, rule ConstructionCombine_def) (auto intro!: declared_intros)
interpretation hash_endpoint: open_endpoint "ConstructionHash G" for G
  by (rule open_endpoint_resultI, rule ConstructionHash_def) (auto intro!: declared_intros)
interpretation parse_endpoint: open_endpoint "ConstructionParse G L" for G L
  by (rule open_endpoint_resultI, rule ConstructionParse_def) (auto intro!: declared_intros)
interpretation metadata: guarded_endpoint "ConstructionMetadata G" for G
  by (rule guarded_endpointI, rule ConstructionMetadata_def) (auto intro!: declared_intros)
interpretation submit: guarded_endpoint "ConstructionSubmit G" for G
  by (rule guarded_endpointI, rule ConstructionSubmit_def) (auto intro!: declared_intros)

section \<open>Laws\<close>

text \<open>
  What the parser promises of the operation and the amount it matches with a description, and of
  all matches: one for every description, from the operations given, none left over.
\<close>

fun sign_ok :: "amount_sign \<Rightarrow> int \<Rightarrow> bool" where
  "sign_ok NegativeAmountSign x \<longleftrightarrow> x < 0"
| "sign_ok PositiveAmountSign x \<longleftrightarrow> 0 < x"

definition describes :: "op_description \<Rightarrow> operation \<Rightarrow> int \<Rightarrow> bool" where
  "describes d p x \<longleftrightarrow> op_type p = od_type d \<and> (od_account_exists d \<longleftrightarrow> op_account p \<noteq> None)
     \<and> (od_amount_exists d \<longleftrightarrow> op_amount p \<noteq> None)
     \<and> (case op_amount p of None \<Rightarrow> True | Some a \<Rightarrow> amt_currency a = od_amount_currency d
          \<and> SetString 10 (amt_value a) = Some x \<and> sign_ok (od_amount_sign d) x)"

definition match_law :: "'k tx_lib \<Rightarrow> bool" where
  "match_law L \<longleftrightarrow> (\<forall>ds ops ms. match_operations L ds True ops = Ok ms \<longrightarrow>
     (\<exists>ps xs. ms = map (\<lambda>(p, x). (Some p, Some x)) (zip ps xs) \<and> length ps = length ds \<and> length xs = length ds
        \<and> mset ops = mset ps \<and> (\<forall>i < length ds. describes (ds ! i) (ps ! i) (xs ! i))))"

text \<open>The accessors of a new transaction, and of a signed one: the signature adds the chain id only.\<close>

definition same_payload :: "eth_tx \<Rightarrow> eth_tx \<Rightarrow> bool" where
  "same_payload t u \<longleftrightarrow> tx_nonce t = tx_nonce u \<and> tx_to t = tx_to u \<and> tx_value t = tx_value u
     \<and> tx_gas t = tx_gas u \<and> tx_gas_price t = tx_gas_price u \<and> tx_data t = tx_data u"

definition transaction_laws :: "geth \<Rightarrow> 'k tx_lib \<Rightarrow> bool" where
  "transaction_laws G L \<longleftrightarrow>
     (\<forall>nonce a v gas gp data. let t = new_transaction L nonce a (Some v) gas (Some gp) data in
        tx_nonce t = nonce \<and> tx_to t = Some a \<and> tx_value t = v \<and> tx_gas t = gas \<and> tx_gas_price t = gp
        \<and> tx_data t = data)
     \<and> (\<forall>t cid sig t'. 0 < cid \<longrightarrow> with_signature L t (Some cid) sig = Ok t' \<longrightarrow>
          same_payload t' t \<and> tx_chain_id t' = cid)
     \<and> (\<forall>t j. tx_to_json L t = Ok j \<longrightarrow> tx_of_json G j = Ok t)"

lemma failing_simps [simp]:
  "failing r (Ok x) = Ok x" "failing r (Err e) = Err (wrapErr r (Some e))" "failing r (Crash c) = Crash c"
  "failing r m = Ok x \<longleftrightarrow> m = Ok x" "failing r m = Crash c \<longleftrightarrow> m = Crash c"
  by (simp_all add: failing_def)

lemma ensure_address_Ok [simp]: "ensure_address G a = Ok c \<longleftrightarrow> ChecksumAddress G a = Some c"
  by (simp add: ensure_address_def split: option.split)

lemma match_descriptions:
  assumes "match_law L" and "match_operations L descriptions True ops = Ok ms"
  obtains p q x y a b where
    "ms = [(Some p, Some x), (Some q, Some y)]" "mset ops = {#p, q#}" "x < 0" "0 < y"
    "op_account p = Some a" "op_account q = Some b" "op_value p = x" "op_value q = y"
    "op_type p = CallOpType" "op_type q = CallOpType"
proof -
  from assms obtain ps xs where m: "ms = map (\<lambda>(p, x). (Some p, Some x)) (zip ps xs)"
    "length ps = 2" "length xs = 2" "mset ops = mset ps"
    "\<forall>i < 2. describes (descriptions ! i) (ps ! i) (xs ! i)"
    unfolding match_law_def by (force simp: descriptions_def)
  then obtain p q x y where l: "ps = [p, q]" "xs = [x, y]"
    by (auto simp: length_Suc_conv numeral_2_eq_2)
  from m(5)[rule_format, of 0] m(5)[rule_format, of 1]
  have d: "describes (transfer_description NegativeAmountSign) p x"
    "describes (transfer_description PositiveAmountSign) q y"
    by (simp_all add: descriptions_def l)
  from d(1) obtain a where "op_account p = Some a" "op_value p = x" "x < 0" "op_type p = CallOpType"
    by (auto simp: describes_def transfer_description_def op_value_def)
  moreover from d(2) obtain b where "op_account q = Some b" "op_value q = y" "0 < y" "op_type q = CallOpType"
    by (auto simp: describes_def transfer_description_def op_value_def)
  ultimately show ?thesis using that m(1,4) l by simp
qed

section \<open>Payloads and what is read back\<close>

text \<open>The transfer of \<open>y\<close> wei a successful \<open>/construction/payloads\<close> stands for.\<close>

definition transfer_struct :: "string \<Rightarrow> string \<Rightarrow> int \<Rightarrow> tx_metadata \<Rightarrow> int \<Rightarrow> unsigned_tx" where
  "transfer_struct cf ct y m cid = \<lparr>ut_from = cf, ut_to = ct, ut_value = Some y, ut_data = [],
     ut_nonce = md_nonce m, ut_gas_price = md_gas_price m, ut_gas_limit = 21000, ut_chain_id = Some cid\<rparr>"

lemma transfer_struct_simps [simp]:
  "ut_from (transfer_struct cf ct y m cid) = cf" "ut_to (transfer_struct cf ct y m cid) = ct"
  "ut_value (transfer_struct cf ct y m cid) = Some y" "ut_data (transfer_struct cf ct y m cid) = []"
  "ut_nonce (transfer_struct cf ct y m cid) = md_nonce m"
  "ut_gas_price (transfer_struct cf ct y m cid) = md_gas_price m"
  "ut_gas_limit (transfer_struct cf ct y m cid) = 21000" "ut_chain_id (transfer_struct cf ct y m cid) = Some cid"
  by (simp_all add: transfer_struct_def)

lemma metadata_of_json_pointer: "metadata_of_json G j = Ok m \<Longrightarrow> \<exists>gp. md_gas_price m = Some gp"
  by (auto simp: metadata_of_json_def dest: big_field_Some)

lemma payloads_Ok:
  assumes laws: "match_law L" "transaction_laws G L"
    and r: "ConstructionPayloads G L config C (ops, md) w = (Ok r, w')"
  obtains p q a b cf ct m gp chain doc where
    "mset ops = {#p, q#}" "op_value p < 0" "0 < op_value q" "op_account p = Some a" "op_account q = Some b"
    "cfg_params config = Some chain" "unmarshalJSONMap (metadata_of_json G) md = Ok m"
    "md_gas_price m = Some gp" "ChecksumAddress G a = Some cf" "ChecksumAddress G b = Some ct"
    "transaction_to_json G (transfer_struct cf ct (op_value q) m (cc_chain_id chain)) = Ok doc"
    "r = \<lparr>pr_unsigned = Some doc, pr_payloads = [\<lparr>sp_address = cf,
       sp_bytes = signer_hash L (Some (cc_chain_id chain))
         (eth_of_unsigned G L (transfer_struct cf ct (op_value q) m (cc_chain_id chain))),
       sp_signature_type = ''ecdsa_recovery''\<rparr>]\<rparr>"
proof -
  from r obtain ms m where ms: "match_operations L descriptions True ops = Ok ms"
    and m: "unmarshalJSONMap (metadata_of_json G) md = Ok m"
    by (auto simp: ConstructionPayloads_def io_lift_def)
  from match_descriptions [OF laws(1) ms] obtain p q a b where
    pq: "ms = [(Some p, Some (op_value p)), (Some q, Some (op_value q))]" "mset ops = {#p, q#}"
      "op_value p < 0" "0 < op_value q" "op_account p = Some a" "op_account q = Some b"
    by metis
  from m obtain gp where gp: "md_gas_price m = Some gp"
    by (auto simp: unmarshalJSONMap_def dest: metadata_of_json_pointer)
  have u: "unsigned_of (new_transaction L (md_nonce m) t (Some v) 21000 (Some gp) []) cf ct (Some v) (Some gp) (Some cid)
      = transfer_struct cf ct v m cid" for t v cf ct cid
    using laws(2) gp by (simp add: transaction_laws_def Let_def unsigned_of_def transfer_struct_def)
  from r show ?thesis
    by (auto simp: ConstructionPayloads_def io_lift_def ms m gp pq(1,5,6) matched_address_def Let_def
        TransferGasLimit_def u eth_of_unsigned_def intro!: that [OF pq(2-6) _ m gp])
qed

lemma ChecksumAddress_Some:
  "address_laws G \<Longrightarrow> ChecksumAddress G s = Some c \<Longrightarrow> \<exists>a. mixedcase_address G s = Some a \<and> c = address_hex G a"
  by (auto simp: ChecksumAddress_def split: option.splits)

text \<open>Everything about the chain of a configuration and the metadata fits the wire format.\<close>

definition wire_ranges :: "tx_metadata \<Rightarrow> configuration \<Rightarrow> bool" where
  "wire_ranges m config \<longleftrightarrow> valid_metadata m
     \<and> (\<forall>chain. cfg_params config = Some chain \<longrightarrow> 0 < cc_chain_id chain \<and> cc_chain_id chain < 2 ^ 256)"

lemma transfer_struct_decodes:
  assumes "hexutil_laws G" and "valid_metadata m" and "0 < y" and "y < 2 ^ 256" and "0 < cid" and "cid < 2 ^ 256"
    and "transaction_to_json G (transfer_struct cf ct y m cid) = Ok doc"
  shows "transaction_of_json G doc = Ok (transfer_struct cf ct y m cid)"
proof -
  have "codec_laws G valid_unsigned (transfer_struct cf ct y m cid)"
    using assms by (simp add: codec_laws_def valid_unsigned_def wei_ptr_def valid_metadata_def)
  from transaction_wire.text_roundtrip [OF this] assms(7) show ?thesis by (auto simp: json_parse_def)
qed

lemma parse_metadata_total:
  assumes "md_gas_price m = Some gp"
  obtains kvs where "marshalJSONMap (parse_metadata_to_json G)
    \<lparr>pm_nonce = n, pm_gas_price = md_gas_price m, pm_chain_id = Some cid\<rparr> = Ok kvs"
  using assms by (simp add: marshalJSONMap_def parse_metadata_to_json_def encode_ptr_def)

text \<open>The operations of a transfer of \<open>y\<close> wei.\<close>

definition transfer_ops :: "string \<Rightarrow> string \<Rightarrow> int \<Rightarrow> operation list" where
  "transfer_ops cf ct y = [transfer_op 0 [] cf (- y), transfer_op 1 [0] ct y]"

lemma parse_unsigned:
  assumes "address_laws G" and "transaction_of_json G doc = Ok (transfer_struct cf ct y m cid)"
    and "ChecksumAddress G a = Some cf" and "ChecksumAddress G b = Some ct" and "md_gas_price m = Some gp"
  shows "\<exists>kvs. ConstructionParse G L config C (False, Some doc) w =
    (Ok \<lparr>pp_operations = transfer_ops cf ct y, pp_signers = [], pp_metadata = kvs\<rparr>, w)"
proof -
  from ChecksumAddress_idem assms(1,3,4) have c: "ChecksumAddress G cf = Some cf" "ChecksumAddress G ct = Some ct"
    by blast+
  then have e: "ensure_address G cf = Ok cf" "ensure_address G ct = Ok ct" by simp_all
  obtain kvs where "marshalJSONMap (parse_metadata_to_json G)
      \<lparr>pm_nonce = md_nonce m, pm_gas_price = md_gas_price m, pm_chain_id = Some cid\<rparr> = Ok kvs"
    using parse_metadata_total [OF assms(5)] by blast
  then show ?thesis
    by (simp add: ConstructionParse_def io_lift_def json_parse_def assms(2) e transfer_ops_def)
qed

lemma parse_signed_transfer:
  assumes laws: "address_laws G" "transaction_laws G L"
    and "with_signature L (eth_of_unsigned G L (transfer_struct cf ct y m cid)) (Some cid) sig = Ok t"
    and "tx_to_json L t = Ok doc" and "0 < cid" and "md_gas_price m = Some gp"
    and "ChecksumAddress G b = Some ct" and "tx_sender L t cid = Ok sender"
  shows "\<exists>kvs. ConstructionParse G L config C (True, Some doc) w =
    (Ok \<lparr>pp_operations = transfer_ops (address_hex G sender) ct y,
        pp_signers = [address_hex G sender], pp_metadata = kvs\<rparr>, w)"
proof -
  obtain c where c: "ct = address_hex G c" using ChecksumAddress_Some [OF laws(1) assms(7)] by blast
  then have h: "hex_to_address G ct = c" using laws(1) by (simp add: law_simps)
  have "same_payload t (eth_of_unsigned G L (transfer_struct cf ct y m cid))" "tx_chain_id t = cid"
    and d: "tx_of_json G doc = Ok t"
    using laws(2) assms(3-5) by (auto simp: transaction_laws_def)
  then have t: "tx_nonce t = md_nonce m" "tx_to t = Some c" "tx_value t = y" "tx_gas t = 21000"
    "tx_gas_price t = gp" "tx_data t = []" "tx_chain_id t = cid"
    using laws(2) by (simp_all add: same_payload_def eth_of_unsigned_def transaction_laws_def Let_def assms(6) h)
  have e: "ensure_address G (address_hex G s) = Ok (address_hex G s)" for s
    using laws(1) by (simp add: law_simps)
  obtain kvs where "marshalJSONMap (parse_metadata_to_json G)
      \<lparr>pm_nonce = md_nonce m, pm_gas_price = Some gp, pm_chain_id = Some cid\<rparr> = Ok kvs"
    using parse_metadata_total [OF assms(6)] assms(6) by metis
  then show ?thesis
    by (simp add: ConstructionParse_def io_lift_def parse_signed_def json_parse_def d unsigned_of_signed_def t
        assms(8) e c transfer_ops_def)
qed

lemma payloads_decoded:
  assumes laws: "match_law L" "transaction_laws G L" "hexutil_laws G"
    and r: "ConstructionPayloads G L config C (ops, md) w = (Ok r, w')"
    and m: "unmarshalJSONMap (metadata_of_json G) md = Ok m" "wire_ranges m config"
      "\<forall>q \<in> set ops. op_value q < 2 ^ 256"
  obtains p q a b cf ct gp chain doc where
    "mset ops = {#p, q#}" "q \<in> set ops" "op_value p < 0" "0 < op_value q" "op_account p = Some a" "op_account q = Some b"
    "cfg_params config = Some chain" "0 < cc_chain_id chain"
    "md_gas_price m = Some gp" "ChecksumAddress G a = Some cf" "ChecksumAddress G b = Some ct"
    "transaction_of_json G doc = Ok (transfer_struct cf ct (op_value q) m (cc_chain_id chain))"
    "r = \<lparr>pr_unsigned = Some doc, pr_payloads = [\<lparr>sp_address = cf,
       sp_bytes = signer_hash L (Some (cc_chain_id chain))
         (eth_of_unsigned G L (transfer_struct cf ct (op_value q) m (cc_chain_id chain))),
       sp_signature_type = ''ecdsa_recovery''\<rparr>]\<rparr>"
proof -
  obtain p q a b cf ct m' gp chain doc where
    ops: "mset ops = {#p, q#}" "op_value p < 0" "0 < op_value q" "op_account p = Some a" "op_account q = Some b" and
    chain: "cfg_params config = Some chain" and m': "unmarshalJSONMap (metadata_of_json G) md = Ok m'" and
    gp: "md_gas_price m' = Some gp" and
    c: "ChecksumAddress G a = Some cf" "ChecksumAddress G b = Some ct" and
    doc: "transaction_to_json G (transfer_struct cf ct (op_value q) m' (cc_chain_id chain)) = Ok doc" and
    r: "r = \<lparr>pr_unsigned = Some doc, pr_payloads = [\<lparr>sp_address = cf,
       sp_bytes = signer_hash L (Some (cc_chain_id chain))
         (eth_of_unsigned G L (transfer_struct cf ct (op_value q) m' (cc_chain_id chain))),
       sp_signature_type = ''ecdsa_recovery''\<rparr>]\<rparr>"
    using laws(1,2) r by (rule payloads_Ok)
  have [simp]: "m' = m" using m' m(1) by simp
  have q: "q \<in> set ops" using ops(1) by (metis set_mset_mset union_single_eq_member add_mset_commute)
  have dec: "transaction_of_json G doc = Ok (transfer_struct cf ct (op_value q) m (cc_chain_id chain))"
    using transfer_struct_decodes [OF laws(3) _ ops(3)] doc m(2,3) q chain by (simp add: wire_ranges_def)
  show ?thesis
    using m(2) chain by (intro that [OF ops(1) q ops(2-) chain _ _ c dec]) (use gp r in \<open>simp_all add: wire_ranges_def\<close>)
qed

lemma mode_unused:
  "ConstructionDerive G L (config\<lparr>cfg_mode := md\<rparr>) = ConstructionDerive G L config"
  "ConstructionPreprocess G L (config\<lparr>cfg_mode := md\<rparr>) = ConstructionPreprocess G L config"
  "ConstructionPayloads G L (config\<lparr>cfg_mode := md\<rparr>) = ConstructionPayloads G L config"
  "ConstructionCombine G L (config\<lparr>cfg_mode := md\<rparr>) = ConstructionCombine G L config"
  "ConstructionHash G (config\<lparr>cfg_mode := md\<rparr>) = ConstructionHash G config"
  "ConstructionParse G L (config\<lparr>cfg_mode := md\<rparr>) = ConstructionParse G L config"
  by (intro ext; simp add: ConstructionDerive_def ConstructionPreprocess_def ConstructionPayloads_def
      ConstructionCombine_def ConstructionHash_def ConstructionParse_def)+

text \<open>The codes a result may fail with.\<close>

definition only_codes :: "int set \<Rightarrow> (rosetta_error, 'a) result \<Rightarrow> bool" where
  "only_codes S r \<longleftrightarrow> (\<forall>e. r = Err e \<longrightarrow> re_code e \<in> S)"

lemma only_codesD: "io_lift r w = (Err e, w') \<Longrightarrow> only_codes S r \<Longrightarrow> re_code e \<in> S"
  by (simp add: only_codes_def io_lift_def)

lemma only_codesD1: "io_lift r w = (Err e, w') \<Longrightarrow> only_codes {c} r \<Longrightarrow> re_code e = c"
  by (simp add: only_codes_def io_lift_def)

lemma only_codes_intros:
  "only_codes S (Ok x)" "only_codes S (deref p)" "only_codes S (index xs i)"
  "only_codes S (matched_address ms i)" "12 \<in> S \<Longrightarrow> only_codes S (ensure_address G a)"
  "re_code r \<in> S \<Longrightarrow> only_codes S (failing r m)" "only_codes S (failing r (marshalJSONMap options_to_json o'))"
  "5 \<in> S \<Longrightarrow> only_codes S (parse_signed G t)" "5 \<in> S \<Longrightarrow> only_codes S (unsigned_of_signed G L tx)"
  "only_codes S s \<Longrightarrow> (\<And>x. only_codes S (f x)) \<Longrightarrow> only_codes S (andThen s f)"
  by (auto simp: only_codes_def ensure_address_def failing_def mapErr_Err_iff andThen_Err_iff matched_address_def
      marshalJSONMap_def options_to_json_def parse_signed_def unsigned_of_signed_def split: option.splits)

lemma decompress_code [simp]: "re_code ErrUnableToDecompressPubkey = 3"
  by (simp add: svc_error_defs rosetta_err_def)

section \<open>Properties\<close>

text \<open>
  C8. What is signed is what is combined: the unsigned transaction that \<open>/construction/payloads\<close>
  returns decodes, the one signing payload is for its sender, the bytes to sign are the signing
  hash of exactly the transaction that \<open>/construction/combine\<close> puts the signature on, and that
  transaction pays the account of the credited operation, with the nonce and gas price of the
  metadata and the chain id of the configuration.
\<close>

theorem payloads_sign_what_is_combined:
  assumes "match_law L" and "transaction_laws G L" and "hexutil_laws G"
    and "ConstructionPayloads G L config C (ops, md) w = (Ok r, w')"
    and "unmarshalJSONMap (metadata_of_json G) md = Ok m" and "wire_ranges m config"
    and "\<forall>q \<in> set ops. op_value q < 2 ^ 256"
  shows "\<exists>doc u q b. pr_unsigned r = Some doc \<and> transaction_of_json G doc = Ok u
    \<and> pr_payloads r = [\<lparr>sp_address = ut_from u, sp_bytes = signer_hash L (ut_chain_id u) (eth_of_unsigned G L u),
         sp_signature_type = ''ecdsa_recovery''\<rparr>]
    \<and> (\<forall>sig sigs. ConstructionCombine G L config C (pr_unsigned r, Some sig # sigs) w
         = (andThen (failing ErrSignatureInvalid (with_signature L (eth_of_unsigned G L u) (ut_chain_id u) sig))
             (\<lambda>t. andThen (failing ErrUnableToParseIntermediateResult (tx_to_json L t)) (\<lambda>d. Ok (Some d))), w))
    \<and> q \<in> set ops \<and> 0 < op_value q \<and> ut_value u = Some (op_value q)
    \<and> op_account q = Some b \<and> Some (ut_to u) = ChecksumAddress G b
    \<and> ut_nonce u = md_nonce m \<and> ut_gas_price u = md_gas_price m \<and> ut_data u = []
    \<and> ut_chain_id u = map_option cc_chain_id (cfg_params config)"
proof -
  obtain q b cf ct gp chain doc where
    ops: "q \<in> set ops" "0 < op_value q" "op_account q = Some b" and
    chain: "cfg_params config = Some chain" and ct: "ChecksumAddress G b = Some ct" and
    doc: "transaction_of_json G doc = Ok (transfer_struct cf ct (op_value q) m (cc_chain_id chain))" and
    r: "r = \<lparr>pr_unsigned = Some doc, pr_payloads = [\<lparr>sp_address = cf,
       sp_bytes = signer_hash L (Some (cc_chain_id chain))
         (eth_of_unsigned G L (transfer_struct cf ct (op_value q) m (cc_chain_id chain))),
       sp_signature_type = ''ecdsa_recovery''\<rparr>]\<rparr>"
    by (rule payloads_decoded [OF assms])
  then show ?thesis
    by (intro exI [of _ doc] exI [of _ "transfer_struct cf ct (op_value q) m (cc_chain_id chain)"] exI [of _ q]
        exI [of _ b]) (simp add: ConstructionCombine_def io_lift_def json_parse_def)
qed

text \<open>
  C11. Payloads and parse: parsing the unsigned transaction gives the transfer of the credited
  amount between the checksummed accounts of the intent, with no signer. The debited amount of
  the intent is not looked at: the parsed operations have the amounts of the intent exactly if
  those cancel, and an intent whose amounts do not cancel is accepted all the same.
\<close>

theorem payloads_then_parse:
  assumes "match_law L" and "transaction_laws G L" and "hexutil_laws G" and "address_laws G"
    and "ConstructionPayloads G L config C (ops, md) w = (Ok r, w')"
    and "unmarshalJSONMap (metadata_of_json G) md = Ok m" and "wire_ranges m config"
    and "\<forall>q \<in> set ops. op_value q < 2 ^ 256"
  shows "\<exists>p q cf ct kvs. mset ops = {#p, q#} \<and> op_value p < 0 \<and> 0 < op_value q
    \<and> Option.bind (op_account p) (ChecksumAddress G) = Some cf
    \<and> Option.bind (op_account q) (ChecksumAddress G) = Some ct
    \<and> ConstructionParse G L config C (False, pr_unsigned r) u
        = (Ok \<lparr>pp_operations = transfer_ops cf ct (op_value q), pp_signers = [], pp_metadata = kvs\<rparr>, u)
    \<and> (map op_value (transfer_ops cf ct (op_value q)) = [op_value p, op_value q]
        \<longleftrightarrow> op_value p + op_value q = 0)"
proof -
  obtain p q a b cf ct gp and chain :: chain_config and doc where
    ops: "mset ops = {#p, q#}" "op_value p < 0" "0 < op_value q" "op_account p = Some a" "op_account q = Some b" and
    gp: "md_gas_price m = Some gp" and c: "ChecksumAddress G a = Some cf" "ChecksumAddress G b = Some ct" and
    doc: "transaction_of_json G doc = Ok (transfer_struct cf ct (op_value q) m (cc_chain_id chain))" and
    r: "r = \<lparr>pr_unsigned = Some doc, pr_payloads = [\<lparr>sp_address = cf,
       sp_bytes = signer_hash L (Some (cc_chain_id chain))
         (eth_of_unsigned G L (transfer_struct cf ct (op_value q) m (cc_chain_id chain))),
       sp_signature_type = ''ecdsa_recovery''\<rparr>]\<rparr>"
    by (rule payloads_decoded [OF assms(1-3,5-)])
  obtain kvs where "ConstructionParse G L config C (False, pr_unsigned r) u
      = (Ok \<lparr>pp_operations = transfer_ops cf ct (op_value q), pp_signers = [], pp_metadata = kvs\<rparr>, u)"
    using parse_unsigned [OF assms(4) doc c gp, where L = L and config = config and C = C and w = u] r by auto
  with ops c show ?thesis
    by (intro exI conjI) (auto simp: transfer_ops_def transfer_op_def op_value_def)
qed

text \<open>
  C5. Combine and parse: once a signature is put on the unsigned transaction, parsing the signed one
  gives the transfer of the same amount to the same account, from the account the signature
  recovers to, which is its only signer. If that is the account of the intent, the operations are
  those of the unsigned transaction.
\<close>

theorem combine_then_parse:
  assumes "match_law L" and "transaction_laws G L" and "hexutil_laws G" and "address_laws G"
    and "ConstructionPayloads G L config C (ops, md) w = (Ok r, w')"
    and "unmarshalJSONMap (metadata_of_json G) md = Ok m" and "wire_ranges m config"
    and "\<forall>q \<in> set ops. op_value q < 2 ^ 256"
    and "ConstructionCombine G L config C (pr_unsigned r, Some sig # sigs) w' = (Ok signedText, w'')"
    and "parse_signed G signedText = Ok t" and "tx_sender L t (tx_chain_id t) = Ok sender"
  shows "\<exists>q cf ct kvs kvs'. q \<in> set ops \<and> 0 < op_value q
    \<and> ConstructionParse G L config C (True, signedText) u
        = (Ok \<lparr>pp_operations = transfer_ops (address_hex G sender) ct (op_value q),
              pp_signers = [address_hex G sender], pp_metadata = kvs\<rparr>, u)
    \<and> ConstructionParse G L config C (False, pr_unsigned r) u
        = (Ok \<lparr>pp_operations = transfer_ops cf ct (op_value q), pp_signers = [], pp_metadata = kvs'\<rparr>, u)
    \<and> map sp_address (pr_payloads r) = [cf]"
proof -
  obtain p q a b cf ct gp and chain :: chain_config and doc where
    q: "q \<in> set ops" "0 < op_value q" and cid: "0 < cc_chain_id chain" and
    gp: "md_gas_price m = Some gp" and c: "ChecksumAddress G a = Some cf" "ChecksumAddress G b = Some ct" and
    doc: "transaction_of_json G doc = Ok (transfer_struct cf ct (op_value q) m (cc_chain_id chain))" and
    r: "r = \<lparr>pr_unsigned = Some doc, pr_payloads = [\<lparr>sp_address = cf,
       sp_bytes = signer_hash L (Some (cc_chain_id chain))
         (eth_of_unsigned G L (transfer_struct cf ct (op_value q) m (cc_chain_id chain))),
       sp_signature_type = ''ecdsa_recovery''\<rparr>]\<rparr>"
    by (rule payloads_decoded [OF assms(1-3,5-8)])
  from assms(9) obtain t' j where
    t': "with_signature L (eth_of_unsigned G L (transfer_struct cf ct (op_value q) m (cc_chain_id chain)))
       (Some (cc_chain_id chain)) sig = Ok t'" "tx_to_json L t' = Ok j" and j: "signedText = Some j"
    by (auto simp: ConstructionCombine_def io_lift_def r json_parse_def doc)
  have "tx_of_json G j = Ok t'" and id: "tx_chain_id t' = cc_chain_id chain"
    using assms(2) t' cid by (auto simp: transaction_laws_def)
  with assms(10) j have "t = t'" by (simp add: parse_signed_def json_parse_def)
  with assms(11) id have "tx_sender L t' (cc_chain_id chain) = Ok sender" by simp
  from parse_signed_transfer [OF assms(4,2) t' cid gp c(2) this, where config = config and C = C and w = u]
    parse_unsigned [OF assms(4) doc c gp, where L = L and config = config and C = C and w = u]
  show ?thesis using q r j by auto
qed

text \<open>
  C18. Preprocess and metadata: the options of \<open>/construction/preprocess\<close> make \<open>/construction/metadata\<close>
  ask for the nonce of the debited account of the intent, and its answer decodes to exactly the
  nonce and the gas price the node reports, with the suggested fee beside them.
\<close>

theorem preprocess_then_metadata:
  assumes "match_law L" and "address_laws G" and "hexutil_laws G"
    and "ConstructionPreprocess G L config' C' ops u = (Ok opts, u')"
    and "cfg_mode config = Online" and "0 \<le> gp" and "gp < 2 ^ 256"
    and "\<And>a. if_PendingNonceAt C a w = (Ok (nonce a), w1)" and "if_SuggestGasPrice C w1 = (Ok gp, w2)"
  shows "\<exists>p a r. p \<in> set ops \<and> op_value p < 0 \<and> Option.bind (op_account p) (mixedcase_address G) = Some a
    \<and> ConstructionMetadata G config C opts w = (Ok r, w2)
    \<and> unmarshalJSONMap (metadata_of_json G) (mr_metadata r) = Ok \<lparr>md_nonce = nonce a, md_gas_price = Some gp\<rparr>
    \<and> mr_suggested_fee r = [wei (suggestedFee gp)]"
proof -
  from assms(4) obtain ms where ms: "match_operations L descriptions True ops = Ok ms"
    by (auto simp: ConstructionPreprocess_def io_lift_def)
  from match_descriptions [OF assms(1) ms] obtain p q s where
    pq: "ms = [(Some p, Some (op_value p)), (Some q, Some (op_value q))]" "mset ops = {#p, q#}"
      "op_value p < 0" "op_account p = Some s"
    by metis
  from assms(4) obtain cf where cf: "ChecksumAddress G s = Some cf"
    and o: "marshalJSONMap options_to_json \<lparr>opt_from = cf\<rparr> = Ok opts"
    by (auto simp: ConstructionPreprocess_def io_lift_def ms pq(1,4) matched_address_def)
  obtain a where a: "mixedcase_address G s = Some a" "cf = address_hex G a"
    using ChecksumAddress_Some [OF assms(2) cf] by blast
  have d: "unmarshalJSONMap options_of_json opts = Ok \<lparr>opt_from = cf\<rparr>"
    using options_wire.map_roundtrip [of "\<lparr>opt_from = cf\<rparr>"] o by auto
  have h: "hex_to_address G cf = a" using assms(2) a(2) by (simp add: law_simps)
  have "codec_laws G valid_metadata \<lparr>md_nonce = nonce a, md_gas_price = Some gp\<rparr>"
    using assms(3,6,7) by (simp add: codec_laws_def valid_metadata_def wei_ptr_def)
  from metadata_wire.map_roundtrip [OF this] obtain kvs where
    k: "marshalJSONMap (metadata_to_json G) \<lparr>md_nonce = nonce a, md_gas_price = Some gp\<rparr> = Ok kvs"
      "unmarshalJSONMap (metadata_of_json G) kvs = Ok \<lparr>md_nonce = nonce a, md_gas_price = Some gp\<rparr>" by blast
  have "ConstructionMetadata G config C opts w
      = (Ok \<lparr>mr_metadata = kvs, mr_suggested_fee = [wei (suggestedFee gp)]\<rparr>, w2)"
    using assms(5,8,9) d h k(1)
    by (simp add: ConstructionMetadata_def online_def io_bind_def io_lift_def orErr_def io_mapErr_def)
  moreover have "p \<in> set ops" using pq(2) by (metis set_mset_mset union_single_eq_member)
  ultimately show ?thesis using pq(3,4) a(1) k(2) by (intro exI conjI) auto
qed

text \<open>
  C34. The suggested fee is the gas price times 21000 exactly for gas prices up to
  439208192231179 wei; above that the int64 product overflows, and the very next gas price already
  yields a negative fee.
\<close>

theorem suggestedFee_exact:
  assumes "0 \<le> gp"
  shows "(suggestedFee gp = gp * 21000 \<longleftrightarrow> gp \<le> 439208192231179)
    \<and> int64_range (suggestedFee gp) \<and> suggestedFee 439208192231180 < 0"
proof -
  have r: "int64_range (suggestedFee gp)" by (simp add: suggestedFee_def)
  have "suggestedFee gp = gp * 21000" if "gp \<le> 439208192231179"
  proof -
    from that assms have "int64_range gp" "int64_range (gp * 21000)" by (simp_all add: int64_range_def)
    then show ?thesis by (simp add: suggestedFee_def TransferGasLimit_def)
  qed
  moreover have "gp \<le> 439208192231179" if "suggestedFee gp = gp * 21000"
    using r unfolding that int64_range_def by simp
  moreover have "suggestedFee 439208192231180 < 0"
    by (simp add: suggestedFee_def TransferGasLimit_def wrap64_def)
  ultimately show ?thesis using r by blast
qed

text \<open>
  C26. Submit: a text that is no signed transaction is refused with the error 5 and nothing is sent;
  otherwise exactly that transaction is handed to the node, a refusal is the error 7 with the
  node's message, and on success the hash returned is the one \<open>/construction/hash\<close> gives for the
  same text, offline as well.
\<close>

theorem submit_and_hash:
  assumes "cfg_mode config = Online"
  shows "(\<forall>e. parse_signed G s = Err e \<longrightarrow> ConstructionSubmit G config C s w = (Err e, w) \<and> re_code e = 5)
    \<and> (\<forall>t e w'. parse_signed G s = Ok t \<and> if_SendTransaction C t w = (Err e, w') \<longrightarrow>
        (\<exists>r. ConstructionSubmit G config C s w = (Err r, w') \<and> re_code r = 7
          \<and> re_details r = [(''context'', JStr (error_text e))]))
    \<and> (\<forall>t w'. parse_signed G s = Ok t \<and> if_SendTransaction C t w = (Ok (), w') \<longrightarrow>
        (\<exists>h. ConstructionSubmit G config C s w = (Ok h, w') \<and> ConstructionHash G config' C' s u = (Ok h, u)))"
proof -
  have "re_code e = 5" if "parse_signed G s = Err e" for e
    using that by (auto simp: parse_signed_def failing_def mapErr_Err_iff)
  moreover have "re_details (wrapErr r (Some e)) = [(''context'', JStr (error_text e))]" for r e
    by (simp add: wrapErr_def Let_def)
  ultimately show ?thesis
    using assms by (auto simp: ConstructionSubmit_def ConstructionHash_def online_def io_bind_def io_lift_def
        orErr_def io_mapErr_def)
qed

text \<open>
  Offline construction: \<open>/construction/metadata\<close> and \<open>/construction/submit\<close> answer
  \<open>ErrUnavailableOffline\<close> in every mode but \<open>ONLINE\<close> and leave the world as it was; the other
  endpoints answer the same in both modes, with any client and in any world.
\<close>

theorem construction_offline:
  fixes C C' :: "'w iface"
  shows "(cfg_mode config \<noteq> Online \<longrightarrow> ConstructionMetadata G config C opts w = (Err ErrUnavailableOffline, w)
      \<and> ConstructionSubmit G config C s w = (Err ErrUnavailableOffline, w))
   \<and> ConstructionDerive G L config C pk w = (fst (ConstructionDerive G L (config\<lparr>cfg_mode := md\<rparr>) C' pk w'), w)
   \<and> ConstructionPreprocess G L config C ops w
        = (fst (ConstructionPreprocess G L (config\<lparr>cfg_mode := md\<rparr>) C' ops w'), w)
   \<and> ConstructionPayloads G L config C pay w = (fst (ConstructionPayloads G L (config\<lparr>cfg_mode := md\<rparr>) C' pay w'), w)
   \<and> ConstructionCombine G L config C cmb w = (fst (ConstructionCombine G L (config\<lparr>cfg_mode := md\<rparr>) C' cmb w'), w)
   \<and> ConstructionHash G config C s w = (fst (ConstructionHash G (config\<lparr>cfg_mode := md\<rparr>) C' s w'), w)
   \<and> ConstructionParse G L config C prs w = (fst (ConstructionParse G L (config\<lparr>cfg_mode := md\<rparr>) C' prs w'), w)"
  unfolding mode_unused
  by (intro conjI impI metadata.offline submit.offline derive.world_unused preprocess.world_unused
      payloads.world_unused combine.world_unused hash_endpoint.world_unused parse_endpoint.world_unused)

text \<open>
  C38. Panics that a request can cause: parsing a signed contract creation dereferences its nil
  recipient, and combining a valid unsigned transaction with no signature reads the first entry
  of an empty list. Both are panics of the handlers: the checks the SDK makes before it calls them (of the second
  request it would reject the empty list) are not part of the model.
\<close>

theorem construction_panics:
  assumes "parse_signed G created = Ok t" and "tx_to t = None"
    and "andThen (json_parse utext) (transaction_of_json G) = Ok v"
  shows "ConstructionParse G L config C (True, created) w = (Crash NilDeref, w)
    \<and> ConstructionCombine G L config C (utext, []) w = (Crash IndexOutOfRange, w)"
  using assms
  by (auto simp: ConstructionParse_def ConstructionCombine_def unsigned_of_signed_def io_lift_def)

text \<open>
  The codes of the construction errors: 3 for a public key that does not decompress, 4 for
  operations that are no transfer, 5 for an intermediate result that does not decode, 6 for a bad
  signature, 12 for an invalid address; no endpoint but metadata and submit fails otherwise.
\<close>

theorem construction_error_codes:
  "(ConstructionDerive G L config C pk w = (Err e, w') \<longrightarrow> re_code e = 3)
   \<and> (ConstructionPreprocess G L config C ops w = (Err e, w') \<longrightarrow> re_code e \<in> {4, 12})
   \<and> (ConstructionPayloads G L config C pay w = (Err e, w') \<longrightarrow> re_code e \<in> {4, 5, 12})
   \<and> (ConstructionCombine G L config C cmb w = (Err e, w') \<longrightarrow> re_code e \<in> {5, 6})
   \<and> (ConstructionHash G config C s w = (Err e, w') \<longrightarrow> re_code e = 5)
   \<and> (ConstructionParse G L config C prs w = (Err e, w') \<longrightarrow> re_code e \<in> {5, 12})"
  unfolding ConstructionDerive_def ConstructionPreprocess_def ConstructionPayloads_def ConstructionCombine_def
    ConstructionHash_def ConstructionParse_def Let_def
  by (intro conjI impI; erule only_codesD only_codesD1; auto intro!: only_codes_intros split: prod.split)

section \<open>Concrete instances of the properties\<close>

text \<open>
  A small third-party library on which the laws hold: signed transactions are written in the form
  of unsigned ones, every signature recovers to the account 1.
\<close>

definition demo_tx :: "unsigned_tx \<Rightarrow> eth_tx" where
  "demo_tx u = \<lparr>tx_hash = 5, tx_type = 0, tx_gas_price = the (ut_gas_price u), tx_gas = ut_gas_limit u,
     tx_nonce = ut_nonce u, tx_to = Some (hex_to_address standin (ut_to u)), tx_value = the (ut_value u),
     tx_data = ut_data u, tx_chain_id = the (ut_chain_id u)\<rparr>"

definition demo_unsigned :: "eth_tx \<Rightarrow> unsigned_tx" where
  "demo_unsigned t = \<lparr>ut_from = [], ut_to = (case tx_to t of None \<Rightarrow> [] | Some a \<Rightarrow> address_hex standin a),
     ut_value = Some (tx_value t), ut_data = tx_data t, ut_nonce = tx_nonce t,
     ut_gas_price = Some (tx_gas_price t), ut_gas_limit = tx_gas t, ut_chain_id = Some (tx_chain_id t)\<rparr>"

definition demo_geth :: geth where
  "demo_geth = standin\<lparr>tx_of_json := (\<lambda>j. if j = JStr ''create''
     then Ok ((demo_tx unsigned_example)\<lparr>tx_to := None\<rparr>)
     else andThen (transaction_of_json standin j) (\<lambda>u. Ok (demo_tx u)))\<rparr>"

definition in_wire_range :: "int \<Rightarrow> bool" where
  "in_wire_range x \<longleftrightarrow> 0 \<le> x \<and> x < 2 ^ 256"

definition demo_match :: "op_description list \<Rightarrow> bool \<Rightarrow> operation list \<Rightarrow> op_match list outcome" where
  "demo_match ds err_unmatched ops = (if list_all2 (\<lambda>d p. describes d p (op_value p)) ds ops
     then Ok (map (\<lambda>p. (Some p, Some (op_value p))) ops) else Err (External ''unable to match''))"

definition demo_lib :: "bytes tx_lib" where
  "demo_lib = \<lparr>decompress_pubkey = (\<lambda>b. if b = [] then Err (External ''invalid public key'') else Ok b),
     pubkey_to_address = (\<lambda>_. 1), match_operations = demo_match,
     new_transaction = (\<lambda>nonce a v gas gp data. \<lparr>tx_hash = 5, tx_type = 0,
        tx_gas_price = (case gp of None \<Rightarrow> 0 | Some x \<Rightarrow> x), tx_gas = gas, tx_nonce = nonce, tx_to = Some a,
        tx_value = (case v of None \<Rightarrow> 0 | Some x \<Rightarrow> x), tx_data = data, tx_chain_id = 0\<rparr>),
     signer_hash = (\<lambda>cid t. 77),
     with_signature = (\<lambda>t cid sig. if sig = [] then Err (External ''wrong size for signature'')
        else Ok (t\<lparr>tx_chain_id := (case cid of None \<Rightarrow> 0 | Some x \<Rightarrow> x)\<rparr>)),
     tx_to_json = (\<lambda>t. if in_wire_range (tx_value t) \<and> in_wire_range (tx_gas_price t) \<and> in_wire_range (tx_chain_id t)
          \<and> demo_tx (demo_unsigned t) = t
        then transaction_to_json standin (demo_unsigned t) else Err (External ''bad transaction'')),
     tx_sender = (\<lambda>t cid. Ok 1)\<rparr>"

lemma demo_geth_laws: "address_laws demo_geth" "hexutil_laws demo_geth"
  using standin_address_laws standin_hexutil_laws
  by (simp_all add: demo_geth_def address_laws_def hexutil_laws_def)

lemma demo_match_law: "match_law demo_lib"
proof -
  have z: "map (\<lambda>p. (Some p, Some (op_value p))) ops = map (\<lambda>(p, x). (Some p, Some x)) (zip ops (map op_value ops))" for ops
    by (induction ops) auto
  show ?thesis
    by (auto simp: match_law_def demo_lib_def demo_match_def z list_all2_conv_all_nth split: if_splits
        intro!: exI [of _ "map op_value ops" for ops])
qed

lemma demo_transaction_laws: "transaction_laws demo_geth demo_lib"
proof -
  have "tx_of_json demo_geth j = Ok t" if j: "tx_to_json demo_lib t = Ok j" for t j
  proof -
    from j have t: "transaction_to_json standin (demo_unsigned t) = Ok j" "demo_tx (demo_unsigned t) = t"
      "valid_unsigned (demo_unsigned t)"
      by (auto simp: demo_lib_def valid_unsigned_def wei_ptr_def demo_unsigned_def in_wire_range_def split: if_splits)
    then have "transaction_of_json standin j = Ok (demo_unsigned t)"
      using transaction_wire.text_roundtrip [of standin "demo_unsigned t"] by (auto simp: codec_laws_def json_parse_def)
    moreover have "j \<noteq> JStr ''create''" using t(1) by (auto simp: transaction_to_json_def)
    ultimately show ?thesis using t(2) by (simp add: demo_geth_def)
  qed
  then show ?thesis
    by (auto simp: transaction_laws_def same_payload_def) (auto simp: demo_lib_def split: if_splits)
qed

definition demo_config :: configuration where
  "demo_config = online_config\<lparr>cfg_params := Some \<lparr>cc_chain_id = 1, cc_is_byzantium = (\<lambda>n. True),
     cc_is_constantinople = (\<lambda>n. True)\<rparr>\<rparr>"

text \<open>An intent that debits 5 wei and credits 7.\<close>

definition demo_intent :: "operation list" where
  "demo_intent = [transfer_op 0 [] ''0x1'' (- 5), transfer_op 1 [0] ''0x5'' 7]"

definition demo_metadata :: tx_metadata where
  "demo_metadata = \<lparr>md_nonce = 4, md_gas_price = Some 3\<rparr>"

definition demo_map :: json_map where
  "demo_map = [(''nonce'', JStr ''0x4''), (''gas_price'', JStr ''0x3'')]"

lemma demo_unmarshal: "unmarshalJSONMap (metadata_of_json demo_geth) demo_map = Ok demo_metadata"
  by code_simp

lemma demo_matches: "match_operations demo_lib descriptions True demo_intent
    = Ok [(Some (transfer_op 0 [] ''0x1'' (- 5)), Some (- 5)), (Some (transfer_op 1 [0] ''0x5'' 7), Some 7)]"
  by (simp add: demo_lib_def demo_match_def descriptions_def demo_intent_def describes_def transfer_description_def
      transfer_op_def op_value_def)

lemma demo_addresses: "ensure_address demo_geth ''0x1'' = Ok ''0x1''" "ensure_address demo_geth ''0x5'' = Ok ''0x5''"
  "ChecksumAddress demo_geth ''0x1'' = Some ''0x1''" "ChecksumAddress demo_geth ''0x5'' = Some ''0x5''"
  "hex_to_address demo_geth ''0x5'' = 5"
  by code_simp+

lemma demo_config_simps [simp]: "cfg_mode demo_config = Online"
  "cfg_params demo_config = Some \<lparr>cc_chain_id = 1, cc_is_byzantium = (\<lambda>n. True), cc_is_constantinople = (\<lambda>n. True)\<rparr>"
  by (simp_all add: demo_config_def)

lemma demo_matched:
  "matched_address [(Some (transfer_op i r a x), Some x), m2] 0 = Ok (a, Some x)"
  "matched_address [m1, (Some (transfer_op i r a x), Some x)] (Suc 0) = Ok (a, Some x)"
  by (simp_all add: matched_address_def transfer_op_def)

lemma demo_payloads:
  "\<exists>r. ConstructionPayloads demo_geth demo_lib demo_config C (demo_intent, demo_map) w = (Ok r, w)"
  by (simp add: ConstructionPayloads_def io_lift_def demo_matches demo_unmarshal demo_matched demo_addresses Let_def
      transaction_to_json_def encode_ptr_def unsigned_of_def demo_metadata_def)

lemma demo_ranges: "wire_ranges demo_metadata demo_config" "\<forall>q \<in> set demo_intent. op_value q < 2 ^ 256"
  by (simp_all add: wire_ranges_def valid_metadata_def wei_ptr_def demo_metadata_def demo_intent_def transfer_op_def
      op_value_def)

lemmas demo_laws = demo_match_law demo_transaction_laws demo_geth_laws(2)

theorem payloads_sign_what_is_combined_witness:
  "\<exists>r doc u. ConstructionPayloads demo_geth demo_lib demo_config failing_client (demo_intent, demo_map) 0 = (Ok r, 0)
     \<and> pr_unsigned r = Some doc \<and> transaction_of_json demo_geth doc = Ok u \<and> ut_nonce u = 4 \<and> ut_chain_id u = Some 1
     \<and> (\<exists>q \<in> set demo_intent. ut_value u = Some (op_value q))"
proof -
  obtain r where r: "ConstructionPayloads demo_geth demo_lib demo_config failing_client (demo_intent, demo_map) 0 = (Ok r, 0)"
    by (rule exE [OF demo_payloads])
  from payloads_sign_what_is_combined [OF demo_laws r demo_unmarshal demo_ranges] r show ?thesis
    by (auto simp: demo_metadata_def)
qed

lemma demo_intent_credit: "mset demo_intent = {#p, q#} \<Longrightarrow> 0 < op_value q \<Longrightarrow> op_value q = 7"
  using multi_member_split [of q "mset demo_intent"]
  by (auto simp: demo_intent_def transfer_op_def op_value_def add_eq_conv_ex)

theorem payloads_then_parse_witness:
  "\<exists>r resp cf ct. ConstructionPayloads demo_geth demo_lib demo_config failing_client (demo_intent, demo_map) 0 = (Ok r, 0)
     \<and> ConstructionParse demo_geth demo_lib demo_config failing_client (False, pr_unsigned r) 0 = (Ok resp, 0)
     \<and> map op_value demo_intent = [-5, 7] \<and> pp_operations resp = transfer_ops cf ct 7"
proof -
  obtain r where r: "ConstructionPayloads demo_geth demo_lib demo_config failing_client (demo_intent, demo_map) 0 = (Ok r, 0)"
    by (rule exE [OF demo_payloads])
  have v: "map op_value demo_intent = [-5, 7]" by (simp add: demo_intent_def transfer_op_def op_value_def)
  from payloads_then_parse [OF demo_laws demo_geth_laws(1) r demo_unmarshal demo_ranges, of 0]
  obtain p q cf ct kvs where q: "mset demo_intent = {#p, q#}" "0 < op_value q" and
    p: "ConstructionParse demo_geth demo_lib demo_config failing_client (False, pr_unsigned r) 0
      = (Ok \<lparr>pp_operations = transfer_ops cf ct (op_value q), pp_signers = [], pp_metadata = kvs\<rparr>, 0)"
    by (elim exE conjE)
  have "op_value q = 7" using q by (rule demo_intent_credit)
  with r p v show ?thesis by (intro exI conjI) (assumption | simp)+
qed

lemma demo_combine:
  assumes r: "ConstructionPayloads demo_geth demo_lib demo_config C (demo_intent, demo_map) w = (Ok r, w)"
  shows "\<exists>d t. ConstructionCombine demo_geth demo_lib demo_config C (pr_unsigned r, [Some [1]]) w = (Ok d, w)
     \<and> parse_signed demo_geth d = Ok t \<and> tx_sender demo_lib t (tx_chain_id t) = Ok 1"
proof -
  obtain q cf ct chain doc where q: "q \<in> set demo_intent" "0 < op_value q" and
    chain: "cfg_params demo_config = Some chain" and
    dec: "transaction_of_json demo_geth doc = Ok (transfer_struct cf ct (op_value q) demo_metadata (cc_chain_id chain))" and
    r: "r = \<lparr>pr_unsigned = Some doc, pr_payloads = [\<lparr>sp_address = cf,
       sp_bytes = signer_hash demo_lib (Some (cc_chain_id chain))
         (eth_of_unsigned demo_geth demo_lib (transfer_struct cf ct (op_value q) demo_metadata (cc_chain_id chain))),
       sp_signature_type = ''ecdsa_recovery''\<rparr>]\<rparr>"
    by (rule payloads_decoded [OF demo_laws r demo_unmarshal demo_ranges])
  let ?t = "(eth_of_unsigned demo_geth demo_lib (transfer_struct cf ct (op_value q) demo_metadata 1))\<lparr>tx_chain_id := 1\<rparr>"
  have "op_value q < 2 ^ 256" using demo_ranges(2) q(1) by blast
  then have "\<exists>j. tx_to_json demo_lib ?t = Ok j"
    using q(2) by (simp add: demo_lib_def in_wire_range_def eth_of_unsigned_def demo_metadata_def demo_tx_def
        demo_unsigned_def standin_address_laws [THEN address_lawsD(2)] transaction_to_json_def encode_ptr_def)
  then obtain j where j: "tx_to_json demo_lib ?t = Ok j" by blast
  with demo_transaction_laws have "tx_of_json demo_geth j = Ok ?t" by (simp add: transaction_laws_def)
  moreover have "with_signature demo_lib t (Some 1) [1] = Ok (t\<lparr>tx_chain_id := 1\<rparr>)" "tx_sender demo_lib t 1 = Ok 1" for t
    by (simp_all add: demo_lib_def)
  moreover have "cc_chain_id chain = 1" using chain by auto
  ultimately show ?thesis
    using dec r j by (simp add: ConstructionCombine_def io_lift_def json_parse_def parse_signed_def)
qed

theorem combine_then_parse_witness:
  "\<exists>r d resp. ConstructionPayloads demo_geth demo_lib demo_config failing_client (demo_intent, demo_map) 0 = (Ok r, 0)
     \<and> ConstructionCombine demo_geth demo_lib demo_config failing_client (pr_unsigned r, [Some [1]]) 0 = (Ok d, 0)
     \<and> ConstructionParse demo_geth demo_lib demo_config failing_client (True, d) 0 = (Ok resp, 0)
     \<and> pp_signers resp = [address_hex demo_geth 1]"
proof -
  obtain r where r: "ConstructionPayloads demo_geth demo_lib demo_config failing_client (demo_intent, demo_map) 0 = (Ok r, 0)"
    by (rule exE [OF demo_payloads])
  from demo_combine [OF r] obtain d t where
    d: "ConstructionCombine demo_geth demo_lib demo_config failing_client (pr_unsigned r, [Some [1]]) 0 = (Ok d, 0)"
    "parse_signed demo_geth d = Ok t" "tx_sender demo_lib t (tx_chain_id t) = Ok 1"
    by (elim exE conjE)
  from combine_then_parse [OF demo_laws demo_geth_laws(1) r demo_unmarshal demo_ranges d, of 0]
  obtain q ct kvs where "ConstructionParse demo_geth demo_lib demo_config failing_client (True, d) 0
      = (Ok \<lparr>pp_operations = transfer_ops (address_hex demo_geth 1) ct (op_value q),
            pp_signers = [address_hex demo_geth 1], pp_metadata = kvs\<rparr>, 0)"
    by (elim exE conjE)
  with r d(1) show ?thesis by (intro exI conjI) (assumption | simp)+
qed

text \<open>A client that reports the nonce 4 and a gas price at the bound of the suggested fee.\<close>

definition demo_client :: "int iface" where
  "demo_client = failing_client\<lparr>if_PendingNonceAt := (\<lambda>a w. (Ok 4, w)),
     if_SuggestGasPrice := (\<lambda>w. (Ok 439208192231180, w)), if_SendTransaction := (\<lambda>t w. (Ok (), w + 1))\<rparr>"

theorem preprocess_then_metadata_witness:
  "\<exists>opts r. ConstructionPreprocess demo_geth demo_lib demo_config demo_client demo_intent 0 = (Ok opts, 0)
     \<and> ConstructionMetadata demo_geth demo_config demo_client opts 0 = (Ok r, 0)
     \<and> unmarshalJSONMap (metadata_of_json demo_geth) (mr_metadata r)
         = Ok \<lparr>md_nonce = 4, md_gas_price = Some 439208192231180\<rparr>"
proof -
  obtain opts where o: "ConstructionPreprocess demo_geth demo_lib demo_config demo_client demo_intent 0 = (Ok opts, 0)"
    by (simp add: ConstructionPreprocess_def io_lift_def demo_matches demo_matched demo_addresses
        marshalJSONMap_def options_to_json_def)
  from preprocess_then_metadata [OF demo_match_law demo_geth_laws o, where config = demo_config and C = demo_client
      and gp = 439208192231180 and w = 0 and ?w1.0 = 0 and ?w2.0 = 0 and nonce = "\<lambda>_. 4"]
  show ?thesis using o by (auto simp: demo_client_def)
qed

theorem suggestedFee_exact_witness: "suggestedFee 1000000000 = 21000000000000"
  using suggestedFee_exact [of 1000000000] by simp

theorem submit_and_hash_witness:
  "(\<exists>e. ConstructionSubmit demo_geth demo_config demo_client None 0 = (Err e, 0) \<and> re_code e = 5)
   \<and> (\<exists>h. ConstructionSubmit demo_geth demo_config demo_client (Some (JStr ''create'')) 0 = (Ok h, 1))"
proof -
  have "\<exists>e. parse_signed demo_geth None = Err e" by (simp add: parse_signed_def json_parse_def)
  moreover have "\<exists>t. parse_signed demo_geth (Some (JStr ''create'')) = Ok t"
    by (simp add: parse_signed_def json_parse_def demo_geth_def)
  moreover have "if_SendTransaction demo_client t 0 = (Ok (), 1)" for t by (simp add: demo_client_def)
  ultimately show ?thesis
    using submit_and_hash [of demo_config demo_geth None demo_client 0]
      submit_and_hash [of demo_config demo_geth "Some (JStr ''create'')" demo_client 0] by fastforce
qed

theorem construction_offline_witness:
  "ConstructionSubmit demo_geth offline_config demo_client (Some (JStr ''create'')) 3 = (Err ErrUnavailableOffline, 3)"
  by (rule construction_offline [THEN conjunct1, THEN mp, THEN conjunct2]) simp

theorem construction_panics_witness:
  "ConstructionParse demo_geth demo_lib demo_config demo_client (True, Some (JStr ''create'')) 3 = (Crash NilDeref, 3)"
proof -
  obtain j where "transaction_to_json standin unsigned_example = Ok j" "transaction_of_json standin j = Ok unsigned_example"
    using transaction_wire.enc_valid [of standin unsigned_example] valid_example by (auto simp: codec_laws_def)
  then have "andThen (json_parse (Some j)) (transaction_of_json demo_geth) = Ok unsigned_example"
    by (simp add: json_parse_def transaction_of_json_def demo_geth_def big_field_def)
  moreover have "parse_signed demo_geth (Some (JStr ''create''))
      = Ok ((demo_tx unsigned_example)\<lparr>tx_to := None\<rparr>)"
    by (simp add: parse_signed_def json_parse_def demo_geth_def)
  ultimately show ?thesis using construction_panics [where C = demo_client and w = 3] by fastforce
qed

theorem construction_error_codes_witness:
  "\<exists>e. ConstructionDerive demo_geth demo_lib demo_config demo_client [] 3 = (Err e, 3) \<and> re_code e = 3"
proof -
  obtain e where e: "ConstructionDerive demo_geth demo_lib demo_config demo_client [] 3 = (Err e, 3)"
    by (simp add: ConstructionDerive_def io_lift_def demo_lib_def)
  from construction_error_codes [THEN conjunct1, THEN mp, OF e] e show ?thesis by blast
qed

end
