(* ===== verification/Server.thy ===== *)
theory Server
  imports Construction
begin

text \<open>
  The server as a whole (\<open>services/router.go\<close>): a request is routed to its handler, and a run is a
  sequence of requests, each served in the world the one before it left. A panic of a handler ends
  its request only; \<open>log.Fatalf\<close> ends the process, so no request follows it.
\<close>

section \<open>Requests and responses\<close>

datatype request =
    AccountBalanceReq string "partial_block_identifier option"
  | AccountCoinsReq
  | BlockReq "partial_block_identifier option"
  | BlockTransactionReq block_identifier string
  | CallReq string json_map
  | MempoolReq
  | MempoolTransactionReq
  | NetworkListReq
  | NetworkOptionsReq
  | NetworkStatusReq
  | DeriveReq bytes
  | PreprocessReq "operation list"
  | MetadataReq json_map
  | PayloadsReq "operation list" json_map
  | CombineReq json_text "bytes option list"
  | HashReq json_text
  | ParseReq bool json_text
  | SubmitReq json_text

datatype response =
    BalanceResp account_balance
  | NoResp
  | BlockResp rosetta_block
  | TransactionResp rosetta_transaction
  | MapResp json_map
  | HashesResp "string list"
  | NetworksResp "network_identifier option list"
  | OptionsResp network_options
  | StatusResp network_status
  | TextResp string
  | MetadataResp metadata_response
  | PayloadsResp payloads_response
  | SignedResp json_text
  | ParseResp parse_response

definition io_map :: "('a \<Rightarrow> 'b) \<Rightarrow> ('w, 'e, 'a) io \<Rightarrow> ('w, 'e, 'b) io" where
  "io_map f m = io_bind m (\<lambda>x. io_lift (Ok (f x)))"

section \<open>The services and the router\<close>

text \<open>Each service keeps the configuration and the client it was made with.\<close>

record 'w NetworkAPIService =
  nas_config :: configuration
  nas_client :: "'w iface"

record 'w AccountAPIService =
  aas_config :: configuration
  aas_client :: "'w iface"

record 'w BlockAPIService =
  bas_config :: configuration
  bas_client :: "'w iface"

record 'w ConstructionAPIService =
  cas_config :: configuration
  cas_client :: "'w iface"

record 'w MempoolAPIService =
  mas_config :: configuration
  mas_client :: "'w iface"

record 'w CallAPIService =
  las_config :: configuration
  las_client :: "'w iface"

definition NewNetworkAPIService :: "configuration \<Rightarrow> 'w iface \<Rightarrow> 'w NetworkAPIService" where
  "NewNetworkAPIService cfg client = \<lparr>nas_config = cfg, nas_client = client\<rparr>"

definition NewAccountAPIService :: "configuration \<Rightarrow> 'w iface \<Rightarrow> 'w AccountAPIService" where
  "NewAccountAPIService cfg client = \<lparr>aas_config = cfg, aas_client = client\<rparr>"

definition NewBlockAPIService :: "configuration \<Rightarrow> 'w iface \<Rightarrow> 'w BlockAPIService" where
  "NewBlockAPIService cfg client = \<lparr>bas_config = cfg, bas_client = client\<rparr>"

definition NewConstructionAPIService :: "configuration \<Rightarrow> 'w iface \<Rightarrow> 'w ConstructionAPIService" where
  "NewConstructionAPIService cfg client = \<lparr>cas_config = cfg, cas_client = client\<rparr>"

definition NewMempoolAPIService :: "configuration \<Rightarrow> 'w iface \<Rightarrow> 'w MempoolAPIService" where
  "NewMempoolAPIService cfg client = \<lparr>mas_config = cfg, mas_client = client\<rparr>"

definition NewCallAPIService :: "configuration \<Rightarrow> 'w iface \<Rightarrow> 'w CallAPIService" where
  "NewCallAPIService cfg client = \<lparr>las_config = cfg, las_client = client\<rparr>"

record 'w blockchain_router =
  networkAPIController :: "'w NetworkAPIService"
  accountAPIController :: "'w AccountAPIService"
  blockAPIController :: "'w BlockAPIService"
  constructionAPIController :: "'w ConstructionAPIService"
  mempoolAPIController :: "'w MempoolAPIService"
  callAPIController :: "'w CallAPIService"

definition NewBlockchainRouter :: "configuration \<Rightarrow> 'w iface \<Rightarrow> 'w blockchain_router" where
  "NewBlockchainRouter config client = \<lparr>
     networkAPIController = NewNetworkAPIService config client,
     accountAPIController = NewAccountAPIService config client,
     blockAPIController = NewBlockAPIService config client,
     constructionAPIController = NewConstructionAPIService config client,
     mempoolAPIController = NewMempoolAPIService config client,
     callAPIController = NewCallAPIService config client\<rparr>"

text \<open>The endpoints the controllers of the SDK mount; \<open>v\<close> is the version of the Rosetta API.\<close>

fun route :: "geth \<Rightarrow> 'k tx_lib \<Rightarrow> string \<Rightarrow> 'w blockchain_router \<Rightarrow> request \<Rightarrow> ('w, rosetta_error, response) io" where
  "route G L v R (AccountBalanceReq a b) = (let s = accountAPIController R in io_map BalanceResp (AccountBalance (aas_config s) (aas_client s) (a, b)))"
| "route G L v R AccountCoinsReq = (let s = accountAPIController R in io_map (\<lambda>_::unit. NoResp) (AccountCoins (aas_config s) (aas_client s) ()))"
| "route G L v R (BlockReq b) = (let s = blockAPIController R in io_map BlockResp (BlockService (bas_config s) (bas_client s) b))"
| "route G L v R (BlockTransactionReq b h) = (let s = blockAPIController R in io_map TransactionResp (BlockTransaction (bas_config s) (bas_client s) (b, h)))"
| "route G L v R (CallReq m ps) = (let s = callAPIController R in io_map MapResp (CallService (las_config s) (las_client s) (m, ps)))"
| "route G L v R MempoolReq = (let s = mempoolAPIController R in io_map HashesResp (Mempool (mas_config s) (mas_client s) ()))"
| "route G L v R MempoolTransactionReq = (let s = mempoolAPIController R in io_map (\<lambda>_::unit. NoResp) (MempoolTransaction (mas_config s) (mas_client s) ()))"
| "route G L v R NetworkListReq = (let s = networkAPIController R in io_map NetworksResp (NetworkList (nas_config s) (nas_client s) ()))"
| "route G L v R NetworkOptionsReq = (let s = networkAPIController R in io_map OptionsResp (NetworkOptions v (nas_config s) (nas_client s) ()))"
| "route G L v R NetworkStatusReq = (let s = networkAPIController R in io_map StatusResp (NetworkStatus (nas_config s) (nas_client s) ()))"
| "route G L v R (DeriveReq pk) = (let s = constructionAPIController R in io_map TextResp (ConstructionDerive G L (cas_config s) (cas_client s) pk))"
| "route G L v R (PreprocessReq ops) = (let s = constructionAPIController R in io_map MapResp (ConstructionPreprocess G L (cas_config s) (cas_client s) ops))"
| "route G L v R (MetadataReq opts) = (let s = constructionAPIController R in io_map MetadataResp (ConstructionMetadata G (cas_config s) (cas_client s) opts))"
| "route G L v R (PayloadsReq ops md) = (let s = constructionAPIController R in io_map PayloadsResp (ConstructionPayloads G L (cas_config s) (cas_client s) (ops, md)))"
| "route G L v R (CombineReq t sigs) = (let s = constructionAPIController R in io_map SignedResp (ConstructionCombine G L (cas_config s) (cas_client s) (t, sigs)))"
| "route G L v R (HashReq t) = (let s = constructionAPIController R in io_map TextResp (ConstructionHash G (cas_config s) (cas_client s) t))"
| "route G L v R (ParseReq isSigned t) = (let s = constructionAPIController R in io_map ParseResp (ConstructionParse G L (cas_config s) (cas_client s) (isSigned, t)))"
| "route G L v R (SubmitReq t) = (let s = constructionAPIController R in io_map TextResp (ConstructionSubmit G (cas_config s) (cas_client s) t))"

text \<open>The server of a configuration and a client, as \<open>runRunCmd\<close> sets it up.\<close>

definition serve :: "geth \<Rightarrow> 'k tx_lib \<Rightarrow> string \<Rightarrow> configuration \<Rightarrow> 'w iface \<Rightarrow> request \<Rightarrow> ('w, rosetta_error, response) io" where
  "serve G L v config C = route G L v (NewBlockchainRouter config C)"

lemma router_fields [simp]:
  "nas_config (networkAPIController (NewBlockchainRouter config C)) = config" "nas_client (networkAPIController (NewBlockchainRouter config C)) = C"
  "aas_config (accountAPIController (NewBlockchainRouter config C)) = config" "aas_client (accountAPIController (NewBlockchainRouter config C)) = C"
  "bas_config (blockAPIController (NewBlockchainRouter config C)) = config" "bas_client (blockAPIController (NewBlockchainRouter config C)) = C"
  "cas_config (constructionAPIController (NewBlockchainRouter config C)) = config" "cas_client (constructionAPIController (NewBlockchainRouter config C)) = C"
  "mas_config (mempoolAPIController (NewBlockchainRouter config C)) = config" "mas_client (mempoolAPIController (NewBlockchainRouter config C)) = C"
  "las_config (callAPIController (NewBlockchainRouter config C)) = config" "las_client (callAPIController (NewBlockchainRouter config C)) = C"
  by (simp_all add: NewBlockchainRouter_def NewNetworkAPIService_def NewAccountAPIService_def NewBlockAPIService_def NewConstructionAPIService_def NewMempoolAPIService_def NewCallAPIService_def)

lemma serve_simps [simp]:
  "serve G L v config C (AccountBalanceReq a b) = io_map BalanceResp (AccountBalance config C (a, b))"
  "serve G L v config C AccountCoinsReq = io_map (\<lambda>_::unit. NoResp) (AccountCoins config C ())"
  "serve G L v config C (BlockReq b) = io_map BlockResp (BlockService config C b)"
  "serve G L v config C (BlockTransactionReq bi h) = io_map TransactionResp (BlockTransaction config C (bi, h))"
  "serve G L v config C (CallReq m ps) = io_map MapResp (CallService config C (m, ps))"
  "serve G L v config C MempoolReq = io_map HashesResp (Mempool config C ())"
  "serve G L v config C MempoolTransactionReq = io_map (\<lambda>_::unit. NoResp) (MempoolTransaction config C ())"
  "serve G L v config C NetworkListReq = io_map NetworksResp (NetworkList config C ())"
  "serve G L v config C NetworkOptionsReq = io_map OptionsResp (NetworkOptions v config C ())"
  "serve G L v config C NetworkStatusReq = io_map StatusResp (NetworkStatus config C ())"
  "serve G L v config C (DeriveReq pk) = io_map TextResp (ConstructionDerive G L config C pk)"
  "serve G L v config C (PreprocessReq ops) = io_map MapResp (ConstructionPreprocess G L config C ops)"
  "serve G L v config C (MetadataReq opts) = io_map MetadataResp (ConstructionMetadata G config C opts)"
  "serve G L v config C (PayloadsReq ops md) = io_map PayloadsResp (ConstructionPayloads G L config C (ops, md))"
  "serve G L v config C (CombineReq t sigs) = io_map SignedResp (ConstructionCombine G L config C (t, sigs))"
  "serve G L v config C (HashReq t) = io_map TextResp (ConstructionHash G config C t)"
  "serve G L v config C (ParseReq isSigned t) = io_map ParseResp (ConstructionParse G L config C (isSigned, t))"
  "serve G L v config C (SubmitReq t) = io_map TextResp (ConstructionSubmit G config C t)"
  by (simp_all add: serve_def)

section \<open>Runs\<close>

definition fatal :: "('e, 'a) result \<Rightarrow> bool" where
  "fatal r \<longleftrightarrow> (\<exists>m. r = Crash (LogFatal m))"

text \<open>\<open>run S w h w'\<close>: the server function \<open>S\<close>, started in \<open>w\<close>, serves the history \<open>h\<close> and is then in \<open>w'\<close>.\<close>

inductive run ::
  "(request \<Rightarrow> ('w, rosetta_error, response) io) \<Rightarrow> 'w \<Rightarrow> (request \<times> (rosetta_error, response) result) list
     \<Rightarrow> 'w \<Rightarrow> bool" for S where
  run_Nil: "run S w [] w"
| run_Cons: "S r w = (res, w1) \<Longrightarrow> (fatal res \<longrightarrow> h = []) \<Longrightarrow> run S w1 h w' \<Longrightarrow> run S w ((r, res) # h) w'"

inductive_simps run_simps [simp]: "run S w [] w'" "run S w (x # h) w'"

lemma run_append:
  "run S w (g @ h) w' \<longleftrightarrow> (\<exists>u. run S w g u \<and> run S u h w' \<and> (g \<noteq> [] \<and> fatal (snd (last g)) \<longrightarrow> h = []))"
  by (induction g arbitrary: w) auto

text \<open>An observation that every request leaves alone is left alone by a run.\<close>

lemma run_preserves:
  assumes "\<And>r. preserves p (S r)" and "run S w h w'"
  shows "p w' = p w"
  using assms(2)
proof (induction rule: run.induct)
  case (run_Cons r w res w1 h w')
  with assms(1) [of r] show ?case by (auto simp: preserves_def dest: spec [of _ w])
qed simp

text \<open>Servers that answer alike have the same runs.\<close>

lemma run_cong: "(\<And>r. S r = T r) \<Longrightarrow> run S w h w' = run T w h w'"
  by (induction h arbitrary: w) auto

section \<open>What every request satisfies\<close>

lemma io_map_Err: "io_map f m w = (Err e, w') \<longleftrightarrow> m w = (Err e, w')"
  by (auto simp: io_map_def io_bind_def io_lift_def split: prod.splits result.splits)

lemma preserves_io_map [intro]: "preserves p m \<Longrightarrow> preserves p (io_map f m)"
  unfolding io_map_def by (rule preserves_bind) auto

lemma io_map_Ok: "io_map f m w = (Ok y, w') \<longleftrightarrow> (\<exists>x. m w = (Ok x, w') \<and> y = f x)"
  by (auto simp: io_map_def io_bind_def io_lift_def split: prod.splits result.splits)

lemma serve_declared: "serve G L v config C r w = (Err e, w') \<Longrightarrow> declared_error e"
  by (cases r) (auto simp: io_map_Err intro: account_balance.error_declared account_coins.error_declared
      block_service.error_declared block_transaction.error_declared call_service.error_declared
      mempool.error_declared mempool_transaction.error_declared network_list.error_declared
      network_options.error_declared network_status.error_declared derive.error_declared
      preprocess.error_declared metadata.error_declared payloads.error_declared combine.error_declared
      hash_endpoint.error_declared parse_endpoint.error_declared submit.error_declared)

text \<open>A client none of whose operations changes the observation \<open>p\<close>.\<close>

definition client_preserves :: "('w \<Rightarrow> 'b) \<Rightarrow> 'w iface \<Rightarrow> bool" where
  "client_preserves p C \<longleftrightarrow> preserves p (if_Status C) \<and> (\<forall>b. preserves p (if_Block C b))
     \<and> (\<forall>b h. preserves p (if_Transaction C b h)) \<and> (\<forall>a b. preserves p (if_Balance C a b))
     \<and> (\<forall>a. preserves p (if_PendingNonceAt C a)) \<and> preserves p (if_SuggestGasPrice C)
     \<and> (\<forall>t. preserves p (if_SendTransaction C t)) \<and> preserves p (if_GetMempool C)
     \<and> (\<forall>m ps. preserves p (if_Call C m ps))"

lemma preserves_orErr [intro]: "preserves p m \<Longrightarrow> preserves p (orErr r m)"
  unfolding orErr_def by (rule preserves_mapErr)

lemma preserves_online [intro]: "preserves p m \<Longrightarrow> preserves p (online config m)"
  unfolding online_def by (rule preserves_if) auto

lemmas preserves_rules = preserves_io_map preserves_online preserves_bind preserves_orErr preserves_lift

lemma serve_preserves:
  assumes "client_preserves p C"
  shows "preserves p (serve G L v config C r)"
proof -
  note c = assms [unfolded client_preserves_def]
  show ?thesis
  proof (cases r)
    case NetworkStatusReq
    with c show ?thesis
      by (simp add: NetworkStatus_def, intro preserves_rules) (simp_all split: prod.split)
  next
    case (MetadataReq opts)
    with c show ?thesis by (simp add: ConstructionMetadata_def, intro preserves_rules) simp_all
  next
    case (SubmitReq t)
    with c show ?thesis by (simp add: ConstructionSubmit_def, intro preserves_rules) simp_all
  qed (use c in \<open>auto intro!: preserves_rules preserves_mapErr
      simp: AccountBalance_def BlockService_def BlockTransaction_def CallService_def Mempool_def
        AccountCoins_def MempoolTransaction_def NetworkList_def NetworkOptions_def ConstructionDerive_def
        ConstructionPreprocess_def ConstructionPayloads_def ConstructionCombine_def ConstructionHash_def
        ConstructionParse_def\<close>)
qed

text \<open>Offline, the client and the world play no part.\<close>

lemma serve_offline:
  assumes "cfg_mode config \<noteq> Online"
  shows "serve G L v config C r = serve G L v config C' r" and "snd (serve G L v config C r w) = w"
proof -
  note guarded = account_balance.offline block_service.offline block_transaction.offline call_service.offline
    mempool.offline network_status.offline metadata.offline submit.offline
  note opened = AccountCoins_def MempoolTransaction_def NetworkList_def NetworkOptions_def ConstructionDerive_def
    ConstructionPreprocess_def ConstructionPayloads_def ConstructionCombine_def ConstructionHash_def ConstructionParse_def
  have "serve G L v config C r w = serve G L v config C' r w" for w
    using assms by (cases r) (simp_all add: io_map_def io_bind_def guarded opened io_lift_def)
  then show "serve G L v config C r = serve G L v config C' r" by (rule ext)
  show "snd (serve G L v config C r w) = w"
    using assms by (cases r) (simp_all add: io_map_def io_bind_def guarded opened io_lift_def split: result.split)
qed

text \<open>The client of the \<open>ethereum\<close> package keeps what its node keeps.\<close>

lemma ethereum_client_preserves:
  assumes "sem_law held (cl_node ec)" and "\<And>q. preserves held (graphql_query (cl_node ec) q)"
  shows "client_preserves held (ethereum_client ec)"
proof -
  note c = sem_lawD(1) [OF assms(1)] node_calls_preserve [OF assms(1)]
  have "preserves held (Status ec)"
    unfolding Status_def syncProgress_def peers_def Let_def by (intro preserves_bind preserves_if preserves_lift c)
  moreover have "preserves held (Block ec b)" for b
    using Block_parsed [of ec b] getParsedBlock_preserves [OF assms(1)] by auto
  moreover have "preserves held (Transaction ec b h)" for b h
    by (rule Transaction_preserves [OF assms(1)])
  moreover have "preserves held (Balance ec a b)" for a b
    unfolding Balance_def by (intro preserves_bind preserves_lift assms(2))
  moreover have "preserves held (PendingNonceAt ec a)" "preserves held (SuggestGasPrice ec)"
    "preserves held (SendTransaction ec t)" "preserves held (GetMempool ec)" for a t
    unfolding PendingNonceAt_def SuggestGasPrice_def SendTransaction_def GetMempool_def
    by (intro preserves_bind preserves_lift c)+
  moreover have "preserves held (call_method ec m ps)" for m ps
    unfolding call_method_def callBlock_def callReceipt_def contractCall_def estimateGas_def blockByNumber_def
    by (intro preserves_if preserves_bind preserves_lift c)
  ultimately show ?thesis by (simp add: client_preserves_def ethereum_client_def)
qed

section \<open>Properties\<close>

text \<open>
  C23. A server that is not \<open>ONLINE\<close>, over any run: whatever requests it serves, it leaves the world as
  it was, and its answers do not depend on the client, not even on whether there is one.
\<close>

theorem run_offline:
  assumes "cfg_mode config \<noteq> Online" and "run (serve G L v config C) w h w'"
  shows "w' = w \<and> run (serve G L v config C') w h w"
proof -
  have "preserves (\<lambda>w. w) (serve G L v config C r)" for r
    unfolding preserves_def by (intro allI serve_offline(2) [OF assms(1)])
  from run_preserves [OF this assms(2)] have "w' = w" .
  moreover have "run (serve G L v config C) w h w' = run (serve G L v config C') w h w'"
    by (rule run_cong, rule serve_offline(1) [OF assms(1)])
  ultimately show ?thesis using assms(2) by simp
qed

text \<open>
  C22. The trace semaphore over any run of the server: however many blocks and transactions are
  served, and however many of these requests fail or panic, as many permits are free after the run
  as before it.
\<close>

theorem run_semaphore:
  assumes "sem_law held (cl_node ec)" and "\<And>q. preserves held (graphql_query (cl_node ec) q)"
    and "run (serve G L v config (ethereum_client ec)) w h w'"
  shows "held w' = held w"
  by (rule run_preserves [OF serve_preserves assms(3)])
    (rule ethereum_client_preserves [OF assms(1,2)])

text \<open>Errors and operations of a run are covered by the network options served in it.\<close>

lemma run_publishes:
  assumes "address_laws (cl_geth ec)" and "key_order (cl_order ec)" and "tracer_law ec"
    and "run (serve G L v config (ethereum_client ec)) w h w'"
    and "(NetworkOptionsReq, Ok (OptionsResp opts)) \<in> set h"
  shows "(\<forall>r e. (r, Err e) \<in> set h \<longrightarrow> error_kind e \<in> error_kind ` set (no_errors opts))
    \<and> (\<forall>q b t. (BlockReq q, Ok (BlockResp b)) \<in> set h \<and> Some t \<in> set (rb_transactions b) \<longrightarrow>
        indexed op_index 0 (rt_operations t)
        \<and> (\<forall>p \<in> set (rt_operations t). op_type p \<in> set (no_operation_types opts)
            \<and> op_status p \<in> Some ` os_status ` set (no_operation_statuses opts)))"
proof -
  have served: "\<exists>u u'. serve G L v config (ethereum_client ec) r u = (res, u')" if "(r, res) \<in> set h" for r res
    using assms(4) that by (induction rule: run.induct) auto
  from served [OF assms(5)] have o: "no_errors opts = Errors" "no_operation_types opts = OperationTypes"
    "no_operation_statuses opts = OperationStatuses"
    by (auto simp: io_map_Ok NetworkOptions_def io_lift_def)
  have "declared_error e" if "(r, Err e) \<in> set h" for r e
    using served [OF that] by (elim exE) (rule serve_declared)
  moreover have "ops_wf 0 (rt_operations t)"
    if b: "(BlockReq q, Ok (BlockResp b)) \<in> set h" and t: "Some t \<in> set (rb_transactions b)" for q b t
  proof -
    from served [OF b] obtain u u' where "Block ec q u = (Ok b, u')"
      by (auto simp: io_map_Ok BlockService_def online_def ethereum_client_def io_lift_def split: if_splits)
    then obtain m args where "getParsedBlock ec m args u = (Ok b, u')" using Block_parsed [of ec q] by auto
    from getParsedBlock_wf [OF assms(1-3) this] t show ?thesis by auto
  qed
  ultimately show ?thesis
    unfolding o declared_error_def ops_wf_def op_ok_def by (fastforce simp: image_image)
qed

text \<open>
  What a run publishes covers what it serves: if one request of a run asks for the network
  options, then every error any request of the run is answered with is one of the published
  errors, and every operation of every block served has a published type and status, with its
  indices counting up from 0.
\<close>

theorem run_published:
  assumes "address_laws (cl_geth ec)" and "key_order (cl_order ec)" and "tracer_law ec"
    and "run (serve G L v config (ethereum_client ec)) w h w'"
    and "(NetworkOptionsReq, Ok (OptionsResp opts)) \<in> set h"
  shows "(\<forall>r e. (r, Err e) \<in> set h \<longrightarrow> error_kind e \<in> error_kind ` set (no_errors opts))
    \<and> (\<forall>q b t. (BlockReq q, Ok (BlockResp b)) \<in> set h \<and> Some t \<in> set (rb_transactions b) \<longrightarrow>
        indexed op_index 0 (rt_operations t)
        \<and> (\<forall>p \<in> set (rt_operations t). op_type p \<in> set (no_operation_types opts)
            \<and> op_status p \<in> Some ` os_status ` set (no_operation_statuses opts)))"
  using assms by (rule run_publishes)

section \<open>Concrete instances of the properties\<close>

theorem run_offline_witness:
  "run (serve demo_geth demo_lib [] offline_config demo_client) 3
     [(SubmitReq None, Err ErrUnavailableOffline), (NetworkListReq, Ok (NetworksResp [None]))] 3"
proof -
  have "run (serve demo_geth demo_lib [] offline_config failing_client) 3
     [(SubmitReq None, Err ErrUnavailableOffline), (NetworkListReq, Ok (NetworksResp [None]))] 3"
    by (simp add: io_map_def io_bind_def submit.offline NetworkList_def io_lift_def fatal_def)
      (simp add: offline_config_def empty_configuration_def)
  from run_offline [OF _ this, of demo_client] show ?thesis by simp
qed

definition demo_options :: network_options where
  "demo_options = \<lparr>no_node_version = NodeVersion, no_rosetta_version = [],
     no_middleware_version = MiddlewareVersion, no_errors = Errors, no_operation_types = OperationTypes,
     no_operation_statuses = OperationStatuses, no_historical_balance = HistoricalBalanceSupported,
     no_call_methods = CallMethods\<rparr>"

lemma demo_run:
  obtains b where "run (serve demo_geth demo_lib [] online_config (ethereum_client mock_client)) 0
     [(BlockReq None, Ok (BlockResp b)), (NetworkOptionsReq, Ok (OptionsResp demo_options))] 0"
proof -
  obtain b where "BlockService online_config (ethereum_client mock_client) None 0 = (Ok b, 0)"
    by (rule mock_served)
  then show ?thesis
    by (intro that [of b]) (simp add: io_map_Ok NetworkOptions_def io_lift_def fatal_def demo_options_def)
qed

theorem run_semaphore_witness:
  "\<exists>b opts. run (serve demo_geth demo_lib [] online_config (ethereum_client mock_client)) 0
     [(BlockReq None, Ok (BlockResp b)), (NetworkOptionsReq, Ok (OptionsResp opts))] 0
   \<and> (\<forall>w'. run (serve demo_geth demo_lib [] online_config (ethereum_client mock_client)) 0
     [(BlockReq None, Ok (BlockResp b)), (NetworkOptionsReq, Ok (OptionsResp opts))] w' \<longrightarrow> w' = 0)"
proof -
  have g: "preserves (\<lambda>w. w) (graphql_query (cl_node mock_client) q)" for q
    by (simp add: preserves_def mock_client_def mock_node_def)
  obtain b where b: "run (serve demo_geth demo_lib [] online_config (ethereum_client mock_client)) 0
     [(BlockReq None, Ok (BlockResp b)), (NetworkOptionsReq, Ok (OptionsResp demo_options))] 0"
    by (rule demo_run)
  moreover have "\<forall>w' h. run (serve demo_geth demo_lib [] online_config (ethereum_client mock_client)) 0 h w' \<longrightarrow> w' = 0"
    using run_semaphore [OF mock_sem_law g] by blast
  ultimately show ?thesis by blast
qed

theorem run_published_witness:
  "\<exists>b h. run (serve demo_geth demo_lib [] online_config (ethereum_client mock_client)) 0 h 0
     \<and> (BlockReq None, Ok (BlockResp b)) \<in> set h
     \<and> (\<forall>t. Some t \<in> set (rb_transactions b) \<longrightarrow> indexed op_index 0 (rt_operations t))"
proof -
  obtain b where b: "run (serve demo_geth demo_lib [] online_config (ethereum_client mock_client)) 0
     [(BlockReq None, Ok (BlockResp b)), (NetworkOptionsReq, Ok (OptionsResp demo_options))] 0"
    (is "run ?S 0 ?h 0")
    by (rule demo_run)
  have o: "(NetworkOptionsReq, Ok (OptionsResp demo_options)) \<in> set ?h" by simp
  have "address_laws (cl_geth mock_client)" "key_order (cl_order mock_client)" by simp_all
  from run_published [OF this mock_tracer_law b o] b show ?thesis
    by (intro exI [of _ b] exI [of _ ?h]) simp
qed

end
