(* ===== verification/Bootstrap.thy ===== *)
theory Bootstrap
  imports GethLib "HOL-Library.List_Lexorder" "HOL-Library.Char_ord"
begin

text \<open>
  \<open>ethereum/bootstrap.go\<close>: the bootstrap balances made from a genesis file. The decoded
  allocation is a Go map from addresses to balances (hexadecimal text); the loop over it visits
  its keys in the order \<open>ord\<close>, which Go leaves open. Reading and writing files is done by the
  Rosetta SDK and is a parameter.
\<close>

section \<open>Model\<close>

record bootstrap_balance =
  bb_address :: string
  bb_amount :: amount

record alloc_state =
  as_keys :: "string list"
  as_formatted :: "(string \<times> string) list"

definition alloc_step :: "geth \<Rightarrow> string \<times> string \<Rightarrow> alloc_state \<Rightarrow> alloc_state outcome" where
  "alloc_step G = (\<lambda>(k, balance) st. case ChecksumAddress G k of
      None \<Rightarrow> Err (ErrorNew (''invalid address 0x'' @ k))
    | Some checkAddr \<Rightarrow> Ok \<lparr>as_keys = as_keys st @ [checkAddr],
        as_formatted = gm_put checkAddr balance (as_formatted st)\<rparr>)"

definition balance_step ::
  "(string \<times> string) list \<Rightarrow> string \<Rightarrow> bootstrap_balance list \<Rightarrow> bootstrap_balance list outcome" where
  "balance_step formatted k balances =
     (let v = (case map_of formatted k of None \<Rightarrow> [] | Some v \<Rightarrow> v)
      in andThen (slice_from 2 v) (\<lambda>digs. case SetString 16 digs of
          None \<Rightarrow> Err (ErrorNew (''cannot parse '' @ v @ '' for integer''))
        | Some bal \<Rightarrow> if bal = 0 then Ok balances
            else Ok (balances @ [\<lparr>bb_address = k, bb_amount = wei bal\<rparr>])))"

definition bootstrap_balances ::
  "geth \<Rightarrow> (string list \<Rightarrow> string list) \<Rightarrow> (string \<times> string) list \<Rightarrow> bootstrap_balance list outcome" where
  "bootstrap_balances G ord alloc =
     andThen (foldM (alloc_step G) (range_entries ord alloc) \<lparr>as_keys = [], as_formatted = []\<rparr>) (\<lambda>st.
       foldM (balance_step (as_formatted st)) (sort (as_keys st)) [])"

definition GenerateBootstrapFile ::
  "geth \<Rightarrow> (string list \<Rightarrow> string list) \<Rightarrow> (string \<Rightarrow> ('w, gerr, (string \<times> string) list) io)
     \<Rightarrow> (string \<Rightarrow> bootstrap_balance list \<Rightarrow> ('w, gerr, unit) io)
     \<Rightarrow> string \<Rightarrow> string \<Rightarrow> ('w, gerr, unit) io" where
  "GenerateBootstrapFile G ord LoadAndParse SerializeAndWrite genesisFile outputFile =
     io_bind (io_mapErr (\<lambda>e. Wrapf e '': could not load genesis file'') (LoadAndParse genesisFile)) (\<lambda>alloc.
     io_bind (io_lift (bootstrap_balances G ord alloc)) (\<lambda>balances.
     io_mapErr (\<lambda>e. Wrapf e '': could not write bootstrap balances'')
       (SerializeAndWrite outputFile balances)))"

section \<open>The allocation loop\<close>

text \<open>
  The allocation is clean if every key is an address, no two keys are spellings of the same
  address, and every balance is the hexadecimal of a natural number.
\<close>

definition checksum :: "geth \<Rightarrow> string \<Rightarrow> string" where
  "checksum G k = the (ChecksumAddress G k)"

definition addresses_ok :: "geth \<Rightarrow> (string \<times> string) list \<Rightarrow> bool" where
  "addresses_ok G alloc \<longleftrightarrow> (\<forall>e \<in> set alloc. ChecksumAddress G (fst e) \<noteq> None)
     \<and> distinct (map (\<lambda>e. checksum G (fst e)) alloc)"

fun balances_ok :: "(string \<times> string) list \<Rightarrow> bool" where
  "balances_ok [] = True"
| "balances_ok ((k, v) # es) \<longleftrightarrow> 2 \<le> length v
     \<and> (case SetString 16 (drop 2 v) of None \<Rightarrow> False | Some x \<Rightarrow> 0 \<le> x) \<and> balances_ok es"

lemma balances_ok_iff: "balances_ok es \<longleftrightarrow> (\<forall>e \<in> set es. 2 \<le> length (snd e)
    \<and> (case SetString 16 (drop 2 (snd e)) of None \<Rightarrow> False | Some x \<Rightarrow> 0 \<le> x))"
  by (induction es rule: balances_ok.induct) auto

definition hex_value :: "string \<Rightarrow> int" where
  "hex_value v = the (SetString 16 (drop 2 v))"

lemma alloc_loop:
  assumes "addresses_ok G es" and "\<forall>e \<in> set es. map_of (as_formatted st) (checksum G (fst e)) = None"
  shows "\<exists>st'. foldM (alloc_step G) es st = Ok st'
    \<and> as_keys st' = as_keys st @ map (\<lambda>e. checksum G (fst e)) es
    \<and> (\<forall>e \<in> set es. map_of (as_formatted st') (checksum G (fst e)) = Some (snd e))
    \<and> (\<forall>c. c \<notin> (\<lambda>e. checksum G (fst e)) ` set es \<longrightarrow>
        map_of (as_formatted st') c = map_of (as_formatted st) c)"
  using assms
proof (induction es arbitrary: st)
  case Nil
  then show ?case by simp
next
  case (Cons e es)
  obtain k v where e: "e = (k, v)" by (cases e)
  let ?c = "checksum G k"
  from Cons.prems(1) e have c: "ChecksumAddress G k = Some ?c"
    by (auto simp: addresses_ok_def checksum_def)
  from Cons.prems(1) e have fresh: "?c \<notin> (\<lambda>e. checksum G (fst e)) ` set es" and ok: "addresses_ok G es"
    by (auto simp: addresses_ok_def)
  let ?st = "\<lparr>as_keys = as_keys st @ [?c], as_formatted = gm_put ?c v (as_formatted st)\<rparr>"
  have "\<forall>e \<in> set es. map_of (as_formatted ?st) (checksum G (fst e)) = None"
    using Cons.prems(2) fresh by (auto simp: image_iff)
  from Cons.IH [OF ok this] obtain st' where st': "foldM (alloc_step G) es ?st = Ok st'"
      "as_keys st' = as_keys ?st @ map (\<lambda>e. checksum G (fst e)) es"
      "\<forall>e \<in> set es. map_of (as_formatted st') (checksum G (fst e)) = Some (snd e)"
      "\<forall>c. c \<notin> (\<lambda>e. checksum G (fst e)) ` set es \<longrightarrow>
        map_of (as_formatted st') c = map_of (as_formatted ?st) c" by blast
  from st'(1) have "foldM (alloc_step G) (e # es) st = Ok st'"
    by (simp add: e alloc_step_def c)
  with st'(2-4) fresh show ?case by (intro exI [of _ st']) (auto simp: e)
qed

lemma foldM_cong_set: "(\<And>x s. x \<in> set xs \<Longrightarrow> f x s = g x s) \<Longrightarrow> foldM f xs s = foldM g xs s"
proof (induction xs arbitrary: s)
  case (Cons x xs)
  then have "foldM f xs = foldM g xs" by (intro ext) simp
  with Cons.prems show ?case by simp
qed simp

lemma balance_loop:
  assumes "\<forall>k \<in> set ks. \<exists>v. map_of m k = Some v \<and> 2 \<le> length v \<and> SetString 16 (drop 2 v) \<noteq> None"
  shows "foldM (balance_step m) ks bs = Ok (bs @ map (\<lambda>k. \<lparr>bb_address = k, bb_amount = wei (hex_value (the (map_of m k)))\<rparr>)
     (filter (\<lambda>k. hex_value (the (map_of m k)) \<noteq> 0) ks))"
  using assms
proof (induction ks arbitrary: bs)
  case (Cons k ks)
  then obtain v x where "map_of m k = Some v" "2 \<le> length v" "SetString 16 (drop 2 v) = Some x" by auto
  with Cons show ?case by (simp add: balance_step_def Let_def slice_from_def hex_value_def)
qed simp

lemma sort_mset_eq: "mset xs = mset ys \<Longrightarrow> sort xs = sort (ys :: 'a :: linorder list)"
  by (metis sorted_list_of_multiset_mset)

text \<open>The state after the first loop, and the result, for a clean allocation.\<close>

lemma addresses_ok_mset: "mset es = mset es' \<Longrightarrow> addresses_ok G es \<longleftrightarrow> addresses_ok G es'"
  unfolding addresses_ok_def
  by (metis mset_eq_imp_distinct_iff mset_eq_setD mset_map)

lemma bootstrap_eq:
  assumes "key_order ord" and "gm_ok alloc" and "addresses_ok G alloc" and "balances_ok alloc"
  shows "bootstrap_balances G ord alloc = Ok (
    map (\<lambda>k. \<lparr>bb_address = k, bb_amount = wei (hex_value (the (map_of (map (\<lambda>e. (checksum G (fst e), snd e)) alloc) k)))\<rparr>)
     (filter (\<lambda>k. hex_value (the (map_of (map (\<lambda>e. (checksum G (fst e), snd e)) alloc) k)) \<noteq> 0)
       (sort (map (\<lambda>e. checksum G (fst e)) alloc))))"
proof -
  let ?es = "range_entries ord alloc" and ?m = "map (\<lambda>e. (checksum G (fst e), snd e)) alloc"
  let ?key = "\<lambda>e. checksum G (fst e)"
  have m: "mset ?es = mset alloc" by (rule mset_range_entries [OF assms(1,2)])
  then have s: "set ?es = set alloc" by (rule mset_eq_setD)
  have dm: "distinct (map fst ?m)" using assms(3) by (simp add: addresses_ok_def o_def)
  have look: "map_of ?m (?key e) = Some (snd e)" if "e \<in> set alloc" for e
    using that by (intro map_of_is_SomeI [OF dm]) auto
  obtain st where st: "foldM (alloc_step G) ?es \<lparr>as_keys = [], as_formatted = []\<rparr> = Ok st"
      "as_keys st = map ?key ?es" "\<forall>e \<in> set ?es. map_of (as_formatted st) (?key e) = Some (snd e)"
    using alloc_loop [of G ?es "\<lparr>as_keys = [], as_formatted = []\<rparr>"] assms(3) addresses_ok_mset [OF m]
    by auto
  have "mset (map ?key ?es) = mset (map ?key alloc)" using m by simp
  then have sort: "sort (as_keys st) = sort (map ?key alloc)" unfolding st(2) by (rule sort_mset_eq)
  have same: "map_of (as_formatted st) k = map_of ?m k" if "k \<in> set (sort (map ?key alloc))" for k
    using that st(3) look s by auto
  have good: "\<exists>v. map_of (as_formatted st) k = Some v \<and> 2 \<le> length v \<and> SetString 16 (drop 2 v) \<noteq> None"
    if "k \<in> set (sort (map ?key alloc))" for k
    using that same [OF that] look assms(4) by (auto simp: balances_ok_iff split: option.splits)
  have "foldM (balance_step (as_formatted st)) (sort (map ?key alloc)) [] = Ok ([] @
    map (\<lambda>k. \<lparr>bb_address = k, bb_amount = wei (hex_value (the (map_of (as_formatted st) k)))\<rparr>)
     (filter (\<lambda>k. hex_value (the (map_of (as_formatted st) k)) \<noteq> 0) (sort (map ?key alloc))))"
    by (rule balance_loop) (use good in blast)
  also have "\<dots> = Ok (map (\<lambda>k. \<lparr>bb_address = k, bb_amount = wei (hex_value (the (map_of ?m k)))\<rparr>)
     (filter (\<lambda>k. hex_value (the (map_of ?m k)) \<noteq> 0) (sort (map ?key alloc))))"
    using same by (auto simp: intro!: map_cong filter_cong)
  finally show ?thesis
    unfolding bootstrap_balances_def st(1) andThen.simps sort .
qed

section \<open>Properties\<close>

text \<open>
  C29. The bootstrap balances of a clean allocation do not depend on the order in which Go ranges
  over the map. They are sorted by address, without duplicates, and hold exactly the accounts
  with a balance that is not zero, each with that balance.
\<close>

theorem bootstrap_balances_exact:
  assumes "key_order ord" and "gm_ok alloc" and "addresses_ok G alloc" and "balances_ok alloc"
  shows "\<exists>bs. bootstrap_balances G ord alloc = Ok bs
    \<and> sorted (map bb_address bs) \<and> distinct (map bb_address bs)
    \<and> (\<lambda>b. (bb_address b, bb_amount b)) ` set bs =
      (\<lambda>e. (checksum G (fst e), wei (hex_value (snd e)))) ` {e \<in> set alloc. hex_value (snd e) \<noteq> 0}
    \<and> (\<forall>ord'. key_order ord' \<longrightarrow> bootstrap_balances G ord' alloc = Ok bs)"
proof -
  let ?m = "map (\<lambda>e. (checksum G (fst e), snd e)) alloc" and ?key = "\<lambda>e. checksum G (fst e)"
  let ?val = "\<lambda>k. hex_value (the (map_of ?m k))"
  define bs where "bs = map (\<lambda>k. \<lparr>bb_address = k, bb_amount = wei (?val k)\<rparr>)
    (filter (\<lambda>k. ?val k \<noteq> 0) (sort (map ?key alloc)))"
  have d: "distinct (map ?key alloc)" using assms(3) by (simp add: addresses_ok_def)
  have addr: "map bb_address bs = filter (\<lambda>k. ?val k \<noteq> 0) (sort (map ?key alloc))"
    by (simp add: bs_def o_def)
  have dm: "distinct (map fst ?m)" using d by (simp add: o_def)
  have val: "?val (?key e) = hex_value (snd e)" if "e \<in> set alloc" for e
  proof -
    have "map_of ?m (?key e) = Some (snd e)" using that by (intro map_of_is_SomeI [OF dm]) auto
    then show ?thesis by simp
  qed
  have "(\<lambda>b. (bb_address b, bb_amount b)) ` set bs
      = (\<lambda>k. (k, wei (?val k))) ` {k \<in> ?key ` set alloc. ?val k \<noteq> 0}"
    by (force simp: bs_def)
  also have "\<dots> = (\<lambda>e. (checksum G (fst e), wei (hex_value (snd e)))) ` {e \<in> set alloc. hex_value (snd e) \<noteq> 0}"
    using val by (force simp: image_iff)
  finally have set_bs: "(\<lambda>b. (bb_address b, bb_amount b)) ` set bs =
    (\<lambda>e. (checksum G (fst e), wei (hex_value (snd e)))) ` {e \<in> set alloc. hex_value (snd e) \<noteq> 0}" .
  have "bootstrap_balances G ord' alloc = Ok bs" if "key_order ord'" for ord'
    unfolding bs_def by (rule bootstrap_eq [OF that assms(2-4)])
  with assms(1) set_bs d show ?thesis
    by (intro exI [of _ bs]) (auto simp: addr sorted_wrt_filter)
qed

definition twice :: "(string \<times> string) list" where
  "twice = [(''0x5'', ''0x1''), (''0x05'', ''0x2'')]"

text \<open>
  Two spellings of one address in the genesis file: the account is listed twice, both times
  with the balance of the spelling that was visited last, so the file depends on the order in
  which Go happens to range over the map.
\<close>

theorem bootstrap_balances_duplicate:
  "bootstrap_balances standin (\<lambda>ks. ks) twice =
     Ok [\<lparr>bb_address = ''0x5'', bb_amount = wei 2\<rparr>, \<lparr>bb_address = ''0x5'', bb_amount = wei 2\<rparr>]
   \<and> bootstrap_balances standin rev twice =
     Ok [\<lparr>bb_address = ''0x5'', bb_amount = wei 1\<rparr>, \<lparr>bb_address = ''0x5'', bb_amount = wei 1\<rparr>]"
  by code_simp

lemma distinct_one: "distinct xs \<Longrightarrow> set xs = {a} \<Longrightarrow> xs = [a]"
  by (cases xs; cases "tl xs") auto

theorem bootstrap_balances_exact_witness:
  "\<exists>bs. bootstrap_balances standin rev [(''0x9'', ''0x0''), (''0x05'', ''0x2'')] = Ok bs
     \<and> map bb_address bs = [''0x5'']"
proof -
  let ?a = "[(''0x9'', ''0x0''), (''0x05'', ''0x2'')]"
  have ok: "gm_ok ?a" "addresses_ok standin ?a" "balances_ok ?a" by code_simp+
  have "hex_value ''0x2'' = 2" "hex_value ''0x0'' = 0" by code_simp+
  then have "{e \<in> set ?a. hex_value (snd e) \<noteq> 0} = {(''0x05'', ''0x2'')}" by auto
  moreover have "checksum standin ''0x05'' = ''0x5''" "hex_value ''0x2'' = 2" by code_simp+
  ultimately have e: "(\<lambda>e. (checksum standin (fst e), wei (hex_value (snd e))))
      ` {e \<in> set ?a. hex_value (snd e) \<noteq> 0} = {(''0x5'', wei 2)}"
    by simp
  obtain bs where bs: "bootstrap_balances standin rev ?a = Ok bs" "distinct (map bb_address bs)"
      "(\<lambda>b. (bb_address b, bb_amount b)) ` set bs = {(''0x5'', wei 2)}"
    using bootstrap_balances_exact [OF key_order_examples(2) ok] unfolding e by blast
  have "fst ` (\<lambda>b. (bb_address b, bb_amount b)) ` set bs = set (map bb_address bs)"
    by (simp add: image_image)
  then have "set (map bb_address bs) = {''0x5''}" by (simp add: bs(3))
  with bs(2) have "map bb_address bs = [''0x5'']" by (rule distinct_one)
  from bs(1) this show ?thesis by (intro exI conjI)
qed

end
