(* ===== verification/Startup.thy ===== *)
theory Startup
  imports Server Bootstrap
begin

text \<open>
  Start-up: the client of the node (\<open>NewClient\<close> of \<open>ethereum/client.go\<close>, \<open>ethereum/tracer.go\<close>,
  \<open>ethereum/graphql_client.go\<close>), the node process (\<open>ethereum/geth.go\<close>) and the command that starts the
  server (\<open>cmd/run.go\<close>). Sockets, files, processes and goroutines are the record \<open>os\<close>: a goroutine
  handed to the group is \<open>spawn\<close>, whose effect on the world is a parameter, \<open>await_done\<close> waits for the
  context to be cancelled and \<open>wait\<close> is the end of the group. The loop that copies geth's logs is the
  parameter \<open>log_pipe\<close> here; \<open>Lifecycle\<close> models it and the goroutines. Time-outs are in nanoseconds.
\<close>

section \<open>The operating system and libraries\<close>

text \<open>A parsed URL by its path and the rest; \<open>'c\<close> is a command, \<open>'p\<close> a pipe, \<open>'q\<close> a request, \<open>'r\<close> a response.\<close>

record url =
  url_rest :: string
  url_path :: string

text \<open>The settings of the HTTP clients and of the server; a command of cobra, with its exact number of arguments.\<close>

record http_client =
  hc_timeout :: int
  hc_idle_timeout :: int
  hc_max_idle :: int
  hc_max_idle_per_host :: int

record http_server =
  sv_addr :: string
  sv_read_timeout :: int
  sv_write_timeout :: int
  sv_idle_timeout :: int

record 'w command =
  cmd_use :: string
  cmd_short :: string
  cmd_args :: "nat option"
  cmd_run :: "string list \<Rightarrow> ('w, gerr, unit) io"

record 'w root_command =
  root_use :: string
  root_short :: string
  root_commands :: "'w command list"

record ('w, 'c, 'p, 'q, 'r) os =
  parse_url :: "string \<Rightarrow> url outcome"
  url_string :: "url \<Rightarrow> string"
  http_new_request :: "string \<Rightarrow> json \<Rightarrow> 'q outcome"
  http_default :: http_client
  http_do :: "http_client \<Rightarrow> 'q \<Rightarrow> ('w, gerr, 'r) io"
  http_read_body :: "'r \<Rightarrow> ('w, gerr, json_text) io"
  http_close_body :: "'r \<Rightarrow> 'w \<Rightarrow> 'w"
  read_file :: "string \<Rightarrow> ('w, gerr, string) io"
  trace_config_json :: "string \<Rightarrow> string \<Rightarrow> json"
  dial_http :: "string \<Rightarrow> int \<Rightarrow> ('w, gerr, 'w node) io"
  close_rpc :: "'w node \<Rightarrow> 'w \<Rightarrow> 'w"
  new_semaphore :: "int \<Rightarrow> 'w node \<Rightarrow> 'w node"
  exec_command :: "string \<Rightarrow> string list \<Rightarrow> 'c"
  stdout_pipe :: "'c \<Rightarrow> ('w, gerr, 'p) io"
  stderr_pipe :: "'c \<Rightarrow> ('w, gerr, 'p) io"
  log_pipe :: "'p \<Rightarrow> string \<Rightarrow> ('w, gerr, unit) io"
  interrupt :: "'c \<Rightarrow> ('w, gerr, unit) io"
  cmd_start :: "'c \<Rightarrow> ('w, gerr, unit) io"
  cmd_wait :: "'c \<Rightarrow> ('w, gerr, unit) io"
  new_asserter :: "string list \<Rightarrow> bool \<Rightarrow> network_identifier option list \<Rightarrow> string list \<Rightarrow> bool \<Rightarrow> unit outcome"
  spawn :: "('w, gerr, unit) io \<Rightarrow> 'w \<Rightarrow> 'w"
  listen :: "http_server \<Rightarrow> (request \<Rightarrow> ('w, rosetta_error, response) io) \<Rightarrow> ('w, gerr, unit) io"
  shutdown :: "('w, gerr, unit) io"
  handle_signals :: "'w \<Rightarrow> 'w"
  await_done :: "('w, gerr, unit) io"
  wait :: "('w, gerr, unit) io"
  signal_received :: "'w \<Rightarrow> bool"
  cobra_execute :: "string \<Rightarrow> 'w command list \<Rightarrow> string list \<Rightarrow> ('w, gerr, unit) io"
  print_red :: "gerr \<Rightarrow> 'w \<Rightarrow> 'w"

section \<open>Paths\<close>

text \<open>\<open>strings.Split\<close> at one character.\<close>

fun split_at :: "char \<Rightarrow> string \<Rightarrow> string list" where
  "split_at c [] = [[]]"
| "split_at c (x # xs) = (if x = c then [] # split_at c xs
     else case split_at c xs of [] \<Rightarrow> [[x]] | w # ws \<Rightarrow> (x # w) # ws)"

fun join_with :: "char \<Rightarrow> string list \<Rightarrow> string" where
  "join_with c [] = []"
| "join_with c [w] = w"
| "join_with c (w # v # ws) = w @ c # join_with c (v # ws)"

text \<open>\<open>path.Clean\<close>, over the segments between slashes; \<open>acc\<close> is the cleaned path so far, last segment first.\<close>

fun clean_segments :: "bool \<Rightarrow> string list \<Rightarrow> string list \<Rightarrow> string list" where
  "clean_segments rooted [] acc = rev acc"
| "clean_segments rooted (s # ss) acc =
     (if s = [] \<or> s = ''.'' then clean_segments rooted ss acc
      else if s = ''..'' then
        (case acc of [] \<Rightarrow> clean_segments rooted ss (if rooted then [] else [''..''])
         | a # as \<Rightarrow> clean_segments rooted ss (if a = ''..'' then ''..'' # acc else as))
      else clean_segments rooted ss (s # acc))"

definition path_clean :: "string \<Rightarrow> string" where
  "path_clean p =
     (let rooted = (take 1 p = ''/'');
          r = (if rooted then ''/'' else []) @ join_with (CHR ''/'') (clean_segments rooted (split_at (CHR ''/'') p) [])
      in if r = [] then ''.'' else r)"

text \<open>\<open>path.Join(a, b)\<close>.\<close>

definition path_join :: "string \<Rightarrow> string \<Rightarrow> string" where
  "path_join a b = (if a = [] \<and> b = [] then []
     else path_clean (if a = [] then b else if b = [] then a else a @ ''/'' @ b))"

section \<open>The client\<close>

definition Second :: int where "Second = 10 ^ 9"
definition gethHTTPTimeout :: int where "gethHTTPTimeout = 120 * Second"
definition graphQLIdleConnectionTimeout :: int where "graphQLIdleConnectionTimeout = 30 * Second"
definition graphQLMaxIdle :: int where "graphQLMaxIdle = 100"
definition graphQLHTTPTimeout :: int where "graphQLHTTPTimeout = 15 * Second"
definition graphQLPath :: string where "graphQLPath = ''graphql''"
definition tracerPath :: string where "tracerPath = ''ethereum/call_tracer.js''"
definition tracerTimeout :: string where "tracerTimeout = ''120s''"
definition maxTraceConcurrency :: int where "maxTraceConcurrency = 16"

record graphQL_client =
  gq_client :: http_client
  gq_url :: string

definition Query :: "('w, 'c, 'p, 'q, 'r) os \<Rightarrow> graphQL_client \<Rightarrow> string \<Rightarrow> ('w, gerr, json_text) io" where
  "Query S g input =
     io_bind (io_lift (http_new_request S (gq_url g) (JObj [(''query'', JStr input)]))) (\<lambda>request.
     io_bind (http_do S (gq_client g) request) (\<lambda>response.
     io_defer (http_close_body S response) (http_read_body S response)))"

definition newGraphQLClient :: "('w, 'c, 'p, 'q, 'r) os \<Rightarrow> string \<Rightarrow> graphQL_client outcome" where
  "newGraphQLClient S baseURL =
     andThen (parse_url S baseURL) (\<lambda>u.
       Ok \<lparr>gq_client = (http_default S)\<lparr>hc_timeout := graphQLHTTPTimeout,
             hc_idle_timeout := graphQLIdleConnectionTimeout, hc_max_idle := graphQLMaxIdle,
             hc_max_idle_per_host := graphQLMaxIdle\<rparr>,
           gq_url = url_string S (u\<lparr>url_path := path_join (url_path u) graphQLPath\<rparr>)\<rparr>)"

definition loadTraceConfig :: "('w, 'c, 'p, 'q, 'r) os \<Rightarrow> ('w, gerr, json) io" where
  "loadTraceConfig S =
     io_bind (io_mapErr (\<lambda>e. Wrapf e '': could not load tracer file'') (read_file S tracerPath))
      (\<lambda>loadedTracer. io_lift (Ok (trace_config_json S tracerTimeout loadedTracer)))"

text \<open>The functions of go-ethereum and of the SDK and the order of map entries are part of the client record.\<close>

definition NewClient ::
  "('w, 'c, 'p, 'q, 'r) os \<Rightarrow> geth \<Rightarrow> sdk \<Rightarrow> (string list \<Rightarrow> string list) \<Rightarrow> string \<Rightarrow> chain_config \<Rightarrow> bool
     \<Rightarrow> ('w, gerr, 'w client) io" where
  "NewClient S G K ord url params skipAdminCalls =
     io_bind (io_mapErr (\<lambda>e. Wrapf e '': unable to dial node'') (dial_http S url gethHTTPTimeout)) (\<lambda>c.
     io_bind (io_mapErr (\<lambda>e. Wrapf e '': unable to load trace config'') (loadTraceConfig S)) (\<lambda>tc.
     io_bind (io_lift (wrapWith '': unable to create GraphQL client'' (newGraphQLClient S url))) (\<lambda>g.
     io_lift (Ok \<lparr>cl_p = params, cl_tc = tc,
       cl_node = (new_semaphore S maxTraceConcurrency c)\<lparr>graphql_query := Query S g\<rparr>,
       cl_skip_admin = skipAdminCalls, cl_geth = G, cl_sdk = K, cl_order = ord\<rparr>))))"

definition Close :: "('w, 'c, 'p, 'q, 'r) os \<Rightarrow> 'w client \<Rightarrow> 'w \<Rightarrow> 'w" where
  "Close S ec = close_rpc S (cl_node ec)"

section \<open>The node process\<close>

definition io_do :: "('w \<Rightarrow> 'w) \<Rightarrow> ('w, 'e, unit) io" where
  "io_do f w = (Ok (), f w)"

definition StartGeth :: "('w, 'c, 'p, 'q, 'r) os \<Rightarrow> string \<Rightarrow> ('w, gerr, unit) io" where
  "StartGeth S arguments =
     (let cmd = exec_command S ''/app/geth'' (split_at (CHR '' '') arguments)
      in io_bind (stdout_pipe S cmd) (\<lambda>stdout.
         io_bind (stderr_pipe S cmd) (\<lambda>stderr.
         io_bind (io_do (spawn S (log_pipe S stdout ''geth''))) (\<lambda>_.
         io_bind (io_do (spawn S (log_pipe S stderr ''geth err''))) (\<lambda>_.
         io_bind (io_mapErr (\<lambda>e. Wrapf e '': unable to start geth'') (cmd_start S cmd)) (\<lambda>_.
         io_bind (io_do (spawn S (io_bind (await_done S) (\<lambda>_. interrupt S cmd)))) (\<lambda>_.
         cmd_wait S cmd)))))))"

section \<open>The command\<close>

definition readTimeout :: int where "readTimeout = 5 * Second"
definition writeTimeout :: int where "writeTimeout = 120 * Second"
definition idleTimeout :: int where "idleTimeout = 30 * Second"

definition http_server_of :: "configuration \<Rightarrow> http_server" where
  "http_server_of cfg = \<lparr>sv_addr = CHR '':'' # int_string (cfg_port cfg), sv_read_timeout = readTimeout,
     sv_write_timeout = writeTimeout, sv_idle_timeout = idleTimeout\<rparr>"

text \<open>The rest of \<open>runRunCmd\<close> once the client is there: the server is started and the group awaited.\<close>

definition serve_until_done ::
  "('w, 'c, 'p, 'q, 'r) os \<Rightarrow> configuration \<Rightarrow> (request \<Rightarrow> ('w, rosetta_error, response) io) \<Rightarrow> ('w, gerr, unit) io" where
  "serve_until_done S cfg router =
     io_bind (io_do (spawn S (listen S (http_server_of cfg) router))) (\<lambda>_.
     io_bind (io_do (spawn S (io_bind (await_done S) (\<lambda>_. shutdown S)))) (\<lambda>_ w.
       case wait S w of (r, w') \<Rightarrow>
         if signal_received S w' then (Err (ErrorNew ''rosetta-ethereum halted''), w') else (r, w')))"

text \<open>\<open>nilC\<close> is what the methods of the nil \<open>*Client\<close> do that an offline server passes to its router.\<close>

definition runRunCmd ::
  "('w, 'c, 'p, 'q, 'r) os \<Rightarrow> geth \<Rightarrow> sdk \<Rightarrow> (string list \<Rightarrow> string list) \<Rightarrow> chain_params \<Rightarrow> 'k tx_lib \<Rightarrow> string
     \<Rightarrow> 'w iface \<Rightarrow> (string \<Rightarrow> string) \<Rightarrow> ('w, gerr, unit) io" where
  "runRunCmd S G K ord P L v nilC env =
     io_bind (io_lift (wrapWith '': unable to load configuration'' (LoadConfiguration G P env))) (\<lambda>cfg.
     io_bind (io_lift (wrapWith '': could not initialize server asserter''
        (new_asserter S OperationTypes HistoricalBalanceSupported [cfg_network cfg] CallMethods IncludeMempoolCoins))) (\<lambda>_.
     io_bind (io_do (handle_signals S)) (\<lambda>_.
     if cfg_mode cfg = Online then
       io_bind (io_do (if \<not> cfg_remote_geth cfg then spawn S (StartGeth S (cfg_geth_arguments cfg)) else (\<lambda>w. w))) (\<lambda>_.
       io_bind (io_mapErr (\<lambda>e. Wrapf e '': cannot initialize ethereum client'')
          (io_bind (io_lift (deref (cfg_params cfg))) (\<lambda>params.
             NewClient S G K ord (cfg_geth_url cfg) params (cfg_skip_admin cfg)))) (\<lambda>client.
       io_defer (Close S client)
         (serve_until_done S cfg (serve G L v cfg (ethereum_client client)))))
     else serve_until_done S cfg (serve G L v cfg nilC))))"

text \<open>The command \<open>utils:generate-bootstrap\<close>; cobra checks that there are two arguments.\<close>

definition runUtilsBootstrapCmd ::
  "geth \<Rightarrow> (string list \<Rightarrow> string list) \<Rightarrow> (string \<Rightarrow> ('w, gerr, (string \<times> string) list) io)
     \<Rightarrow> (string \<Rightarrow> bootstrap_balance list \<Rightarrow> ('w, gerr, unit) io) \<Rightarrow> string list \<Rightarrow> ('w, gerr, unit) io" where
  "runUtilsBootstrapCmd G ord LoadAndParse SerializeAndWrite args =
     io_bind (io_lift (index args 0)) (\<lambda>genesisFile.
     io_bind (io_lift (index args 1)) (\<lambda>outputFile.
     GenerateBootstrapFile G ord LoadAndParse SerializeAndWrite genesisFile outputFile))"

text \<open>The commands, as cobra gets them from \<open>init\<close>, and the program; the exit code of a panic is 2.\<close>

definition runCmd ::
  "('w, 'c, 'p, 'q, 'r) os \<Rightarrow> geth \<Rightarrow> sdk \<Rightarrow> (string list \<Rightarrow> string list) \<Rightarrow> chain_params \<Rightarrow> 'k tx_lib \<Rightarrow> string
     \<Rightarrow> 'w iface \<Rightarrow> (string \<Rightarrow> string) \<Rightarrow> 'w command" where
  "runCmd S G K ord P L v nilC env = \<lparr>cmd_use = ''run'', cmd_short = ''Run rosetta-ethereum'',
     cmd_args = None, cmd_run = (\<lambda>args. runRunCmd S G K ord P L v nilC env)\<rparr>"

definition utilsBootstrapCmd ::
  "geth \<Rightarrow> (string list \<Rightarrow> string list) \<Rightarrow> (string \<Rightarrow> ('w, gerr, (string \<times> string) list) io)
     \<Rightarrow> (string \<Rightarrow> bootstrap_balance list \<Rightarrow> ('w, gerr, unit) io) \<Rightarrow> 'w command" where
  "utilsBootstrapCmd G ord LoadAndParse SerializeAndWrite =
     \<lparr>cmd_use = ''utils:generate-bootstrap'', cmd_short = ''Generate a bootstrap balance configuration file'',
      cmd_args = Some 2, cmd_run = runUtilsBootstrapCmd G ord LoadAndParse SerializeAndWrite\<rparr>"

text \<open>The root command has no function of its own; \<open>init\<close> gives it its two subcommands.\<close>

definition rootCmd :: "'w root_command" where
  "rootCmd = \<lparr>root_use = ''rosetta-ethereum'', root_short = ''Ethereum implementation of the Rosetta API'', root_commands = []\<rparr>"

definition AddCommand :: "'w command \<Rightarrow> 'w root_command \<Rightarrow> 'w root_command" where
  "AddCommand c root = root\<lparr>root_commands := root_commands root @ [c]\<rparr>"

definition init_root :: "'w command \<Rightarrow> 'w command \<Rightarrow> 'w root_command" where
  "init_root r b = AddCommand b (AddCommand r rootCmd)"

definition Execute :: "('w, 'c, 'p, 'q, 'r) os \<Rightarrow> 'w root_command \<Rightarrow> string list \<Rightarrow> ('w, gerr, unit) io" where
  "Execute S root args = cobra_execute S (root_use root) (root_commands root) args"

definition main :: "('w, 'c, 'p, 'q, 'r) os \<Rightarrow> 'w root_command \<Rightarrow> string list \<Rightarrow> 'w \<Rightarrow> int \<times> 'w" where
  "main S root args w = (case Execute S root args w of
      (Ok _, w') \<Rightarrow> (0, w')
    | (Err e, w') \<Rightarrow> (1, print_red S e w')
    | (Crash (LogFatal m), w') \<Rightarrow> (1, w')
    | (Crash c, w') \<Rightarrow> (2, w'))"

section \<open>Paths end in the last element joined\<close>

lemma split_at_append: "split_at c (a @ c # b) = split_at c a @ split_at c b"
proof (induction a)
  case (Cons x a)
  have "split_at c a \<noteq> []" by (induction a) (auto split: list.split)
  with Cons show ?case by (auto split: list.split)
qed simp

lemma clean_segments_append:
  "clean_segments rooted (ss @ ts) acc = clean_segments rooted ts (rev (clean_segments rooted ss acc))"
  by (induction rooted ss acc rule: clean_segments.induct) (auto split: list.splits)

lemma join_with_snoc: "join_with c (ws @ [w]) = (if ws = [] then w else join_with c ws @ c # w)"
proof (induction ws)
  case (Cons v ws)
  then show ?case by (cases ws) auto
qed simp

lemma split_graphql: "split_at (CHR ''/'') ''graphql'' = [''graphql'']"
  by code_simp

lemma path_join_graphql:
  obtains pre where "path_join p ''graphql'' = pre @ ''graphql''" and "pre = [] \<or> last pre = CHR ''/''"
    and "take 1 p = ''/'' \<longrightarrow> take 1 pre = ''/''"
proof (cases "p = []")
  case True
  have "path_join [] ''graphql'' = [] @ ''graphql''" by code_simp
  with True show ?thesis by (intro that [of "[]"]) simp_all
next
  case False
  let ?rooted = "take 1 p = ''/''"
  let ?ws = "clean_segments ?rooted (split_at (CHR ''/'') p) []"
  have r: "(take 1 (p @ ''/'' @ ''graphql'') = ''/'') = ?rooted" using False by (cases p) auto
  have "split_at (CHR ''/'') (p @ ''/'' @ ''graphql'') = split_at (CHR ''/'') p @ [''graphql'']"
    using split_at_append [of "CHR ''/''" p "''graphql''"] split_graphql by simp
  then have j: "join_with (CHR ''/'') (clean_segments ?rooted (split_at (CHR ''/'') (p @ ''/'' @ ''graphql'')) [])
      = (if ?ws = [] then [] else join_with (CHR ''/'') ?ws @ ''/'') @ ''graphql''"
    by (simp add: clean_segments_append join_with_snoc)
  have "path_join p ''graphql'' = path_clean (p @ ''/'' @ ''graphql'')"
    using False by (simp add: path_join_def)
  also have "\<dots> = ((if ?rooted then ''/'' else []) @ (if ?ws = [] then [] else join_with (CHR ''/'') ?ws @ ''/'')) @ ''graphql''"
    unfolding path_clean_def Let_def r j by simp
  finally show ?thesis by (rule that) auto
qed

section \<open>Properties\<close>

text \<open>
  Starting offline: with \<open>MODE=OFFLINE\<close> the command neither dials the node nor reads the tracer
  nor starts geth. It behaves alike on any two systems that agree on the request checker, the
  listening server and the end of the group, whatever else they do.
\<close>

theorem start_offline:
  assumes "env ModeEnv = Offline" and "new_asserter S = new_asserter S'" and "spawn S = spawn S'"
    and "listen S = listen S'" and "wait S = wait S'" and "await_done S = await_done S'"
    and "shutdown S = shutdown S'" and "handle_signals S = handle_signals S'" and "signal_received S = signal_received S'"
  shows "runRunCmd S G K ord P L v nilC env = runRunCmd S' G K' ord' P L v nilC' env"
proof (cases "LoadConfiguration G P env")
  case (Ok cfg)
  then have "cfg_mode cfg = Offline" using LoadConfiguration_fields assms(1) by metis
  then have off: "cfg_mode cfg \<noteq> Online" by (simp add: config_consts)
  then have "serve G L v cfg nilC = serve G L v cfg nilC'"
    using serve_offline(1) by blast
  then have "serve_until_done S cfg (serve G L v cfg nilC) = serve_until_done S' cfg (serve G L v cfg nilC')"
    using assms(3-) by (simp add: serve_until_done_def)
  with Ok off assms(2,8) show ?thesis by (simp add: runRunCmd_def)
qed (simp_all add: runRunCmd_def)

text \<open>
  Starting with a remote node, or with an environment that is not valid: if \<open>GETH\<close> is set no
  process is started, so nothing depends on commands; if the environment is refused, the command
  returns that error and leaves the world as it was.
\<close>

theorem start_remote:
  "(env GethEnv \<noteq> [] \<longrightarrow> runRunCmd S G K ord P L v nilC env
      = runRunCmd (S\<lparr>exec_command := ex, stdout_pipe := so, stderr_pipe := se, cmd_start := st, interrupt := ir, cmd_wait := wt\<rparr>)
          G K ord P L v nilC env)
   \<and> (\<not> valid_env env \<longrightarrow> (\<exists>e. runRunCmd S G K ord P L v nilC env w
      = (Err (Wrapf e '': unable to load configuration''), w)))"
proof -
  let ?S = "S\<lparr>exec_command := ex, stdout_pipe := so, stderr_pipe := se, cmd_start := st, interrupt := ir, cmd_wait := wt\<rparr>"
  have c: "NewClient ?S G K ord = NewClient S G K ord"
    by (intro ext) (simp add: NewClient_def loadTraceConfig_def newGraphQLClient_def Query_def [abs_def])
  have u: "serve_until_done ?S = serve_until_done S"
    by (intro ext) (simp add: serve_until_done_def)
  have cl: "Close ?S = Close S" by (intro ext) (simp add: Close_def)
  have "runRunCmd S G K ord P L v nilC env = runRunCmd ?S G K ord P L v nilC env" if "env GethEnv \<noteq> []"
  proof (cases "LoadConfiguration G P env")
    case (Ok cfg)
    with LoadConfiguration_fields that have "cfg_remote_geth cfg" by blast
    with Ok show ?thesis unfolding runRunCmd_def c u cl by simp
  qed (simp_all add: runRunCmd_def)
  moreover have "\<exists>e. runRunCmd S G K ord P L v nilC env w = (Err (Wrapf e '': unable to load configuration''), w)"
    if "\<not> valid_env env"
    using LoadConfiguration_reads [of env G P] that by (auto simp: runRunCmd_def io_lift_def)
  ultimately show ?thesis by blast
qed

text \<open>
  GraphQL queries do not leak: if a request that is answered opens one response body and closing
  takes it back, then every query leaves as many bodies open as it found, whether it succeeds,
  fails or panics while reading.
\<close>

theorem Query_closes_body:
  fixes S :: "('w, 'c, 'p, 'q, 'r) os"
  assumes "\<And>q w. case http_do S (gq_client g) q w of (Ok _, w') \<Rightarrow> open w' = open w + (1::int) | (_, w') \<Rightarrow> open w' = open w"
    and "\<And>r w. open (http_close_body S r w) = open w - 1" and "\<And>r. preserves open (http_read_body S r)"
  shows "preserves open (Query S g input)"
proof -
  have "open (snd (io_bind (http_do S (gq_client g) q) (\<lambda>r. io_defer (http_close_body S r) (http_read_body S r)) w)) = open w" for q :: 'q and w
  proof -
    obtain res w1 where a: "http_do S (gq_client g) q w = (res, w1)" by fastforce
    with assms(1) [where q = q and w = w] assms(2,3) show ?thesis
      by (cases res) (simp_all add: io_bind_def io_defer_def preserves_def case_prod_beta)
  qed
  then have "preserves open (io_bind (http_do S (gq_client g) q) (\<lambda>r. io_defer (http_close_body S r) (http_read_body S r)))" for q :: 'q
    unfolding preserves_def by blast
  then show ?thesis unfolding Query_def by (rule preserves_bind [OF preserves_lift])
qed

text \<open>
  The GraphQL endpoint: it is the URL of the node with \<open>graphql\<close> as the last element of its path,
  and the path stays absolute if it was.
\<close>

theorem graphql_endpoint:
  assumes "newGraphQLClient S base = Ok target"
  shows "\<exists>u pre. parse_url S base = Ok u \<and> gq_url target = url_string S (u\<lparr>url_path := pre @ ''graphql''\<rparr>)
    \<and> (pre = [] \<or> last pre = CHR ''/'') \<and> (take 1 (url_path u) = ''/'' \<longrightarrow> take 1 pre = ''/'')"
proof -
  from assms obtain u where u: "parse_url S base = Ok u"
    "gq_url target = url_string S (u\<lparr>url_path := path_join (url_path u) ''graphql''\<rparr>)"
    by (auto simp: newGraphQLClient_def graphQLPath_def)
  obtain pre where "path_join (url_path u) ''graphql'' = pre @ ''graphql''" "pre = [] \<or> last pre = CHR ''/''"
    "take 1 (url_path u) = ''/'' \<longrightarrow> take 1 pre = ''/''"
    by (rule path_join_graphql [of "url_path u"])
  with u show ?thesis by (intro exI [of _ u] exI [of _ pre]) auto
qed

text \<open>
  The documented behaviour of cobra: the first argument selects a command by its name, its arguments
  are counted before it runs, and anything else is an error that runs nothing.
\<close>

definition cobra_law :: "('w, 'c, 'p, 'q, 'r) os \<Rightarrow> bool" where
  "cobra_law S \<longleftrightarrow>
     (\<forall>name cmds c args. c \<in> set cmds \<and> distinct (map cmd_use cmds) \<and> (cmd_args c = None \<or> cmd_args c = Some (length args))
        \<longrightarrow> cobra_execute S name cmds (cmd_use c # args) = cmd_run c args)
     \<and> (\<forall>name cmds c args w. c \<in> set cmds \<and> distinct (map cmd_use cmds) \<and> cmd_args c \<notin> {None, Some (length args)}
        \<longrightarrow> (\<exists>e. cobra_execute S name cmds (cmd_use c # args) w = (Err e, w)))"

definition exit_code :: "('w, 'c, 'p, 'q, 'r) os \<Rightarrow> (gerr, unit) result \<times> 'w \<Rightarrow> int \<times> 'w" where
  "exit_code S x = (case x of (Ok _, w') \<Rightarrow> (0, w') | (Err e, w') \<Rightarrow> (1, print_red S e w')
     | (Crash (LogFatal m), w') \<Rightarrow> (1, w') | (Crash c, w') \<Rightarrow> (2, w'))"

lemma main_exit_code: "main S root args w = exit_code S (Execute S root args w)"
  by (simp add: main_def exit_code_def)

lemma exit_code_simps [simp]:
  "exit_code S (Ok u, w) = (0, w)" "exit_code S (Err e, w) = (1, print_red S e w)"
  by (simp_all add: exit_code_def)

lemma root_commands_init [simp]:
  "root_use (init_root r b) = ''rosetta-ethereum''" "root_commands (init_root r b) = [r, b]"
  by (simp_all add: init_root_def AddCommand_def rootCmd_def)

lemma cobra_runs:
  assumes "cobra_law S" and "c \<in> set (root_commands root)" and "distinct (map cmd_use (root_commands root))"
  shows "cmd_args c = None \<or> cmd_args c = Some (length args) \<Longrightarrow> Execute S root (cmd_use c # args) = cmd_run c args"
    and "cmd_args c \<notin> {None, Some (length args)} \<Longrightarrow> \<exists>e. Execute S root (cmd_use c # args) w = (Err e, w)"
  using assms unfolding cobra_law_def Execute_def by blast+

text \<open>
  The program: \<open>run\<close> starts the server whatever other arguments there are. The bootstrap command reads its two
  arguments without a check of its own, and may: with any other number of them cobra refuses to run it and the
  program exits with 1, with two it generates the file and exits with 0 exactly on success.
\<close>

theorem program_commands:
  assumes "cobra_law S" and "root = init_root (runCmd S G K ord P L v nilC env) (utilsBootstrapCmd G ord R W)"
  shows "main S root (''run'' # args) w = exit_code S (runRunCmd S G K ord P L v nilC env w)
    \<and> main S root [''utils:generate-bootstrap'', genesisFile, outputFile] w =
        exit_code S (GenerateBootstrapFile G ord R W genesisFile outputFile w)
    \<and> (length args \<noteq> 2 \<longrightarrow> (\<exists>e. main S root (''utils:generate-bootstrap'' # args) w = (1, print_red S e w)))"
proof -
  let ?r = "runCmd S G K ord P L v nilC env" and ?b = "utilsBootstrapCmd G ord R W"
  have mem: "?r \<in> set (root_commands root)" "?b \<in> set (root_commands root)"
    "distinct (map cmd_use (root_commands root))"
    by (simp_all add: assms(2) runCmd_def utilsBootstrapCmd_def)
  note runs = cobra_runs [OF assms(1) mem(1,3)] and boot = cobra_runs [OF assms(1) mem(2,3)]
  have "Execute S root (''run'' # args) = runRunCmd S G K ord P L v nilC env"
    using runs(1) [of args] by (simp add: runCmd_def)
  moreover have "Execute S root [''utils:generate-bootstrap'', genesisFile, outputFile]
      = GenerateBootstrapFile G ord R W genesisFile outputFile"
    using boot(1) [of "[genesisFile, outputFile]"]
    by (intro ext) (simp add: utilsBootstrapCmd_def runUtilsBootstrapCmd_def io_bind_def io_lift_def)
  moreover have "\<exists>e. Execute S root (''utils:generate-bootstrap'' # args) w = (Err e, w)" if "length args \<noteq> 2"
    using boot(2) [of args w] that by (simp add: utilsBootstrapCmd_def)
  ultimately show ?thesis
    unfolding main_exit_code by (metis (no_types, lifting) exit_code_simps(2))
qed

section \<open>Concrete instances of the properties\<close>

text \<open>A system whose world counts open response bodies; dialling or starting a process would be seen in it.\<close>

definition demo_os :: "(int, string list, string, json, string) os" where
  "demo_os = \<lparr>parse_url = (\<lambda>s. Ok \<lparr>url_rest = ''http://node'', url_path = s\<rparr>),
     url_string = (\<lambda>u. url_rest u @ url_path u), http_new_request = (\<lambda>u j. Ok j),
     http_default = \<lparr>hc_timeout = 0, hc_idle_timeout = 90 * Second, hc_max_idle = 100, hc_max_idle_per_host = 0\<rparr>,
     http_do = (\<lambda>c q w. (Ok ''body'', w + 1)), http_read_body = (\<lambda>r w. (Err (External ''timeout''), w)),
     http_close_body = (\<lambda>r w. w - 1), read_file = (\<lambda>f w. (Ok f, w + 100)), trace_config_json = (\<lambda>a b. JStr b),
     dial_http = (\<lambda>u n w. (Ok mock_node, w + 1000)), close_rpc = (\<lambda>c w. w), new_semaphore = (\<lambda>n c. c),
     exec_command = (\<lambda>c as. c # as), stdout_pipe = (\<lambda>c w. (Ok ''out'', w)), stderr_pipe = (\<lambda>c w. (Ok ''err'', w)),
     log_pipe = (\<lambda>p s w. (Ok (), w)), interrupt = (\<lambda>c w. (Ok (), w)),
     cmd_start = (\<lambda>c w. (Ok (), w + 10000)), cmd_wait = (\<lambda>c w. (Ok (), w)),
     new_asserter = (\<lambda>_ _ _ _ _. Ok ()), spawn = (\<lambda>m w. snd (m w)), listen = (\<lambda>a h w. (Ok (), w)), shutdown = (\<lambda>w. (Ok (), w)),
     handle_signals = (\<lambda>w. w), await_done = (\<lambda>w. (Ok (), w)),
     wait = (\<lambda>w. (Ok (), w)), signal_received = (\<lambda>w. False),
     cobra_execute = (\<lambda>name cmds args. case filter (\<lambda>c. [cmd_use c] = take 1 args) cmds of
        c # _ \<Rightarrow> (case cmd_args c of
            None \<Rightarrow> cmd_run c (tl args)
          | Some n \<Rightarrow> if length (tl args) = n then cmd_run c (tl args)
              else io_lift (Err (External ''accepts 2 arg(s)'')))
      | [] \<Rightarrow> io_lift (Err (External ''unknown command''))),
     print_red = (\<lambda>e w. w)\<rparr>"

definition dead_os :: "(int, string list, string, json, string) os" where
  "dead_os = demo_os\<lparr>dial_http := (\<lambda>u n w. (Crash NilDeref, w)), read_file := (\<lambda>f w. (Crash NilDeref, w)),
     cmd_start := (\<lambda>c w. (Crash NilDeref, w))\<rparr>"

definition offline_env :: "string \<Rightarrow> string" where
  "offline_env = env_example(ModeEnv := ''OFFLINE'')"

lemma offline_env_mode: "offline_env ModeEnv = Offline"
  by (simp add: offline_env_def config_consts)

theorem start_offline_witness:
  "runRunCmd dead_os standin standin_sdk rev params_example demo_lib [] failing_client offline_env 5
     = runRunCmd demo_os standin standin_sdk rev params_example demo_lib [] demo_client offline_env 5"
proof -
  have "runRunCmd dead_os standin standin_sdk rev params_example demo_lib [] failing_client offline_env
     = runRunCmd demo_os standin standin_sdk rev params_example demo_lib [] demo_client offline_env"
    by (rule start_offline, rule offline_env_mode) (simp_all add: dead_os_def)
  then show ?thesis by simp
qed

theorem start_remote_witness:
  "runRunCmd demo_os standin standin_sdk rev params_example demo_lib [] failing_client (\<lambda>_. []) 5
     = (Err (Wrapf (ErrorNew ''MODE must be populated'') '': unable to load configuration''), 5)
   \<and> (\<exists>e. runRunCmd demo_os standin standin_sdk rev params_example demo_lib [] failing_client (env_example(PortEnv := ''-1'')) 5
     = (Err (Wrapf e '': unable to load configuration''), 5))"
proof -
  have "\<not> valid_env (env_example(PortEnv := ''-1''))" by code_simp
  with start_remote [where env = "env_example(PortEnv := ''-1'')" and w = 5]
  have "\<exists>e. runRunCmd demo_os standin standin_sdk rev params_example demo_lib [] failing_client (env_example(PortEnv := ''-1'')) 5
     = (Err (Wrapf e '': unable to load configuration''), 5)" by blast
  then show ?thesis
    by (simp add: runRunCmd_def LoadConfiguration_def load_mode_def config_consts io_lift_def)
qed

definition demo_graphql :: graphQL_client where
  "demo_graphql = \<lparr>gq_client = http_default demo_os, gq_url = ''/graphql''\<rparr>"

theorem Query_closes_body_witness:
  "Query demo_os demo_graphql ''{}'' 7 = (Err (External ''timeout''), 7)"
proof -
  have "preserves (\<lambda>w. w) (Query demo_os demo_graphql ''{}'')"
    by (rule Query_closes_body) (simp_all add: demo_os_def preserves_def)
  then have "snd (Query demo_os demo_graphql ''{}'' 7) = 7" by (simp add: preserves_def)
  moreover have "fst (Query demo_os demo_graphql ''{}'' 7) = Err (External ''timeout'')"
    by (simp add: Query_def demo_os_def demo_graphql_def io_bind_def io_lift_def io_defer_def)
  ultimately show ?thesis by (simp add: prod_eq_iff)
qed

theorem graphql_endpoint_witness:
  "\<exists>g pre. newGraphQLClient demo_os ''/v3/../rpc//'' = Ok g \<and> gq_url g = ''http://node/rpc/graphql''
     \<and> gq_url g = ''http://node'' @ pre @ ''graphql'' \<and> take 1 pre = ''/''"
proof -
  have "ok_with (\<lambda>g. gq_url g = ''http://node/rpc/graphql'') (newGraphQLClient demo_os ''/v3/../rpc//'')" by code_simp
  then obtain g where g: "newGraphQLClient demo_os ''/v3/../rpc//'' = Ok g" "gq_url g = ''http://node/rpc/graphql''"
    by (auto simp: ok_with_iff)
  from graphql_endpoint [OF g(1)] g show ?thesis by (auto simp: demo_os_def)
qed

lemma filter_use:
  "c \<in> set cmds \<Longrightarrow> distinct (map cmd_use cmds) \<Longrightarrow> filter (\<lambda>d. cmd_use d = cmd_use c) cmds = [c]"
proof (induction cmds)
  case (Cons d cmds)
  show ?case
  proof (cases "d = c")
    case True
    have "filter (\<lambda>e. cmd_use e = cmd_use c) cmds = []"
      using Cons.prems(2) True by (force simp: filter_empty_conv image_iff)
    with True show ?thesis by simp
  next
    case False
    then have "c \<in> set cmds" and "cmd_use d \<noteq> cmd_use c" using Cons.prems by (auto simp: image_iff)
    with Cons show ?thesis by simp
  qed
qed simp

lemma demo_cobra_law: "cobra_law demo_os"
  by (auto simp: cobra_law_def demo_os_def filter_use io_lift_def)

theorem program_commands_witness:
  "\<exists>e. main demo_os (init_root (runCmd demo_os standin standin_sdk rev params_example demo_lib [] demo_client env_example)
       (utilsBootstrapCmd standin rev (\<lambda>f w. (Ok [], w)) (\<lambda>f bs w. (Ok (), w + 1))))
     [''utils:generate-bootstrap'', ''genesis.json''] 5 = (1, print_red demo_os e 5)"
proof -
  have "length [''genesis.json''] \<noteq> 2" by simp
  with program_commands [OF demo_cobra_law refl, where args = "[''genesis.json'']"] show ?thesis by blast
qed

end
