(* ===== verification/Lifecycle.thy ===== *)
theory Lifecycle
  imports Startup
begin

text \<open>
  The running command as interleaved goroutines: \<open>main.go\<close>, the signal handler of \<open>cmd/root.go\<close>, the
  group of \<open>cmd/run.go\<close> (server, shutdown) and the goroutines of \<open>ethereum/geth.go\<close> (the node process,
  its two log readers, its interrupter). \<open>Startup\<close> models the same functions one call after the
  other with the scheduler as a parameter; here each goroutine has its program point, one rule per
  statement that can block or be seen by another, and a step of the command is a step of one of them. The error group of
  \<open>golang.org/x/sync\<close> is a parameter with its documented law; what the operating system and the
  node may do on their own is the relation \<open>env_step\<close>.
\<close>

section \<open>\<open>logPipe\<close>\<close>

text \<open>
  What \<open>log.Println\<close> is called with. \<open>read\<close> is \<open>reader.ReadString('\n')\<close>: the text read, the error
  if there was one, and the reader afterwards.
\<close>

datatype log_entry = LogLine string string | LogClosing string gerr

partial_function (option) logPipe ::
  "('p \<Rightarrow> string \<times> gerr option \<times> 'p) \<Rightarrow> string \<Rightarrow> log_entry list \<Rightarrow> 'p \<Rightarrow> (log_entry list \<times> gerr) option" where
  "logPipe read identifier log reader =
     (case read reader of (str, err, reader') \<Rightarrow>
        (case err of
           Some e \<Rightarrow> Some (log @ [LogClosing identifier e], e)
         | None \<Rightarrow> logPipe read identifier
             (log @ [LogLine identifier (filter (\<lambda>c. c \<noteq> CHR 0x0A) str)]) reader'))"

text \<open>
  A pipe that ends: the text still to come and the error after it. \<open>ReadString\<close> returns the text up
  to and including the next newline, or what is left together with the error.
\<close>

type_synonym pipe = "string \<times> gerr"

definition ReadString :: "pipe \<Rightarrow> string \<times> gerr option \<times> pipe" where
  "ReadString p =
     (case dropWhile (\<lambda>c. c \<noteq> CHR 0x0A) (fst p) of
        [] \<Rightarrow> (fst p, Some (snd p), ([], snd p))
      | nl # rest \<Rightarrow> (takeWhile (\<lambda>c. c \<noteq> CHR 0x0A) (fst p) @ [nl], None, (rest, snd p)))"

text \<open>The reader after \<open>n\<close> reads.\<close>

fun after_reads :: "('p \<Rightarrow> string \<times> gerr option \<times> 'p) \<Rightarrow> nat \<Rightarrow> 'p \<Rightarrow> 'p" where
  "after_reads read 0 p = p"
| "after_reads read (Suc n) p = after_reads read n (snd (snd (read p)))"

definition read_fails :: "('p \<Rightarrow> string \<times> gerr option \<times> 'p) \<Rightarrow> 'p \<Rightarrow> bool" where
  "read_fails read p \<longleftrightarrow> fst (snd (read p)) \<noteq> None"

lemma logPipe_step:
  "read p = (str, Some e, p') \<Longrightarrow> logPipe read i log p = Some (log @ [LogClosing i e], e)"
  "read p = (str, None, p') \<Longrightarrow>
     logPipe read i log p = logPipe read i (log @ [LogLine i (filter (\<lambda>c. c \<noteq> CHR 0x0A) str)]) p'"
  by (subst logPipe.simps, simp)+

lemma logPipe_returns_if:
  "read_fails read (after_reads read n p) \<Longrightarrow> \<exists>r. logPipe read i log p = Some r"
proof (induction n arbitrary: p log)
  case 0
  then show ?case by (cases "read p") (auto simp: read_fails_def logPipe_step)
next
  case (Suc n)
  obtain str err p' where r: "read p = (str, err, p')" by (cases "read p")
  show ?case
  proof (cases err)
    case None
    with r Suc show ?thesis by (simp add: logPipe_step)
  qed (simp add: r logPipe_step)
qed

lemma logPipe_returns_only:
  assumes "logPipe read i log p = Some r"
  shows "\<exists>n. read_fails read (after_reads read n p)"
proof (rule logPipe.raw_induct [where P = "\<lambda>read i log p r. \<exists>n. read_fails read (after_reads read n p)", OF _ assms])
  fix f and read :: "'a \<Rightarrow> string \<times> gerr option \<times> 'a" and i log p r
  assume IH: "\<And>read i log p r. f read i log p = Some r \<Longrightarrow> \<exists>n. read_fails read (after_reads read n p)"
    and eq: "(case read p of (str, err, reader') \<Rightarrow> (case err of
           Some e \<Rightarrow> Some (log @ [LogClosing i e], e)
         | None \<Rightarrow> f read i (log @ [LogLine i (filter (\<lambda>c. c \<noteq> CHR 0x0A) str)]) reader')) = Some r"
  obtain str err p' where r: "read p = (str, err, p')" by (cases "read p")
  show "\<exists>n. read_fails read (after_reads read n p)"
  proof (cases err)
    case None
    with eq r have "f read i (log @ [LogLine i (filter (\<lambda>c. c \<noteq> CHR 0x0A) str)]) p' = Some r" by simp
    from IH [OF this] obtain n where "read_fails read (after_reads read n p')" ..
    with r show ?thesis by (intro exI [of _ "Suc n"]) simp
  next
    case (Some e)
    with r show ?thesis by (intro exI [of _ 0]) (simp add: read_fails_def)
  qed
qed

lemma split_at_decompose:
  "split_at c s = (case dropWhile (\<lambda>x. x \<noteq> c) s of
      [] \<Rightarrow> [s] | d # rest \<Rightarrow> takeWhile (\<lambda>x. x \<noteq> c) s # split_at c rest)"
proof (induction s)
  case (Cons x s)
  then show ?case by (cases "dropWhile (\<lambda>x. x \<noteq> c) s") (simp_all del: dropWhile_eq_Nil_conv)
qed simp

lemma split_at_not_Nil: "split_at c s \<noteq> []"
  by (subst split_at_decompose) (simp split: list.split)

lemma logPipe_pipe:
  "logPipe ReadString i log (content, e) =
     Some (log @ map (LogLine i) (butlast (split_at (CHR 0x0A) content)) @ [LogClosing i e], e)"
proof (induction content arbitrary: log rule: length_induct)
  case (1 content)
  show ?case
  proof (cases "dropWhile (\<lambda>c. c \<noteq> CHR 0x0A) content")
    case Nil
    then have "ReadString (content, e) = (content, Some e, ([], e))"
      and "split_at (CHR 0x0A) content = [content]"
      by (simp_all add: ReadString_def split_at_decompose [of _ content] del: dropWhile_eq_Nil_conv)
    then show ?thesis by (simp add: logPipe_step)
  next
    case (Cons nl rest)
    let ?l = "takeWhile (\<lambda>c. c \<noteq> CHR 0x0A) content"
    have nl: "nl = CHR 0x0A" using Cons hd_dropWhile [of "\<lambda>c. c \<noteq> CHR 0x0A" content] by simp
    have r: "ReadString (content, e) = (?l @ [nl], None, (rest, e))" using Cons by (simp add: ReadString_def)
    have f: "filter (\<lambda>c. c \<noteq> CHR 0x0A) (?l @ [nl]) = ?l"
      using nl by (auto simp: filter_id_conv dest: set_takeWhileD)
    have "length rest < length content"
      using arg_cong [OF Cons, of length] length_dropWhile_le [of "\<lambda>c. c \<noteq> CHR 0x0A" content] by simp
    from 1 this show ?thesis
      using Cons split_at_not_Nil [of "CHR 0x0A" rest]
      by (simp add: logPipe_step(2) [where read = ReadString, OF r] f split_at_decompose [of _ content]
          del: filter_append)
  qed
qed


section \<open>State of the command\<close>

text \<open>
  A group of \<open>golang.org/x/sync/errgroup\<close>: \<open>Go\<close>, the return of a function of the group, \<open>Wait\<close> (\<open>None\<close>
  while it blocks) and whether the group itself has cancelled its context. As documented, \<open>Wait\<close> returns the first
  error once every function has returned, and the first error cancels the context.
\<close>

record 'g errgroup =
  eg_new :: 'g
  eg_go :: "'g \<Rightarrow> 'g"
  eg_return :: "gerr option \<Rightarrow> 'g \<Rightarrow> 'g"
  eg_wait :: "'g \<Rightarrow> gerr option option"
  eg_cancelled :: "'g \<Rightarrow> bool"

definition errgroup_law :: "'g errgroup \<Rightarrow> ('g \<Rightarrow> nat) \<Rightarrow> ('g \<Rightarrow> gerr option) \<Rightarrow> bool" where
  "errgroup_law E pending first \<longleftrightarrow>
     pending (eg_new E) = 0 \<and> first (eg_new E) = None
     \<and> (\<forall>g. pending (eg_go E g) = Suc (pending g) \<and> first (eg_go E g) = first g)
     \<and> (\<forall>g r. pending (eg_return E r g) = pending g - 1
          \<and> first (eg_return E r g) = (if first g = None then r else first g))
     \<and> (\<forall>g. eg_wait E g = (if pending g = 0 then Some (first g) else None))
     \<and> (\<forall>g. eg_cancelled E g \<longleftrightarrow> first g \<noteq> None)"

text \<open>A goroutine by its program point.\<close>

datatype 'a goroutine = NotStarted | At 'a | Done

datatype main_pc = MSignals | MGeth | MClient | MServer | MShutdown | MWait | MCheck "gerr option"
  | MReturned "gerr option" | MExited int | MKilled

datatype signal_pc = SNotify | SReceive | SFlag | SCancel

datatype geth_pc = GPipes | GLogOut | GLogErr | GStart | GInterrupt | GWait

text \<open>The node's process: whether it was interrupted, and how it ended.\<close>

datatype process = PNone | PRunning bool | PExited "gerr option"

datatype stream = Stdout | Stderr

record 'g life =
  lf_main :: main_pc
  lf_sig :: "signal_pc goroutine"
  lf_pending :: bool
  lf_flag :: bool
  lf_cancelled :: bool
  lf_group :: 'g
  lf_geth :: "geth_pc goroutine"
  lf_log :: "stream \<Rightarrow> unit goroutine"
  lf_intr :: "unit goroutine"
  lf_server :: "unit goroutine"
  lf_shut :: "unit goroutine"
  lf_closing :: bool
  lf_proc :: process
  lf_closed :: bool
  lf_todo :: "stream \<Rightarrow> string list"
  lf_pipe :: "stream \<Rightarrow> string list"
  lf_logged :: "(stream \<times> string) list"

text \<open>
  The command after its configuration was read. \<open>todo\<close> is what the process would write to its two
  outputs, line by line, if it were never stopped.
\<close>

definition life_init :: "'g errgroup \<Rightarrow> (stream \<Rightarrow> string list) \<Rightarrow> 'g life" where
  "life_init E todo = \<lparr>lf_main = MSignals, lf_sig = NotStarted, lf_pending = False, lf_flag = False,
     lf_cancelled = False, lf_group = eg_new E, lf_geth = NotStarted, lf_log = (\<lambda>x. NotStarted),
     lf_intr = NotStarted, lf_server = NotStarted, lf_shut = NotStarted, lf_closing = False,
     lf_proc = PNone, lf_closed = False, lf_todo = todo, lf_pipe = (\<lambda>x. []), lf_logged = []\<rparr>"

definition starts_geth :: "configuration \<Rightarrow> bool" where
  "starts_geth cfg \<longleftrightarrow> cfg_mode cfg = Online \<and> \<not> cfg_remote_geth cfg"

text \<open>The context of the group is done: the command's own was cancelled or the group has an error.\<close>

definition group_done :: "'g errgroup \<Rightarrow> 'g life \<Rightarrow> bool" where
  "group_done E s \<longleftrightarrow> lf_cancelled s \<or> eg_cancelled E (lf_group s)"

definition return :: "'g errgroup \<Rightarrow> gerr option \<Rightarrow> 'g life \<Rightarrow> 'g life" where
  "return E r s = s\<lparr>lf_group := eg_return E r (lf_group s)\<rparr>"

definition go :: "'g errgroup \<Rightarrow> 'g life \<Rightarrow> 'g life" where
  "go E s = s\<lparr>lf_group := eg_go E (lf_group s)\<rparr>"

definition halted :: gerr where
  "halted = ErrorNew ''rosetta-ethereum halted''"

section \<open>The goroutines\<close>

text \<open>\<open>runRunCmd\<close> from \<open>go handleSignals\<close> on.\<close>

inductive run_step :: "'g errgroup \<Rightarrow> configuration \<Rightarrow> 'g life \<Rightarrow> 'g life \<Rightarrow> bool" for E cfg where
  run_signals: "lf_main s = MSignals \<Longrightarrow> run_step E cfg s (s\<lparr>lf_sig := At SNotify, lf_main := MGeth\<rparr>)"
| run_geth: "lf_main s = MGeth \<Longrightarrow> starts_geth cfg \<Longrightarrow>
    run_step E cfg s (go E (s\<lparr>lf_geth := At GPipes, lf_main := MClient\<rparr>))"
| run_no_geth: "lf_main s = MGeth \<Longrightarrow> \<not> starts_geth cfg \<Longrightarrow>
    run_step E cfg s (s\<lparr>lf_main := if cfg_mode cfg = Online then MClient else MServer\<rparr>)"
| run_client: "lf_main s = MClient \<Longrightarrow> run_step E cfg s (s\<lparr>lf_main := MServer\<rparr>)"
| run_client_error: "lf_main s = MClient \<Longrightarrow>
    run_step E cfg s (s\<lparr>lf_main := MReturned (Some (Wrapf e '': cannot initialize ethereum client''))\<rparr>)"
| run_server: "lf_main s = MServer \<Longrightarrow> run_step E cfg s (go E (s\<lparr>lf_server := At (), lf_main := MShutdown\<rparr>))"
| run_shutdown: "lf_main s = MShutdown \<Longrightarrow> run_step E cfg s (go E (s\<lparr>lf_shut := At (), lf_main := MWait\<rparr>))"
| run_wait: "lf_main s = MWait \<Longrightarrow> eg_wait E (lf_group s) = Some r \<Longrightarrow> run_step E cfg s (s\<lparr>lf_main := MCheck r\<rparr>)"
| run_check: "lf_main s = MCheck r \<Longrightarrow>
    run_step E cfg s (s\<lparr>lf_main := MReturned (if lf_flag s then Some halted else r)\<rparr>)"

text \<open>\<open>main\<close>: the error is printed and the exit code is 1.\<close>

inductive exit_step :: "'g life \<Rightarrow> 'g life \<Rightarrow> bool" where
  exit_main: "lf_main s = MReturned r \<Longrightarrow> exit_step s (s\<lparr>lf_main := MExited (if r = None then 0 else 1)\<rparr>)"

text \<open>\<open>handleSignals\<close>: until \<open>signal.Notify\<close> the signals have their default effect.\<close>

inductive signal_step :: "'g life \<Rightarrow> 'g life \<Rightarrow> bool" where
  signal_notify: "lf_sig s = At SNotify \<Longrightarrow> signal_step s (s\<lparr>lf_sig := At SReceive\<rparr>)"
| signal_receive: "lf_sig s = At SReceive \<Longrightarrow> lf_pending s \<Longrightarrow> signal_step s (s\<lparr>lf_sig := At SFlag\<rparr>)"
| signal_flag: "lf_sig s = At SFlag \<Longrightarrow> signal_step s (s\<lparr>lf_flag := True, lf_sig := At SCancel\<rparr>)"
| signal_cancel: "lf_sig s = At SCancel \<Longrightarrow> signal_step s (s\<lparr>lf_cancelled := True, lf_sig := Done\<rparr>)"

text \<open>\<open>StartGeth\<close>. \<open>cmd.Wait\<close> closes the pipes once the process has ended, a failing \<open>cmd.Start\<close> at once.\<close>

inductive geth_step :: "'g errgroup \<Rightarrow> 'g life \<Rightarrow> 'g life \<Rightarrow> bool" for E where
  geth_pipes: "lf_geth s = At GPipes \<Longrightarrow> geth_step E s (s\<lparr>lf_geth := At GLogOut\<rparr>)"
| geth_pipes_error: "lf_geth s = At GPipes \<Longrightarrow> geth_step E s (return E (Some e) (s\<lparr>lf_geth := Done\<rparr>))"
| geth_log_out: "lf_geth s = At GLogOut \<Longrightarrow>
    geth_step E s (go E (s\<lparr>lf_log := (lf_log s)(Stdout := At ()), lf_geth := At GLogErr\<rparr>))"
| geth_log_err: "lf_geth s = At GLogErr \<Longrightarrow>
    geth_step E s (go E (s\<lparr>lf_log := (lf_log s)(Stderr := At ()), lf_geth := At GStart\<rparr>))"
| geth_start: "lf_geth s = At GStart \<Longrightarrow> geth_step E s (s\<lparr>lf_proc := PRunning False, lf_geth := At GInterrupt\<rparr>)"
| geth_start_error: "lf_geth s = At GStart \<Longrightarrow>
    geth_step E s (return E (Some (Wrapf e '': unable to start geth'')) (s\<lparr>lf_closed := True, lf_geth := Done\<rparr>))"
| geth_interrupt: "lf_geth s = At GInterrupt \<Longrightarrow>
    geth_step E s (go E (s\<lparr>lf_intr := At (), lf_geth := At GWait\<rparr>))"
| geth_wait: "lf_geth s = At GWait \<Longrightarrow> lf_proc s = PExited r \<Longrightarrow>
    geth_step E s (return E r (s\<lparr>lf_closed := True, lf_geth := Done\<rparr>))"

text \<open>\<open>logPipe\<close>: one pass of its loop is one step.\<close>

inductive log_step :: "'g errgroup \<Rightarrow> stream \<Rightarrow> 'g life \<Rightarrow> 'g life \<Rightarrow> bool" for E x where
  log_line: "lf_log s x = At () \<Longrightarrow> \<not> lf_closed s \<Longrightarrow> lf_pipe s x = l # ls \<Longrightarrow>
    log_step E x s (s\<lparr>lf_pipe := (lf_pipe s)(x := ls), lf_logged := lf_logged s @ [(x, l)]\<rparr>)"
| log_closed: "lf_log s x = At () \<Longrightarrow> lf_closed s \<Longrightarrow>
    log_step E x s (return E (Some e) (s\<lparr>lf_log := (lf_log s)(x := Done)\<rparr>))"
| log_eof: "lf_log s x = At () \<Longrightarrow> lf_proc s = PExited r \<Longrightarrow> lf_pipe s x = [] \<Longrightarrow>
    log_step E x s (return E (Some e) (s\<lparr>lf_log := (lf_log s)(x := Done)\<rparr>))"

text \<open>
  The goroutine that interrupts the node. Signalling a process that has exited may fail or not, depending
  on whether it has been waited for.
\<close>

inductive intr_step :: "'g errgroup \<Rightarrow> 'g life \<Rightarrow> 'g life \<Rightarrow> bool" for E where
  intr_send: "lf_intr s = At () \<Longrightarrow> group_done E s \<Longrightarrow> lf_proc s = PRunning b \<Longrightarrow>
    intr_step E s (return E None (s\<lparr>lf_proc := PRunning True, lf_intr := Done\<rparr>))"
| intr_late: "lf_intr s = At () \<Longrightarrow> group_done E s \<Longrightarrow> lf_proc s = PExited r \<Longrightarrow>
    intr_step E s (return E q (s\<lparr>lf_intr := Done\<rparr>))"

text \<open>The two functions of the server: \<open>ListenAndServe\<close> ends with an error after \<open>Shutdown\<close>.\<close>

inductive server_step :: "'g errgroup \<Rightarrow> 'g life \<Rightarrow> 'g life \<Rightarrow> bool" for E where
  server_closed: "lf_server s = At () \<Longrightarrow> lf_closing s \<Longrightarrow>
    server_step E s (return E (Some (External ''http: Server closed'')) (s\<lparr>lf_server := Done\<rparr>))"

inductive shutdown_step :: "'g errgroup \<Rightarrow> 'g life \<Rightarrow> 'g life \<Rightarrow> bool" for E where
  shutdown_done: "lf_shut s = At () \<Longrightarrow> group_done E s \<Longrightarrow>
    shutdown_step E s (return E r (s\<lparr>lf_closing := True, lf_shut := Done\<rparr>))"

definition alive :: "'g life \<Rightarrow> bool" where
  "alive s \<longleftrightarrow> lf_main s \<noteq> MKilled \<and> (\<forall>c. lf_main s \<noteq> MExited c)"

definition go_step :: "'g errgroup \<Rightarrow> configuration \<Rightarrow> 'g life \<Rightarrow> 'g life \<Rightarrow> bool" where
  "go_step E cfg s t \<longleftrightarrow> alive s \<and> (run_step E cfg s t \<or> exit_step s t \<or> signal_step s t \<or> geth_step E s t
     \<or> (\<exists>x. log_step E x s t) \<or> intr_step E s t \<or> server_step E s t \<or> shutdown_step E s t)"

text \<open>
  What may happen from outside: the first signal (later ones are dropped or stay in the channel), the
  process writes a line or ends, the server stops listening with an error. A process that was started goes on
  after the command has ended.
\<close>

inductive env_step :: "'g errgroup \<Rightarrow> 'g life \<Rightarrow> 'g life \<Rightarrow> bool" for E where
  env_signal: "alive s \<Longrightarrow> lf_sig s = At SReceive \<Longrightarrow> \<not> lf_pending s \<Longrightarrow> env_step E s (s\<lparr>lf_pending := True\<rparr>)"
| env_kill: "alive s \<Longrightarrow> lf_sig s \<in> {NotStarted, At SNotify} \<Longrightarrow> env_step E s (s\<lparr>lf_main := MKilled\<rparr>)"
| env_write: "lf_proc s = PRunning b \<Longrightarrow> lf_todo s x = l # ls \<Longrightarrow>
    env_step E s (s\<lparr>lf_todo := (lf_todo s)(x := ls), lf_pipe := (lf_pipe s)(x := lf_pipe s x @ [l])\<rparr>)"
| env_exit: "lf_proc s = PRunning b \<Longrightarrow> env_step E s (s\<lparr>lf_proc := PExited r\<rparr>)"
| env_server: "alive s \<Longrightarrow> lf_server s = At () \<Longrightarrow> env_step E s (return E (Some e) (s\<lparr>lf_server := Done\<rparr>))"

definition life_step :: "'g errgroup \<Rightarrow> configuration \<Rightarrow> 'g life \<Rightarrow> 'g life \<Rightarrow> bool" where
  "life_step E cfg s t \<longleftrightarrow> go_step E cfg s t \<or> env_step E s t"

inductive reachable :: "'g errgroup \<Rightarrow> configuration \<Rightarrow> (stream \<Rightarrow> string list) \<Rightarrow> 'g life \<Rightarrow> bool" for E cfg todo where
  reach_init: "reachable E cfg todo (life_init E todo)"
| reach_step: "reachable E cfg todo s \<Longrightarrow> life_step E cfg s t \<Longrightarrow> reachable E cfg todo t"

lemmas go_step_defs = go_step_def go_def return_def
lemmas go_step_elims = run_step.cases exit_step.cases signal_step.cases geth_step.cases log_step.cases
  intr_step.cases server_step.cases shutdown_step.cases

section \<open>Every run ends\<close>

fun main_rank :: "main_pc \<Rightarrow> nat" where
  "main_rank MSignals = 8"
| "main_rank MGeth = 7"
| "main_rank MClient = 6"
| "main_rank MServer = 5"
| "main_rank MShutdown = 4"
| "main_rank MWait = 3"
| "main_rank (MCheck r) = 2"
| "main_rank (MReturned r) = 1"
| "main_rank (MExited c) = 0"
| "main_rank MKilled = 0"

fun rank :: "('a \<Rightarrow> nat) \<Rightarrow> nat \<Rightarrow> 'a goroutine \<Rightarrow> nat" where
  "rank f n NotStarted = n"
| "rank f n (At pc) = f pc"
| "rank f n Done = 0"

fun signal_rank :: "signal_pc \<Rightarrow> nat" where
  "signal_rank SNotify = 4"
| "signal_rank SReceive = 3"
| "signal_rank SFlag = 2"
| "signal_rank SCancel = 1"

fun geth_rank :: "geth_pc \<Rightarrow> nat" where
  "geth_rank GPipes = 6"
| "geth_rank GLogOut = 5"
| "geth_rank GLogErr = 4"
| "geth_rank GStart = 3"
| "geth_rank GInterrupt = 2"
| "geth_rank GWait = 1"

fun proc_rank :: "process \<Rightarrow> nat" where
  "proc_rank PNone = 2"
| "proc_rank (PRunning b) = 1"
| "proc_rank (PExited r) = 0"

definition life_measure :: "'g life \<Rightarrow> nat" where
  "life_measure s = main_rank (lf_main s) + rank signal_rank 5 (lf_sig s) + (if lf_pending s then 0 else 1)
     + rank geth_rank 7 (lf_geth s) + rank (\<lambda>_. 1) 2 (lf_log s Stdout) + rank (\<lambda>_. 1) 2 (lf_log s Stderr)
     + rank (\<lambda>_. 1) 2 (lf_intr s) + rank (\<lambda>_. 1) 2 (lf_server s) + rank (\<lambda>_. 1) 2 (lf_shut s)
     + proc_rank (lf_proc s) + 2 * length (lf_todo s Stdout) + 2 * length (lf_todo s Stderr)
     + length (lf_pipe s Stdout) + length (lf_pipe s Stderr)"

text \<open>A goroutine that is not yet started by the program point of its starter has its slot free.\<close>

definition slots_free :: "'g life \<Rightarrow> bool" where
  "slots_free s \<longleftrightarrow> (8 \<le> main_rank (lf_main s) \<longrightarrow> lf_sig s = NotStarted)
     \<and> (7 \<le> main_rank (lf_main s) \<longrightarrow> lf_geth s = NotStarted)
     \<and> (5 \<le> main_rank (lf_main s) \<longrightarrow> lf_server s = NotStarted)
     \<and> (4 \<le> main_rank (lf_main s) \<longrightarrow> lf_shut s = NotStarted)
     \<and> (5 \<le> rank geth_rank 7 (lf_geth s) \<longrightarrow> lf_log s Stdout = NotStarted)
     \<and> (4 \<le> rank geth_rank 7 (lf_geth s) \<longrightarrow> lf_log s Stderr = NotStarted)
     \<and> (3 \<le> rank geth_rank 7 (lf_geth s) \<longrightarrow> lf_proc s = PNone)
     \<and> (2 \<le> rank geth_rank 7 (lf_geth s) \<longrightarrow> lf_intr s = NotStarted)"

lemma slots_free_init: "slots_free (life_init E todo)"
  by (simp add: slots_free_def life_init_def)

lemma slots_free_go:
  assumes "slots_free s" and "go_step E cfg s t"
  shows "slots_free t"
proof -
  note d = slots_free_def go_def return_def
  have "run_step E cfg s t \<Longrightarrow> slots_free t" using assms(1) by (elim run_step.cases) (auto simp: d)
  moreover have "exit_step s t \<Longrightarrow> slots_free t" using assms(1) by (elim exit_step.cases) (auto simp: d)
  moreover have "signal_step s t \<Longrightarrow> slots_free t" using assms(1) by (elim signal_step.cases) (auto simp: d)
  moreover have "geth_step E s t \<Longrightarrow> slots_free t" using assms(1) by (elim geth_step.cases) (auto simp: d)
  moreover have "log_step E x s t \<Longrightarrow> slots_free t" for x
    using assms(1) by (cases x; elim log_step.cases) (simp_all add: d)
  moreover have "intr_step E s t \<Longrightarrow> slots_free t" using assms(1) by (elim intr_step.cases) (auto simp: d)
  moreover have "server_step E s t \<Longrightarrow> slots_free t" using assms(1) by (elim server_step.cases) (auto simp: d)
  moreover have "shutdown_step E s t \<Longrightarrow> slots_free t" using assms(1) by (elim shutdown_step.cases) (auto simp: d)
  ultimately show ?thesis using assms(2) unfolding go_step_def by blast
qed

lemma slots_free_env: "slots_free s \<Longrightarrow> env_step E s t \<Longrightarrow> slots_free t"
  by (elim env_step.cases) (auto simp: slots_free_def return_def)

lemma reachable_slots: "reachable E cfg todo s \<Longrightarrow> slots_free s"
  by (induction rule: reachable.induct)
     (auto simp: slots_free_init life_step_def intro: slots_free_go slots_free_env)

lemma go_step_measure:
  assumes "slots_free s" and "go_step E cfg s t"
  shows "life_measure t < life_measure s"
proof -
  note d = life_measure_def go_def return_def
  note f = assms(1) [unfolded slots_free_def]
  have "run_step E cfg s t \<Longrightarrow> life_measure t < life_measure s" using f by (elim run_step.cases) (simp_all add: d)
  moreover have "exit_step s t \<Longrightarrow> life_measure t < life_measure s" by (elim exit_step.cases) (simp add: d)
  moreover have "signal_step s t \<Longrightarrow> life_measure t < life_measure s" by (elim signal_step.cases) (simp_all add: d)
  moreover have "geth_step E s t \<Longrightarrow> life_measure t < life_measure s" using f by (elim geth_step.cases) (simp_all add: d)
  moreover have "log_step E x s t \<Longrightarrow> life_measure t < life_measure s" for x
    by (cases x; elim log_step.cases) (simp_all add: d)
  moreover have "intr_step E s t \<Longrightarrow> life_measure t < life_measure s" by (elim intr_step.cases) (simp_all add: d)
  moreover have "server_step E s t \<Longrightarrow> life_measure t < life_measure s" by (elim server_step.cases) (simp add: d)
  moreover have "shutdown_step E s t \<Longrightarrow> life_measure t < life_measure s" by (elim shutdown_step.cases) (simp add: d)
  ultimately show ?thesis using assms(2) unfolding go_step_def by blast
qed

lemma alive_rank: "alive s \<Longrightarrow> 0 < main_rank (lf_main s)"
  by (cases "lf_main s") (auto simp: alive_def)

lemma env_step_measure:
  assumes "env_step E s t"
  shows "life_measure t < life_measure s"
  using assms
proof cases
  case env_kill
  then show ?thesis using alive_rank [of s] by (simp add: life_measure_def)
next
  case (env_write b x l ls)
  then show ?thesis by (cases x) (simp_all add: life_measure_def)
qed (simp_all add: life_measure_def return_def)

section \<open>What holds in every reachable state\<close>

fun live :: "'a goroutine \<Rightarrow> nat" where
  "live (At pc) = 1"
| "live NotStarted = 0"
| "live Done = 0"

definition group_size :: "'g life \<Rightarrow> nat" where
  "group_size s = live (lf_geth s) + live (lf_log s Stdout) + live (lf_log s Stderr) + live (lf_intr s)
     + live (lf_server s) + live (lf_shut s)"

text \<open>The group counts the goroutines that run in it; those that always fail have left an error behind.\<close>

definition group_ok :: "('g \<Rightarrow> nat) \<Rightarrow> ('g \<Rightarrow> gerr option) \<Rightarrow> 'g life \<Rightarrow> bool" where
  "group_ok pending first s \<longleftrightarrow> pending (lf_group s) = group_size s
     \<and> (lf_server s = Done \<longrightarrow> first (lf_group s) \<noteq> None)
     \<and> (lf_log s Stdout = Done \<or> lf_log s Stderr = Done \<longrightarrow> first (lf_group s) \<noteq> None)"

text \<open>The signal handler: the flag is set before the context is cancelled, and only after a signal.\<close>

definition signal_ok :: "'g life \<Rightarrow> bool" where
  "signal_ok s \<longleftrightarrow> (lf_cancelled s \<longrightarrow> lf_flag s) \<and> (lf_flag s \<longrightarrow> lf_pending s)
     \<and> (lf_sig s \<in> {At SCancel, Done} \<longrightarrow> lf_flag s) \<and> (lf_sig s = Done \<longrightarrow> lf_cancelled s)
     \<and> (lf_sig s \<in> {At SFlag, At SCancel, Done} \<longrightarrow> lf_pending s)
     \<and> (lf_pending s \<longrightarrow> lf_sig s \<notin> {NotStarted, At SNotify})"

text \<open>The node's process and its pipes.\<close>

definition process_ok :: "'g life \<Rightarrow> bool" where
  "process_ok s \<longleftrightarrow> (lf_proc s \<noteq> PNone \<longrightarrow> lf_log s Stdout \<noteq> NotStarted \<and> lf_log s Stderr \<noteq> NotStarted)
     \<and> (\<forall>b. lf_proc s = PRunning b \<longrightarrow> lf_geth s \<in> {At GInterrupt, At GWait})
     \<and> (lf_geth s \<in> {At GInterrupt, At GWait} \<longrightarrow> lf_proc s \<noteq> PNone)
     \<and> (lf_geth s = At GWait \<longrightarrow> lf_intr s \<noteq> NotStarted)
     \<and> (lf_geth s \<in> {At GLogErr, At GStart} \<longrightarrow> lf_log s Stdout \<noteq> NotStarted)
     \<and> (lf_geth s = At GStart \<longrightarrow> lf_log s Stderr \<noteq> NotStarted)
     \<and> (lf_intr s \<noteq> NotStarted \<longrightarrow> lf_proc s \<noteq> PNone)
     \<and> (lf_intr s = Done \<longrightarrow> lf_proc s \<noteq> PRunning False)
     \<and> (lf_geth s = Done \<longrightarrow> lf_closed s \<or> lf_log s Stdout = NotStarted \<and> lf_log s Stderr = NotStarted)
     \<and> (lf_shut s = Done \<longrightarrow> lf_closing s)"

definition main_ok :: "('g \<Rightarrow> nat) \<Rightarrow> ('g \<Rightarrow> gerr option) \<Rightarrow> 'g life \<Rightarrow> bool" where
  "main_ok pending first s \<longleftrightarrow>
     (lf_main s \<in> {MShutdown, MWait} \<or> (\<exists>r. lf_main s = MCheck r) \<longrightarrow> lf_server s \<noteq> NotStarted)
     \<and> (lf_main s = MWait \<or> (\<exists>r. lf_main s = MCheck r) \<longrightarrow> lf_shut s \<noteq> NotStarted)
     \<and> (\<forall>r. lf_main s = MCheck r \<longrightarrow> r = first (lf_group s) \<and> r \<noteq> None)
     \<and> (\<forall>r. lf_main s = MReturned r \<longrightarrow> r \<noteq> None)
     \<and> (\<forall>c. lf_main s = MExited c \<longrightarrow> c = 1)
     \<and> (lf_server s \<noteq> NotStarted \<and> ((\<exists>r. lf_main s = MCheck r) \<or> (\<exists>r. lf_main s = MReturned r) \<or> (\<exists>c. lf_main s = MExited c))
         \<longrightarrow> group_size s = 0)"

lemma go_step_cases:
  assumes "go_step E cfg s t"
  obtains (run) "run_step E cfg s t" | (exit) "exit_step s t" | (sig) "signal_step s t" | (geth) "geth_step E s t"
    | (log) x where "log_step E x s t" | (intr) "intr_step E s t" | (server) "server_step E s t"
    | (shut) "shutdown_step E s t"
  using assms unfolding go_step_def by blast

lemma group_ok_init: "errgroup_law E pending first \<Longrightarrow> group_ok pending first (life_init E todo)"
  by (simp add: group_ok_def life_init_def group_size_def errgroup_law_def)

lemma group_ok_step:
  assumes law: "errgroup_law E pending first" and free: "slots_free s" and ok: "group_ok pending first s"
    and step: "life_step E cfg s t"
  shows "group_ok pending first t"
proof -
  have l: "pending (eg_go E g) = Suc (pending g)" "first (eg_go E g) = first g"
    "pending (eg_return E r g) = pending g - 1" "first (eg_return E r g) = (if first g = None then r else first g)" for g r
    using law by (simp_all add: errgroup_law_def)
  note d = group_ok_def group_size_def go_def return_def l
  note f = free [unfolded slots_free_def]
  from step consider "go_step E cfg s t" | "env_step E s t" unfolding life_step_def by blast
  then show ?thesis
  proof cases
    case 1
    then show ?thesis
    proof (cases rule: go_step_cases)
      case run
      then show ?thesis using ok f by (elim run_step.cases) (simp_all add: d)
    next
      case (log x)
      then show ?thesis using ok by cases (cases x; simp add: d)+
    next
      case geth
      then show ?thesis using ok f by (elim geth_step.cases) (auto simp: d)
    next
      case exit
      then show ?thesis using ok by (elim exit_step.cases) (simp add: d)
    next
      case sig
      then show ?thesis using ok by (elim signal_step.cases) (simp_all add: d)
    next
      case intr
      then show ?thesis using ok by (elim intr_step.cases) (auto simp: d)
    next
      case server
      then show ?thesis using ok by (elim server_step.cases) (simp add: d)
    next
      case shut
      then show ?thesis using ok by (elim shutdown_step.cases) (auto simp: d)
    qed
  next
    case 2
    then show ?thesis using ok by (elim env_step.cases) (simp_all add: d)
  qed
qed

lemma signal_ok_step:
  assumes "slots_free s" and "signal_ok s" and "life_step E cfg s t"
  shows "signal_ok t"
proof -
  note d = signal_ok_def go_def return_def
  from assms(3) consider "go_step E cfg s t" | "env_step E s t" unfolding life_step_def by blast
  then show ?thesis
  proof cases
    case 1
    then show ?thesis
    proof (cases rule: go_step_cases)
      case run
      then show ?thesis using assms(1,2) by (elim run_step.cases) (auto simp: d slots_free_def)
    next
      case sig
      then show ?thesis using assms(2) by (elim signal_step.cases) (auto simp: d)
    next
      case exit
      then show ?thesis using assms(2) by (elim exit_step.cases) (simp add: d)
    next
      case geth
      then show ?thesis using assms(2) by (elim geth_step.cases) (simp_all add: d)
    next
      case (log x)
      then show ?thesis using assms(2) by (elim log_step.cases) (simp_all add: d)
    next
      case intr
      then show ?thesis using assms(2) by (elim intr_step.cases) (simp_all add: d)
    next
      case server
      then show ?thesis using assms(2) by (elim server_step.cases) (simp add: d)
    next
      case shut
      then show ?thesis using assms(2) by (elim shutdown_step.cases) (simp add: d)
    qed
  next
    case 2
    then show ?thesis using assms(2) by (elim env_step.cases) (auto simp: d)
  qed
qed

lemma process_ok_step:
  assumes "slots_free s" and "process_ok s" and "life_step E cfg s t"
  shows "process_ok t"
proof -
  note d = process_ok_def go_def return_def
  note f = assms(1) [unfolded slots_free_def]
  from assms(3) consider "go_step E cfg s t" | "env_step E s t" unfolding life_step_def by blast
  then show ?thesis
  proof cases
    case 1
    then show ?thesis
    proof (cases rule: go_step_cases)
      case run
      then show ?thesis using assms(2) f by (elim run_step.cases) (simp_all add: d)
    next
      case exit
      then show ?thesis using assms(2) by (elim exit_step.cases) (simp add: d)
    next
      case sig
      then show ?thesis using assms(2) by (elim signal_step.cases) (simp_all add: d)
    next
      case geth
      then show ?thesis using assms(2) f by (elim geth_step.cases) (simp_all add: d)
    next
      case (log x)
      then show ?thesis using assms(2) by cases (cases x; simp add: d)+
    next
      case intr
      then show ?thesis using assms(2) by (elim intr_step.cases) (auto simp: d)
    next
      case server
      then show ?thesis using assms(2) by (elim server_step.cases) (simp add: d)
    next
      case shut
      then show ?thesis using assms(2) by (elim shutdown_step.cases) (simp add: d)
    qed
  next
    case 2
    then show ?thesis using assms(2) by (elim env_step.cases) (auto simp: d)
  qed
qed

lemma group_size_At:
  "group_size s = 0 \<Longrightarrow> lf_geth s \<noteq> At p \<and> lf_log s x \<noteq> At () \<and> lf_intr s \<noteq> At () \<and> lf_server s \<noteq> At () \<and> lf_shut s \<noteq> At ()"
  by (cases x) (auto simp: group_size_def)

lemma main_ok_step:
  assumes law: "errgroup_law E pending first" and free: "slots_free s" and grp: "group_ok pending first s"
    and ok: "main_ok pending first s" and step: "life_step E cfg s t"
  shows "main_ok pending first t"
proof -
  have w: "eg_wait E g = Some r \<Longrightarrow> pending g = 0 \<and> r = first g" for g r
    using law by (auto simp: errgroup_law_def split: if_splits)
  note d = main_ok_def group_size_def go_def return_def
  note f = free [unfolded slots_free_def]
  have idle: "main_ok pending first t" if "lf_main t = lf_main s" "lf_server t \<noteq> NotStarted \<longleftrightarrow> lf_server s \<noteq> NotStarted"
    "lf_shut s \<noteq> NotStarted \<Longrightarrow> lf_shut t \<noteq> NotStarted" "group_size s \<noteq> 0"
  proof -
    have no: "\<forall>r. lf_main s \<noteq> MCheck r"
      "\<not> (lf_server s \<noteq> NotStarted \<and> ((\<exists>r. lf_main s = MReturned r) \<or> (\<exists>c. lf_main s = MExited c)))"
      using ok that(4) unfolding main_ok_def by blast+
    with ok that(1-3) show ?thesis by (auto simp: main_ok_def)
  qed
  from step consider "go_step E cfg s t" | "env_step E s t" unfolding life_step_def by blast
  then show ?thesis
  proof cases
    case 1
    then show ?thesis
    proof (cases rule: go_step_cases)
      case run
      then show ?thesis
      proof cases
        case (run_wait r)
        then have p: "group_size s = 0" "r = first (lf_group s)" using w grp by (auto simp: group_ok_def)
        have "lf_server s \<noteq> NotStarted" "lf_shut s \<noteq> NotStarted" using ok run_wait by (simp_all add: main_ok_def)
        moreover have "lf_server s \<noteq> At ()" using group_size_At [OF p(1)] by blast
        ultimately have "lf_server s = Done" by (cases "lf_server s") auto
        with grp have "first (lf_group s) \<noteq> None" by (simp add: group_ok_def)
        with ok run_wait p show ?thesis by (simp add: d)
      next
        case (run_check r)
        with ok show ?thesis by (auto simp: d)
      qed (use ok f in \<open>simp_all add: d\<close>)
    next
      case exit
      then show ?thesis using ok by cases (auto simp: d)
    next
      case sig
      then show ?thesis using ok by cases (simp_all add: d)
    next
      case geth
      then have "group_size s \<noteq> 0" by cases (use group_size_At in blast)+
      with geth show ?thesis by cases (rule idle; simp add: go_def return_def)+
    next
      case (log x)
      then have "group_size s \<noteq> 0" by cases (use group_size_At in blast)+
      with log show ?thesis by cases (rule idle; simp add: return_def)+
    next
      case intr
      then have "group_size s \<noteq> 0" by cases (use group_size_At in blast)+
      with intr show ?thesis by cases (rule idle; simp add: return_def)+
    next
      case server
      then have "group_size s \<noteq> 0" by cases (use group_size_At in blast)+
      with server show ?thesis by cases (rule idle; simp add: return_def)+
    next
      case shut
      then have "group_size s \<noteq> 0" by cases (use group_size_At in blast)+
      with shut show ?thesis by cases (rule idle; simp add: return_def)+
    qed
  next
    case 2
    then show ?thesis
    proof cases
      case (env_server e)
      then have "group_size s \<noteq> 0" using group_size_At by blast
      with env_server show ?thesis by (intro idle) (simp_all add: return_def)
    qed (use ok in \<open>simp_all add: d\<close>)
  qed
qed

definition life_ok :: "('g \<Rightarrow> nat) \<Rightarrow> ('g \<Rightarrow> gerr option) \<Rightarrow> 'g life \<Rightarrow> bool" where
  "life_ok pending first s \<longleftrightarrow> slots_free s \<and> group_ok pending first s \<and> signal_ok s \<and> process_ok s
     \<and> main_ok pending first s"

lemma reachable_ok:
  assumes "errgroup_law E pending first" and "reachable E cfg todo s"
  shows "life_ok pending first s"
  using assms(2)
proof (induction rule: reachable.induct)
  case reach_init
  have "slots_free (life_init E todo)" "group_ok pending first (life_init E todo)" "signal_ok (life_init E todo)"
    "process_ok (life_init E todo)" "main_ok pending first (life_init E todo)"
    by (rule slots_free_init, rule group_ok_init [OF assms(1)])
       (simp_all add: signal_ok_def process_ok_def main_ok_def life_init_def)
  then show ?case by (simp add: life_ok_def)
next
  case (reach_step s t)
  then have free: "slots_free s" "slots_free t"
    by (auto simp: life_ok_def life_step_def intro: slots_free_go slots_free_env)
  with reach_step show ?case unfolding life_ok_def
    using group_ok_step [OF assms(1) free(1)] signal_ok_step [OF free(1)] process_ok_step [OF free(1)]
      main_ok_step [OF assms(1) free(1)] by blast
qed

text \<open>What sets the end of the command in motion.\<close>

definition ending :: "'g errgroup \<Rightarrow> 'g life \<Rightarrow> bool" where
  "ending E s \<longleftrightarrow> lf_pending s \<or> (\<exists>r. lf_proc s = PExited r) \<or> lf_server s = Done \<or> group_done E s"

lemma stuck_At:
  assumes "alive s" and "\<nexists>t. go_step E cfg s t"
  shows "lf_sig s = At pc \<Longrightarrow> pc = SReceive \<and> \<not> lf_pending s"
    and "lf_geth s = At gpc \<Longrightarrow> gpc = GWait \<and> (\<forall>r. lf_proc s \<noteq> PExited r)"
    and "lf_log s x = At () \<Longrightarrow> \<not> lf_closed s \<and> (\<forall>r. lf_proc s = PExited r \<longrightarrow> False)"
    and "lf_intr s = At () \<Longrightarrow> group_done E s \<Longrightarrow> lf_proc s = PNone"
    and "lf_server s = At () \<Longrightarrow> \<not> lf_closing s"
    and "lf_shut s = At () \<Longrightarrow> \<not> group_done E s"
    and "lf_main s = MWait \<and> eg_wait E (lf_group s) = None"
proof -
  have n: "\<not> run_step E cfg s t" "\<not> exit_step s t" "\<not> signal_step s t" "\<not> geth_step E s t" "\<not> log_step E x s t"
    "\<not> intr_step E s t" "\<not> server_step E s t" "\<not> shutdown_step E s t" for t x
    using assms unfolding go_step_def by blast+
  show "pc = SReceive \<and> \<not> lf_pending s" if "lf_sig s = At pc"
    using that n(3) signal_notify [of s] signal_receive [of s] signal_flag [of s] signal_cancel [of s]
    by (cases pc) auto
  show "gpc = GWait \<and> (\<forall>r. lf_proc s \<noteq> PExited r)" if "lf_geth s = At gpc"
    using that n(4) geth_pipes [of s E] geth_log_out [of s E] geth_log_err [of s E] geth_start [of s E]
      geth_interrupt [of s E] geth_wait [of s _ E] by (cases gpc) auto
  show "\<not> lf_closed s \<and> (\<forall>r. lf_proc s = PExited r \<longrightarrow> False)" if "lf_log s x = At ()"
  proof -
    have c: "\<not> lf_closed s" using log_closed [OF that] n(5) by metis
    have p: "lf_pipe s x = []" using log_line [OF that c] n(5) by (metis list.exhaust)
    have "lf_proc s \<noteq> PExited r" for r using log_eof [OF that _ p] n(5) by metis
    with c show ?thesis by simp
  qed
  show "lf_proc s = PNone" if "lf_intr s = At ()" "group_done E s"
    using that n(6) intr_send [of s E] intr_late [of s E] by (cases "lf_proc s") auto
  show "\<not> lf_closing s" if "lf_server s = At ()"
    using that n(7) server_closed [of s E] by blast
  show "\<not> group_done E s" if "lf_shut s = At ()"
    using that n(8) shutdown_done [of s E] by blast
  show "lf_main s = MWait \<and> eg_wait E (lf_group s) = None"
  proof (cases "lf_main s")
    case MGeth
    then show ?thesis using n(1) run_geth [of s cfg E] run_no_geth [of s cfg E] by blast
  next
    case MWait
    then show ?thesis using n(1) run_step.run_wait [of s E] by (cases "eg_wait E (lf_group s)") auto
  qed (use assms(1) n(1,2) run_signals [of s E cfg] run_client [of s E cfg] run_server [of s E cfg]
      run_shutdown [of s E cfg] run_check [of s _ E cfg] exit_main [of s] in \<open>auto simp: alive_def\<close>)
qed

lemma stuck_ends:
  assumes law: "errgroup_law E pending first" and reach: "reachable E cfg todo s" and ending: "ending E s"
    and stuck: "\<nexists>t. go_step E cfg s t" and exited: "lf_proc s \<noteq> PRunning True"
  shows "\<not> alive s"
proof
  assume alive: "alive s"
  note k = stuck_At [OF alive stuck]
  have ok: "slots_free s" "group_ok pending first s" "signal_ok s" "process_ok s" "main_ok pending first s"
    using reachable_ok [OF law reach] by (simp_all add: life_ok_def)
  have wait: "lf_main s = MWait" "pending (lf_group s) \<noteq> 0"
    using k(7) law by (auto simp: errgroup_law_def split: if_splits)
  have cancelled: "eg_cancelled E (lf_group s) \<longleftrightarrow> first (lf_group s) \<noteq> None"
    using law by (simp add: errgroup_law_def)
  have gone: "lf_log s x = Done" if "lf_proc s = PExited r" for x r
  proof (cases "lf_log s x")
    case NotStarted
    with ok(4) that show ?thesis by (cases x) (simp_all add: process_ok_def)
  next
    case (At u)
    with k(3) [of x] that show ?thesis by simp
  qed
  have gd: "group_done E s"
  proof -
    have "group_done E s" if "lf_pending s"
      using that ok(3) k(1) by (cases "lf_sig s") (auto simp: signal_ok_def group_done_def)
    moreover have "group_done E s" if "lf_proc s = PExited r" for r
      using gone [OF that] ok(2) cancelled by (simp add: group_ok_def group_done_def)
    moreover have "group_done E s" if "lf_server s = Done"
      using that ok(2) cancelled by (simp add: group_ok_def group_done_def)
    ultimately show ?thesis using ending unfolding ending_def by blast
  qed
  have "lf_shut s = Done" using ok(5) wait(1) k(6) gd by (cases "lf_shut s") (auto simp: main_ok_def)
  then have "lf_closing s" using ok(4) by (simp add: process_ok_def)
  then have server: "live (lf_server s) = 0" using k(5) by (cases "lf_server s") auto
  have proc: "lf_proc s = PNone \<or> (\<exists>r. lf_proc s = PExited r)"
  proof (cases "lf_proc s")
    case (PRunning b)
    with exited have "lf_proc s = PRunning False" by (cases b) auto
    with ok(4) have g: "lf_geth s \<in> {At GInterrupt, At GWait}" "lf_intr s \<noteq> Done" by (auto simp: process_ok_def)
    with k(2) have "lf_geth s = At GWait" by blast
    with ok(4) g(2) have "lf_intr s = At ()" by (cases "lf_intr s") (auto simp: process_ok_def)
    with k(4) gd PRunning show ?thesis by simp
  qed auto
  have geth: "live (lf_geth s) = 0"
  proof (cases "lf_geth s")
    case (At pc)
    with k(2) have "lf_geth s = At GWait" "\<forall>r. lf_proc s \<noteq> PExited r" by blast+
    with proc ok(4) show ?thesis by (auto simp: process_ok_def)
  qed simp_all
  have intr: "live (lf_intr s) = 0"
    using k(4) gd ok(4) by (cases "lf_intr s") (auto simp: process_ok_def)
  have log: "live (lf_log s x) = 0" for x
  proof (cases "lf_log s x")
    case (At u)
    with k(3) [of x] have "\<not> lf_closed s" "\<forall>r. lf_proc s \<noteq> PExited r" by auto
    with geth ok(1,4) At show ?thesis
      by (cases "lf_geth s"; cases x) (auto simp: process_ok_def slots_free_def)
  qed simp_all
  from server geth intr log \<open>lf_shut s = Done\<close> ok(2) wait(2) show False
    by (simp add: group_ok_def group_size_def)
qed

text \<open>What a stream has logged, still holds and would still get is what its process was to write.\<close>

definition logged_of :: "stream \<Rightarrow> 'g life \<Rightarrow> string list" where
  "logged_of x s = map snd (filter (\<lambda>p. fst p = x) (lf_logged s))"

lemma log_order_step:
  assumes "life_step E cfg s t"
  shows "logged_of y t @ lf_pipe t y @ lf_todo t y = logged_of y s @ lf_pipe s y @ lf_todo s y"
proof -
  note d = logged_of_def go_def return_def
  from assms consider "go_step E cfg s t" | "env_step E s t" unfolding life_step_def by blast
  then show ?thesis
  proof cases
    case 1
    then show ?thesis
    proof (cases rule: go_step_cases)
      case (log x)
      then show ?thesis by cases (simp_all add: d)
    next
      case run
      then show ?thesis by cases (simp_all add: d)
    next
      case geth
      then show ?thesis by cases (simp_all add: d)
    next
      case sig
      then show ?thesis by cases (simp_all add: d)
    next
      case exit
      then show ?thesis by cases (simp add: d)
    next
      case intr
      then show ?thesis by cases (simp_all add: d)
    next
      case server
      then show ?thesis by cases (simp add: d)
    next
      case shut
      then show ?thesis by cases (simp add: d)
    qed
  next
    case 2
    then show ?thesis by cases (simp_all add: d)
  qed
qed

lemma life_steps_bounded:
  assumes "reachable E cfg todo s" and "(life_step E cfg ^^ n) s t"
  shows "n + life_measure t \<le> life_measure s"
  using assms
proof (induction n arbitrary: s)
  case (Suc n)
  from Suc.prems(2) obtain u where u: "life_step E cfg s u" "(life_step E cfg ^^ n) u t"
    by (blast elim: relpowp_Suc_E2)
  have "life_measure u < life_measure s"
    using u(1) go_step_measure [OF reachable_slots [OF Suc.prems(1)]] env_step_measure
    unfolding life_step_def by blast
  with Suc.IH [OF reach_step [OF Suc.prems(1) u(1)] u(2)] show ?case by simp
qed simp

section \<open>Properties\<close>

text \<open>
  C32. \<open>logPipe\<close> has no other way to end than an error of its reader: it returns exactly if some read fails.
  A node that keeps its output open keeps it in the loop.
\<close>

theorem logPipe_returns_iff:
  "(\<exists>r. logPipe read identifier log reader = Some r) \<longleftrightarrow> (\<exists>n. read_fails read (after_reads read n reader))"
  using logPipe_returns_if logPipe_returns_only by metis

text \<open>
  C33. On a pipe that ends, \<open>logPipe\<close> returns its error after it logged every line that was ended by a newline, in
  order and without the newline; text after the last newline is never logged.
\<close>

theorem logPipe_logs_lines:
  "logPipe ReadString identifier log (content, e) =
     Some (log @ map (LogLine identifier) (butlast (split_at (CHR 0x0A) content)) @ [LogClosing identifier e], e)"
  by (rule logPipe_pipe)

text \<open>
  C15. No run of the command goes on for ever: with \<open>todo\<close> the lines the node would write, there are at most
  \<open>33\<close> steps and two for each line, whatever the order of the goroutines and of the events from outside.
\<close>

theorem run_bounded:
  assumes "(life_step E cfg ^^ n) (life_init E todo) t"
  shows "n \<le> 33 + 2 * length (todo Stdout) + 2 * length (todo Stderr)"
  using life_steps_bounded [OF reach_init assms] by (simp add: life_measure_def life_init_def)

text \<open>
  C6. Shutdown is live: once a signal was delivered, the node's process has ended, the server has failed or
  the context is done, the goroutines can only come to rest with the process ended and exit code 1, as
  long as a node that was interrupted does end. (\<open>MKilled\<close> is a signal before the handler was set up.)
\<close>

theorem ending_command_ends:
  assumes "errgroup_law E pending first" and "reachable E cfg todo s" and "ending E s"
    and "\<nexists>t. go_step E cfg s t" and "lf_proc s \<noteq> PRunning True"
  shows "lf_main s = MExited 1 \<or> lf_main s = MKilled"
proof -
  have "\<not> alive s" using assms by (rule stuck_ends)
  moreover have "main_ok pending first s" using reachable_ok [OF assms(1,2)] by (simp add: life_ok_def)
  ultimately show ?thesis by (auto simp: alive_def main_ok_def)
qed

text \<open>
  C14. A command that got as far as its server leaves nothing behind: when it has exited, with code 1 as always, no goroutine
  of the group is running and the node's process has ended.
\<close>

theorem served_command_leaves_nothing:
  assumes "errgroup_law E pending first" and "reachable E cfg todo s"
    and "lf_main s = MExited c" and "lf_server s \<noteq> NotStarted"
  shows "c = 1 \<and> group_size s = 0 \<and> (\<forall>b. lf_proc s \<noteq> PRunning b)"
proof -
  have ok: "process_ok s" "main_ok pending first s" using reachable_ok [OF assms(1,2)] by (simp_all add: life_ok_def)
  with assms(3,4) have c: "c = 1" "group_size s = 0" by (auto simp: main_ok_def)
  with ok(1) group_size_At show ?thesis unfolding process_ok_def by blast
qed

text \<open>
  The message on exit: if the signal handler cancelled the context before the group was done, the command
  returns \<open>rosetta-ethereum halted\<close>; without a signal it returns the first error of the group.
\<close>

theorem halted_after_signal:
  assumes "errgroup_law E pending first" and "reachable E cfg todo s" and "lf_main s = MCheck r" and "run_step E cfg s t"
  shows "(lf_cancelled s \<longrightarrow> lf_main t = MReturned (Some halted))
    \<and> (\<not> lf_pending s \<longrightarrow> lf_main t = MReturned (first (lf_group s)) \<and> first (lf_group s) \<noteq> None)"
proof -
  have ok: "signal_ok s" "main_ok pending first s" using reachable_ok [OF assms(1,2)] by (simp_all add: life_ok_def)
  have "lf_main t = MReturned (if lf_flag s then Some halted else r)"
    using assms(4,3) by cases simp_all
  with ok assms(3) show ?thesis by (auto simp: signal_ok_def main_ok_def)
qed

text \<open>
  Each output of the node is logged in order: what was logged of it is a prefix of what the
  node wrote, and what it wrote and was not logged is still in the pipe.
\<close>

theorem logged_in_order:
  assumes "reachable E cfg todo s"
  shows "logged_of x s @ lf_pipe s x @ lf_todo s x = todo x"
  using assms
proof (induction rule: reachable.induct)
  case reach_init
  then show ?case by (simp add: life_init_def logged_of_def)
next
  case (reach_step s t)
  then show ?case using log_order_step [OF reach_step.hyps(2), of x] by simp
qed

lemma reach_go:
  assumes "reachable E cfg todo s" and "alive s"
  shows "run_step E cfg s t \<Longrightarrow> reachable E cfg todo t" and "exit_step s t \<Longrightarrow> reachable E cfg todo t"
    and "signal_step s t \<Longrightarrow> reachable E cfg todo t" and "geth_step E s t \<Longrightarrow> reachable E cfg todo t"
    and "log_step E x s t \<Longrightarrow> reachable E cfg todo t" and "intr_step E s t \<Longrightarrow> reachable E cfg todo t"
    and "server_step E s t \<Longrightarrow> reachable E cfg todo t" and "shutdown_step E s t \<Longrightarrow> reachable E cfg todo t"
  using assms reach_step [OF assms(1)] unfolding life_step_def go_step_def by blast+

lemma reach_env: "reachable E cfg todo s \<Longrightarrow> env_step E s t \<Longrightarrow> reachable E cfg todo t"
  using reach_step unfolding life_step_def by blast

text \<open>
  C39. A client that cannot be made leaves the node running: \<open>runRunCmd\<close> returns the error of \<open>NewClient\<close> without
  cancelling the context or waiting for the group, so the process can exit while the node it started still runs.
\<close>

theorem client_error_leaves_geth:
  assumes "starts_geth cfg"
  shows "\<exists>s. reachable E cfg todo s \<and> lf_main s = MExited 1 \<and> lf_proc s = PRunning False"
proof -
  note r0 = reach_init [of E cfg todo, unfolded life_init_def]
  note r1 = reach_go(1) [OF r0 _ run_signals, simplified alive_def, simplified]
  note r2 = reach_go(1) [OF r1 _ run_geth, simplified alive_def go_def, simplified, OF assms]
  note r3 = reach_go(4) [OF r2 _ geth_pipes, simplified alive_def go_def, simplified]
  note r4 = reach_go(4) [OF r3 _ geth_log_out, simplified alive_def go_def, simplified]
  note r5 = reach_go(4) [OF r4 _ geth_log_err, simplified alive_def go_def, simplified]
  note r6 = reach_go(4) [OF r5 _ geth_start, simplified alive_def go_def, simplified]
  note r7 = reach_go(1) [OF r6 _ run_client_error [where e = "External ''connection refused''"], simplified alive_def go_def, simplified]
  note r8 = reach_go(2) [OF r7 _ exit_main, simplified alive_def go_def, simplified]
  show ?thesis by (intro exI conjI, rule r8) auto
qed

section \<open>A concrete group\<close>

definition demo_group :: "(nat \<times> gerr option) errgroup" where
  "demo_group = \<lparr>eg_new = (0, None), eg_go = (\<lambda>g. (Suc (fst g), snd g)),
     eg_return = (\<lambda>r g. (fst g - 1, if snd g = None then r else snd g)),
     eg_wait = (\<lambda>g. if fst g = 0 then Some (snd g) else None), eg_cancelled = (\<lambda>g. snd g \<noteq> None)\<rparr>"

lemma demo_group_law: "errgroup_law demo_group fst snd"
  by (simp add: errgroup_law_def demo_group_def)

lemma demo_group_simps:
  "eg_new demo_group = (0, None)" "eg_go demo_group g = (Suc (fst g), snd g)"
  "eg_return demo_group r g = (fst g - 1, if snd g = None then r else snd g)"
  "eg_wait demo_group g = (if fst g = 0 then Some (snd g) else None)"
  "eg_cancelled demo_group g \<longleftrightarrow> snd g \<noteq> None"
  by (simp_all add: demo_group_def)

lemmas demo_life = alive_def go_def return_def group_done_def demo_group_simps

lemma lost_run:
  assumes "starts_geth cfg" and "todo Stdout = l # ls"
  shows "\<exists>s. reachable demo_group cfg todo s \<and> lf_main s = MExited 1 \<and> lf_server s = Done
    \<and> lf_pipe s Stdout = [l] \<and> lf_logged s = []"
proof -
  note r0 = reach_init [of demo_group cfg todo, unfolded life_init_def]
  note a1 = reach_go(1) [OF r0 _ run_signals, simplified demo_life, simplified]
  note a2 = reach_go(1) [OF a1 _ run_geth, simplified demo_life, simplified, OF assms(1)]
  note a3 = reach_go(4) [OF a2 _ geth_pipes, simplified demo_life, simplified]
  note a4 = reach_go(4) [OF a3 _ geth_log_out, simplified demo_life, simplified]
  note a5 = reach_go(4) [OF a4 _ geth_log_err, simplified demo_life, simplified]
  note a6 = reach_go(4) [OF a5 _ geth_start, simplified demo_life, simplified]
  note a7 = reach_go(4) [OF a6 _ geth_interrupt, simplified demo_life, simplified]
  note b1 = reach_go(1) [OF a7 _ run_client, simplified demo_life, simplified]
  note b2 = reach_go(1) [OF b1 _ run_server, simplified demo_life, simplified]
  note b3 = reach_go(1) [OF b2 _ run_shutdown, simplified demo_life, simplified]
  note c1 = reach_env [OF b3 env_write [where x = Stdout and b = False], simplified demo_life, simplified, OF assms(2)]
  note c2 = reach_env [OF c1 env_exit [where r = None and b = False], simplified demo_life, simplified]
  note d1 = reach_go(4) [OF c2 _ geth_wait, simplified demo_life, simplified]
  note d2 = reach_go(5) [OF d1 _ log_closed [where x = Stdout and e = "External ''file already closed''"], simplified demo_life, simplified]
  note d3 = reach_go(5) [OF d2 _ log_closed [where x = Stderr and e = "External ''file already closed''"], simplified demo_life, simplified]
  note d4 = reach_go(6) [OF d3 _ intr_late [where q = "Some (External ''process already finished'')"], simplified demo_life, simplified]
  note d5 = reach_go(8) [OF d4 _ shutdown_done [where r = None], simplified demo_life, simplified]
  note d6 = reach_go(7) [OF d5 _ server_closed, simplified demo_life, simplified]
  note e1 = reach_go(1) [OF d6 _ run_wait, simplified demo_life, simplified]
  note e2 = reach_go(1) [OF e1 _ run_check, simplified demo_life, simplified]
  note e3 = reach_go(2) [OF e2 _ exit_main, simplified demo_life, simplified]
  show ?thesis by (intro exI conjI, rule e3) auto
qed

text \<open>
  C40. Lines of the node can be lost: the node writes a line and exits, and \<open>cmd.Wait\<close> closes the pipes before
  \<open>logPipe\<close> has read it; the command ends with the line never logged, although \<open>logPipe\<close> is kept going past
  the cancelled context for exactly these lines.
\<close>

theorem last_lines_lost:
  assumes "starts_geth cfg" and "todo Stdout = l # ls"
  shows "\<exists>s. reachable demo_group cfg todo s \<and> lf_main s = MExited 1 \<and> lf_server s = Done
    \<and> lf_pipe s Stdout = [l] \<and> lf_logged s = []"
  using assms by (rule lost_run)

text \<open>A signal to an offline command.\<close>

lemma halted_run:
  assumes "cfg_mode cfg \<noteq> Online"
  shows "\<exists>s. reachable demo_group cfg todo s \<and> lf_main s = MCheck (Some (External ''http: Server closed'')) \<and> lf_cancelled s"
proof -
  have g: "\<not> starts_geth cfg" using assms by (simp add: starts_geth_def)
  note r0 = reach_init [of demo_group cfg todo, unfolded life_init_def]
  note a1 = reach_go(1) [OF r0 _ run_signals, simplified demo_life, simplified]
  note a2 = reach_go(1) [OF a1 _ run_no_geth, simplified demo_life, simplified, OF g]
  note a3 = a2 [unfolded if_not_P [OF assms]]
  note b2 = reach_go(1) [OF a3 _ run_server, simplified demo_life, simplified]
  note b3 = reach_go(1) [OF b2 _ run_shutdown, simplified demo_life, simplified]
  note c1 = reach_go(3) [OF b3 _ signal_notify, simplified demo_life, simplified]
  note c2 = reach_env [OF c1 env_signal, simplified demo_life, simplified]
  note c3 = reach_go(3) [OF c2 _ signal_receive, simplified demo_life, simplified]
  note c4 = reach_go(3) [OF c3 _ signal_flag, simplified demo_life, simplified]
  note c5 = reach_go(3) [OF c4 _ signal_cancel, simplified demo_life, simplified]
  note d5 = reach_go(8) [OF c5 _ shutdown_done [where r = None], simplified demo_life, simplified]
  note d6 = reach_go(7) [OF d5 _ server_closed, simplified demo_life, simplified]
  note e1 = reach_go(1) [OF d6 _ run_wait, simplified demo_life, simplified]
  show ?thesis by (intro exI conjI, rule e1) auto
qed

section \<open>Concrete instances of the properties\<close>

definition demo_todo :: "stream \<Rightarrow> string list" where
  "demo_todo x = (case x of Stdout \<Rightarrow> [''Exiting''] | Stderr \<Rightarrow> [])"

lemma demo_starts_geth: "starts_geth demo_config"
  by (simp add: starts_geth_def demo_config_def online_config_def empty_configuration_def)

theorem run_bounded_witness:
  "(life_step demo_group demo_config ^^ 1) (life_init demo_group demo_todo)
     ((life_init demo_group demo_todo)\<lparr>lf_sig := At SNotify, lf_main := MGeth\<rparr>) \<and> (1::nat) \<le> 35"
proof -
  have "run_step demo_group demo_config (life_init demo_group demo_todo)
     ((life_init demo_group demo_todo)\<lparr>lf_sig := At SNotify, lf_main := MGeth\<rparr>)"
    by (rule run_signals) (simp add: life_init_def)
  moreover have "alive (life_init demo_group demo_todo)" by (simp add: alive_def life_init_def)
  ultimately have "(life_step demo_group demo_config ^^ 1) (life_init demo_group demo_todo)
     ((life_init demo_group demo_todo)\<lparr>lf_sig := At SNotify, lf_main := MGeth\<rparr>)"
    unfolding relpowp_1 by (simp add: life_step_def go_step_def)
  with run_bounded [OF this] show ?thesis by (simp add: demo_todo_def)
qed

lemma demo_lost_run:
  "\<exists>s. reachable demo_group demo_config demo_todo s \<and> lf_main s = MExited 1 \<and> lf_server s = Done
    \<and> lf_pipe s Stdout = [''Exiting''] \<and> lf_logged s = []"
  by (rule lost_run [OF demo_starts_geth, where ls = "[]"]) (simp add: demo_todo_def)

theorem ending_command_ends_witness:
  "\<exists>s. reachable demo_group demo_config demo_todo s \<and> ending demo_group s
     \<and> (lf_main s = MExited 1 \<or> lf_main s = MKilled)"
proof -
  obtain s where s: "reachable demo_group demo_config demo_todo s" "lf_main s = MExited 1" "lf_server s = Done"
    using demo_lost_run by blast
  have e: "ending demo_group s" using s(3) by (simp add: ending_def)
  have "\<nexists>t. go_step demo_group demo_config s t" using s(2) by (simp add: go_step_def alive_def)
  moreover have "lf_proc s \<noteq> PRunning True"
    using reachable_ok [OF demo_group_law s(1)] s(2,3) group_size_At [of s]
    by (auto simp: life_ok_def process_ok_def main_ok_def)
  ultimately have "lf_main s = MExited 1 \<or> lf_main s = MKilled"
    by (rule ending_command_ends [OF demo_group_law s(1) e])
  with s(1) e show ?thesis by blast
qed

theorem served_command_leaves_nothing_witness:
  "\<exists>s. reachable demo_group demo_config demo_todo s \<and> lf_server s = Done \<and> group_size s = 0
     \<and> (\<forall>b. lf_proc s \<noteq> PRunning b)"
proof -
  obtain s where s: "reachable demo_group demo_config demo_todo s" "lf_main s = MExited 1" "lf_server s = Done"
    using demo_lost_run by blast
  have "1 = (1::int) \<and> group_size s = 0 \<and> (\<forall>b. lf_proc s \<noteq> PRunning b)"
    by (rule served_command_leaves_nothing [OF demo_group_law s(1,2)]) (simp add: s(3))
  with s show ?thesis by blast
qed

theorem halted_after_signal_witness:
  "\<exists>s t. reachable demo_group (demo_config\<lparr>cfg_mode := Offline\<rparr>) demo_todo s \<and> lf_cancelled s
     \<and> run_step demo_group (demo_config\<lparr>cfg_mode := Offline\<rparr>) s t \<and> lf_main t = MReturned (Some halted)"
proof -
  let ?c = "demo_config\<lparr>cfg_mode := Offline\<rparr>"
  have "cfg_mode ?c \<noteq> Online" by (simp add: config_consts)
  from halted_run [OF this] obtain s where s: "reachable demo_group ?c demo_todo s"
    "lf_main s = MCheck (Some (External ''http: Server closed''))" "lf_cancelled s" by blast
  note r = run_check [OF s(2), of demo_group ?c]
  from halted_after_signal [OF demo_group_law s(1,2) r] s(3)
  have "lf_main (s\<lparr>lf_main := MReturned (if lf_flag s then Some halted else Some (External ''http: Server closed''))\<rparr>)
    = MReturned (Some halted)" by blast
  with s(1,3) r show ?thesis by blast
qed

theorem client_error_leaves_geth_witness:
  "\<exists>s. reachable demo_group demo_config demo_todo s \<and> lf_main s = MExited 1 \<and> lf_proc s = PRunning False"
  by (rule client_error_leaves_geth [OF demo_starts_geth])

theorem last_lines_lost_witness:
  "\<exists>s. reachable demo_group demo_config demo_todo s \<and> lf_main s = MExited 1 \<and> lf_server s = Done
    \<and> lf_pipe s Stdout = [''Exiting''] \<and> lf_logged s = []"
  by (rule last_lines_lost [OF demo_starts_geth, where ls = "[]"]) (simp add: demo_todo_def)

end
