(* ===== verification/TraceLimit.thy ===== *)
theory TraceLimit
  imports Startup
begin

text \<open>
  Traces fetched by concurrent requests (\<open>getBlockTraces\<close> and \<open>getTransactionTraces\<close> of \<open>ethereum/client.go\<close>,
  called by the goroutines of the HTTP server). \<open>NodeRpc\<close> models each function as one call; here their three effects, taking a permit of the
  semaphore, calling the node and giving the permit back, are three steps, and a step of the server is a step of
  one of the requests. The semaphore of
  \<open>golang.org/x/sync\<close> is a parameter with its documented law.
\<close>

section \<open>State\<close>

text \<open>\<open>sm_acquire n\<close> is \<open>None\<close> where \<open>Acquire\<close> would block.\<close>

record 'm semaphore =
  sm_new :: "int \<Rightarrow> 'm"
  sm_acquire :: "int \<Rightarrow> 'm \<Rightarrow> 'm option"
  sm_release :: "int \<Rightarrow> 'm \<Rightarrow> 'm"

definition semaphore_law :: "'m semaphore \<Rightarrow> int \<Rightarrow> ('m \<Rightarrow> int) \<Rightarrow> bool" where
  "semaphore_law M cap held \<longleftrightarrow> held (sm_new M cap) = 0
     \<and> (\<forall>n m m'. sm_acquire M n m = Some m' \<longrightarrow> held m' = held m + n \<and> held m' \<le> cap)
     \<and> (\<forall>n m. sm_acquire M n m = None \<longrightarrow> cap < held m + n)
     \<and> (\<forall>n m. n \<le> held m \<longrightarrow> held (sm_release M n m) = held m - n)"

definition semaphoreTraceWeight :: int where "semaphoreTraceWeight = 1"

text \<open>The two functions that share the semaphore, and what they return.\<close>

datatype trace_query = OfBlock hash | OfTransaction hash

datatype trace_answer =
    BlockTraces "call option option list \<times> json_text option list"
  | TransactionTraces "call option \<times> json_text"

type_synonym traces = "trace_answer outcome"

text \<open>Where a request stands; \<open>Replied\<close> is the point between the call and the deferred release.\<close>

datatype trace_request = Waiting trace_query | Calling trace_query | Replied trace_query traces
  | Finished trace_query traces | Cancelled trace_query gerr

record ('w, 'm) slots =
  sl_world :: 'w
  sl_sem :: 'm
  sl_reqs :: "trace_request list"

definition slots_init :: "'m semaphore \<Rightarrow> 'w \<Rightarrow> trace_query list \<Rightarrow> ('w, 'm) slots" where
  "slots_init M w hs = \<lparr>sl_world = w, sl_sem = sm_new M maxTraceConcurrency, sl_reqs = map Waiting hs\<rparr>"

text \<open>The calls to the node and the decoding of its replies.\<close>

definition fetch_block_traces ::
  "'w client \<Rightarrow> hash \<Rightarrow> ('w, gerr, call option option list \<times> json_text option list) io" where
  "fetch_block_traces ec blockHash =
     io_bind (call_context (cl_node ec) ''debug_traceBlockByHash''
          [JStr (hash_hex (cl_geth ec) blockHash), cl_tc ec]) (\<lambda>raw.
       io_lift (andThen (json_parse raw) (\<lambda>j.
         andThen (arr_value (rpcCall_of_json (cl_geth ec)) (Some j)) (\<lambda>calls.
         andThen (arr_value rpcRawCall_of_json (Some j)) (\<lambda>rawCalls. Ok (calls, rawCalls))))))"

definition fetch_transaction_traces :: "'w client \<Rightarrow> hash \<Rightarrow> ('w, gerr, call option \<times> json_text) io" where
  "fetch_transaction_traces ec transactionHash =
     io_bind (call_context (cl_node ec) ''debug_traceTransaction''
          [JStr (hash_hex (cl_geth ec) transactionHash), cl_tc ec]) (\<lambda>raw.
       io_lift (andThen (json_parse raw) (\<lambda>j.
         andThen (call_ptr_of_json (cl_geth ec) j) (\<lambda>call. Ok (call, raw)))))"

fun fetch_traces :: "'w client \<Rightarrow> trace_query \<Rightarrow> 'w \<Rightarrow> traces \<times> 'w" where
  "fetch_traces ec (OfBlock h) w = io_map BlockTraces (fetch_block_traces ec h) w"
| "fetch_traces ec (OfTransaction h) w = io_map TransactionTraces (fetch_transaction_traces ec h) w"

text \<open>As \<open>NodeRpc\<close> has them, the two functions are these calls between the two effects on the semaphore.\<close>

lemma one_request:
  "getBlockTraces ec h = io_bind (sem_acquire (cl_node ec)) (\<lambda>_.
     io_defer (sem_release (cl_node ec)) (fetch_block_traces ec h))"
  "getTransactionTraces ec h = io_bind (sem_acquire (cl_node ec)) (\<lambda>_.
     io_defer (sem_release (cl_node ec)) (fetch_transaction_traces ec h))"
  by (simp_all add: getBlockTraces_def fetch_block_traces_def getTransactionTraces_def fetch_transaction_traces_def)

declare fetch_traces.simps [simp del]

section \<open>Steps\<close>

inductive slot_step :: "'w client \<Rightarrow> 'm semaphore \<Rightarrow> ('w, 'm) slots \<Rightarrow> ('w, 'm) slots \<Rightarrow> bool" for ec M where
  acquire: "i < length (sl_reqs s) \<Longrightarrow> sl_reqs s ! i = Waiting h \<Longrightarrow>
     sm_acquire M semaphoreTraceWeight (sl_sem s) = Some m \<Longrightarrow>
     slot_step ec M s (s\<lparr>sl_sem := m, sl_reqs := (sl_reqs s)[i := Calling h]\<rparr>)"
| call_node: "i < length (sl_reqs s) \<Longrightarrow> sl_reqs s ! i = Calling h \<Longrightarrow> fetch_traces ec h (sl_world s) = (r, w) \<Longrightarrow>
     slot_step ec M s (s\<lparr>sl_world := w, sl_reqs := (sl_reqs s)[i := Replied h r]\<rparr>)"
| release: "i < length (sl_reqs s) \<Longrightarrow> sl_reqs s ! i = Replied h r \<Longrightarrow>
     slot_step ec M s (s\<lparr>sl_sem := sm_release M semaphoreTraceWeight (sl_sem s), sl_reqs := (sl_reqs s)[i := Finished h r]\<rparr>)"

text \<open>While it waits a request may be given up: \<open>Acquire\<close> returns the error of its context.\<close>

inductive cancel_step :: "('w, 'm) slots \<Rightarrow> ('w, 'm) slots \<Rightarrow> bool" where
  context_done: "i < length (sl_reqs s) \<Longrightarrow> sl_reqs s ! i = Waiting h \<Longrightarrow>
     cancel_step s (s\<lparr>sl_reqs := (sl_reqs s)[i := Cancelled h e]\<rparr>)"

inductive trace_reach :: "'w client \<Rightarrow> 'm semaphore \<Rightarrow> 'w \<Rightarrow> trace_query list \<Rightarrow> ('w, 'm) slots \<Rightarrow> bool" for ec M w hs where
  trace_start: "trace_reach ec M w hs (slots_init M w hs)"
| trace_next: "trace_reach ec M w hs s \<Longrightarrow> slot_step ec M s t \<or> cancel_step s t \<Longrightarrow> trace_reach ec M w hs t"

section \<open>Permits\<close>

definition in_flight :: "trace_request \<Rightarrow> bool" where
  "in_flight r \<longleftrightarrow> (case r of Calling h \<Rightarrow> True | Replied h x \<Rightarrow> True | _ \<Rightarrow> False)"

definition is_over :: "trace_request \<Rightarrow> bool" where
  "is_over r \<longleftrightarrow> (case r of Finished h x \<Rightarrow> True | Cancelled h e \<Rightarrow> True | _ \<Rightarrow> False)"

definition flying :: "trace_request list \<Rightarrow> nat" where
  "flying rs = length (filter in_flight rs)"

text \<open>One element of a list is replaced: what that does to a sum over the list.\<close>

lemma sum_map_update:
  "i < length xs \<Longrightarrow> sum_list (map f (xs[i := y])) + f (xs ! i) = sum_list (map f xs) + (f y :: 'a :: comm_monoid_add)"
proof (induction xs arbitrary: i)
  case (Cons x xs)
  show ?case
  proof (cases i)
    case 0
    then show ?thesis by (simp add: ac_simps)
  next
    case (Suc j)
    with Cons show ?thesis by (simp add: add.assoc)
  qed
qed simp

lemma flying_sum: "flying rs = sum_list (map (\<lambda>r. of_bool (in_flight r)) rs)"
  unfolding flying_def by (induction rs) simp_all

lemma flying_update:
  assumes "i < length rs"
  shows "flying (rs[i := y]) + of_bool (in_flight (rs ! i)) = flying rs + of_bool (in_flight y)"
  unfolding flying_sum by (rule sum_map_update [OF assms])

definition permits_ok :: "('m \<Rightarrow> int) \<Rightarrow> ('w, 'm) slots \<Rightarrow> bool" where
  "permits_ok held s \<longleftrightarrow> held (sl_sem s) = int (flying (sl_reqs s)) \<and> held (sl_sem s) \<le> maxTraceConcurrency"

lemma permits_step:
  assumes law: "semaphore_law M maxTraceConcurrency held" and ok: "permits_ok held s"
    and step: "slot_step ec M s t \<or> cancel_step s t"
  shows "permits_ok held t"
  using step
proof
  assume "slot_step ec M s t"
  then show ?thesis
  proof cases
    case (acquire i h m)
    then have "held m = held (sl_sem s) + 1 \<and> held m \<le> maxTraceConcurrency"
      using law unfolding semaphore_law_def semaphoreTraceWeight_def by blast
    with acquire ok flying_update [of i "sl_reqs s" "Calling h"] show ?thesis
      by (simp add: permits_ok_def in_flight_def)
  next
    case (call_node i h r w)
    then show ?thesis using ok flying_update [of i "sl_reqs s" "Replied h r"]
      by (simp add: permits_ok_def in_flight_def)
  next
    case (release i h r)
    then have f: "flying (sl_reqs s) = Suc (flying ((sl_reqs s)[i := Finished h r]))"
      using flying_update [of i "sl_reqs s" "Finished h r"] by (simp add: in_flight_def)
    with ok have "semaphoreTraceWeight \<le> held (sl_sem s)" by (simp add: permits_ok_def semaphoreTraceWeight_def)
    with law have "held (sm_release M semaphoreTraceWeight (sl_sem s)) = held (sl_sem s) - semaphoreTraceWeight"
      by (simp add: semaphore_law_def)
    with release ok f show ?thesis by (simp add: permits_ok_def semaphoreTraceWeight_def)
  qed
next
  assume "cancel_step s t"
  then show ?thesis
  proof cases
    case (context_done i h e)
    then show ?thesis using ok flying_update [of i "sl_reqs s" "Cancelled h e"]
      by (simp add: permits_ok_def in_flight_def)
  qed
qed

lemma permits_reach:
  assumes "semaphore_law M maxTraceConcurrency held" and "trace_reach ec M w hs s"
  shows "permits_ok held s"
  using assms(2)
proof (induction rule: trace_reach.induct)
  case trace_start
  have "flying (map Waiting hs) = 0" by (simp add: flying_def in_flight_def)
  with assms(1) show ?case
    by (simp add: permits_ok_def slots_init_def semaphore_law_def maxTraceConcurrency_def)
next
  case (trace_next s t)
  then show ?case using permits_step [OF assms(1)] by blast
qed

section \<open>Progress\<close>

fun request_rank :: "trace_request \<Rightarrow> nat" where
  "request_rank (Waiting h) = 3"
| "request_rank (Calling h) = 2"
| "request_rank (Replied h r) = 1"
| "request_rank (Finished h r) = 0"
| "request_rank (Cancelled h e) = 0"

definition work_left :: "trace_request list \<Rightarrow> nat" where
  "work_left rs = sum_list (map request_rank rs)"

lemma work_left_update:
  assumes "i < length rs" and "request_rank y < request_rank (rs ! i)"
  shows "work_left (rs[i := y]) < work_left rs"
  using sum_map_update [OF assms(1), of request_rank y] assms(2) by (simp add: work_left_def)

lemma slot_step_work:
  "slot_step ec M s t \<or> cancel_step s t \<Longrightarrow> work_left (sl_reqs t) < work_left (sl_reqs s)"
  by (elim disjE slot_step.cases cancel_step.cases) (simp_all add: work_left_update)

lemma in_flight_steps:
  assumes "i < length (sl_reqs s)" and "in_flight (sl_reqs s ! i)"
  shows "\<exists>t. slot_step ec M s t"
proof (cases "sl_reqs s ! i")
  case (Calling h)
  obtain r v where "fetch_traces ec h (sl_world s) = (r, v)" by fastforce
  from call_node [OF assms(1) Calling this] show ?thesis ..
next
  case (Replied h r)
  from release [OF assms(1) Replied] show ?thesis ..
qed (use assms(2) in \<open>simp_all add: in_flight_def\<close>)

lemma trace_progress:
  assumes law: "semaphore_law M maxTraceConcurrency held" and reach: "trace_reach ec M w hs s"
    and left: "r \<in> set (sl_reqs s)" "\<not> is_over r"
  shows "\<exists>t. slot_step ec M s t"
proof (cases "flying (sl_reqs s) = 0")
  case False
  then obtain q where "q \<in> set (sl_reqs s)" "in_flight q" by (auto simp: flying_def filter_empty_conv)
  then show ?thesis using in_flight_steps by (metis in_set_conv_nth)
next
  case True
  from left obtain i where i: "i < length (sl_reqs s)" "\<not> is_over (sl_reqs s ! i)" by (metis in_set_conv_nth)
  moreover have "\<not> in_flight (sl_reqs s ! i)" using True i(1) by (auto simp: flying_def filter_empty_conv)
  ultimately obtain h where h: "sl_reqs s ! i = Waiting h"
    by (cases "sl_reqs s ! i") (auto simp: is_over_def in_flight_def)
  have "held (sl_sem s) = 0" using permits_reach [OF law reach] True by (simp add: permits_ok_def)
  then have "\<not> maxTraceConcurrency < held (sl_sem s) + semaphoreTraceWeight"
    by (simp add: semaphoreTraceWeight_def maxTraceConcurrency_def)
  then have "sm_acquire M semaphoreTraceWeight (sl_sem s) \<noteq> None"
    using law unfolding semaphore_law_def by blast
  then obtain m where "sm_acquire M semaphoreTraceWeight (sl_sem s) = Some m" by blast
  from acquire [OF i(1) h this] show ?thesis ..
qed

section \<open>Properties\<close>

text \<open>
  C13. At most \<open>maxTraceConcurrency\<close> traces are fetched at any time, however the requests interleave, and the
  semaphore holds exactly one permit for each; when every request is over no permit is left held.
\<close>

theorem trace_permits:
  assumes "semaphore_law M maxTraceConcurrency held" and "trace_reach ec M w hs s"
  shows "held (sl_sem s) = int (flying (sl_reqs s)) \<and> flying (sl_reqs s) \<le> 16
    \<and> (list_all is_over (sl_reqs s) \<longrightarrow> held (sl_sem s) = 0)"
proof -
  have "flying rs = 0" if "list_all is_over rs" for rs
    using that by (induction rs) (auto simp: flying_def is_over_def in_flight_def split: trace_request.splits)
  with permits_reach [OF assms] show ?thesis by (auto simp: permits_ok_def maxTraceConcurrency_def)
qed

text \<open>
  C27. The limit cannot deadlock: as long as a request is not over some request can move on without any being
  cancelled, and every move shortens the work left, so all requests end after at most three moves each.
\<close>

theorem trace_requests_end:
  assumes "semaphore_law M maxTraceConcurrency held" and "trace_reach ec M w hs s"
  shows "((\<nexists>t. slot_step ec M s t) \<longrightarrow> list_all is_over (sl_reqs s))
    \<and> (\<forall>t. slot_step ec M s t \<or> cancel_step s t \<longrightarrow> work_left (sl_reqs t) < work_left (sl_reqs s))
    \<and> work_left (map Waiting hs) = 3 * length hs"
proof -
  have "work_left (map Waiting hs) = 3 * length hs" by (induction hs) (simp_all add: work_left_def)
  moreover have "list_all is_over (sl_reqs s)" if "\<nexists>t. slot_step ec M s t"
    using trace_progress [OF assms] that unfolding list_all_iff by blast
  ultimately show ?thesis using slot_step_work by blast
qed

section \<open>Concrete instances of the properties\<close>

definition demo_semaphore :: "(int \<times> int) semaphore" where
  "demo_semaphore = \<lparr>sm_new = (\<lambda>n. (n, 0)),
     sm_acquire = (\<lambda>n m. if snd m + n \<le> 16 then Some (fst m, snd m + n) else None),
     sm_release = (\<lambda>n m. (fst m, snd m - n))\<rparr>"

lemma demo_semaphore_law: "semaphore_law demo_semaphore maxTraceConcurrency snd"
  by (auto simp: semaphore_law_def demo_semaphore_def maxTraceConcurrency_def)

text \<open>A request that is served while another waits.\<close>

lemma demo_trace_run:
  "\<exists>s. trace_reach mock_client demo_semaphore 0 [OfBlock 7, OfTransaction 8] s
     \<and> sl_reqs s = [Waiting (OfBlock 7), Replied (OfTransaction 8) (fst (fetch_traces mock_client (OfTransaction 8) 0))] \<and> snd (sl_sem s) = 1"
proof -
  define s0 :: "(int, int \<times> int) slots" where "s0 = slots_init demo_semaphore 0 [OfBlock 7, OfTransaction 8]"
  define s1 :: "(int, int \<times> int) slots" where "s1 = s0\<lparr>sl_sem := (16, 1), sl_reqs := (sl_reqs s0)[1 := Calling (OfTransaction 8)]\<rparr>"
  have s0: "sl_reqs s0 = [Waiting (OfBlock 7), Waiting (OfTransaction 8)]" "sl_sem s0 = (16, 0)" "sl_world s0 = 0"
    by (simp_all add: s0_def slots_init_def demo_semaphore_def maxTraceConcurrency_def)
  have 1: "slot_step mock_client demo_semaphore s0 s1"
    unfolding s1_def
    by (rule acquire) (simp_all add: s0, simp add: demo_semaphore_def semaphoreTraceWeight_def)
  obtain r w where f: "fetch_traces mock_client (OfTransaction 8) 0 = (r, w)" by fastforce
  have 2: "slot_step mock_client demo_semaphore s1 (s1\<lparr>sl_world := w, sl_reqs := (sl_reqs s1)[1 := Replied (OfTransaction 8) r]\<rparr>)"
    by (rule call_node) (simp_all add: s1_def s0 f)
  have "trace_reach mock_client demo_semaphore 0 [OfBlock 7, OfTransaction 8] s0" unfolding s0_def by (rule trace_start)
  from trace_next [OF trace_next [OF this disjI1 [OF 1]] disjI1 [OF 2]] show ?thesis
    by (intro exI conjI, assumption) (simp_all add: s1_def s0 f)
qed

theorem trace_permits_witness:
  "\<exists>s. trace_reach mock_client demo_semaphore 0 [OfBlock 7, OfTransaction 8] s \<and> snd (sl_sem s) = 1 \<and> flying (sl_reqs s) \<le> 16"
proof -
  obtain s where s: "trace_reach mock_client demo_semaphore 0 [OfBlock 7, OfTransaction 8] s" "snd (sl_sem s) = 1" using demo_trace_run by blast
  with trace_permits [OF demo_semaphore_law s(1)] show ?thesis by blast
qed

theorem trace_requests_end_witness:
  "\<exists>s. trace_reach mock_client demo_semaphore 0 [OfBlock 7, OfTransaction 8] s \<and> (\<exists>t. slot_step mock_client demo_semaphore s t)
     \<and> work_left (map Waiting [OfBlock 7, OfTransaction 8]) = 6"
proof -
  obtain s where s: "trace_reach mock_client demo_semaphore 0 [OfBlock 7, OfTransaction 8] s" "Waiting (OfBlock 7) \<in> set (sl_reqs s)"
    using demo_trace_run by fastforce
  then have "\<not> list_all is_over (sl_reqs s)" by (auto simp: list_all_iff is_over_def intro!: bexI [of _ "Waiting (OfBlock 7)"])
  with trace_requests_end [OF demo_semaphore_law s(1)] s(1) show ?thesis by auto
qed

end
