(* ===== verification/Spec2Isabelle.thy ===== *)
theory Spec2Isabelle
  imports Machine Lifecycle TraceLimit
begin

text \<open>
  A model of \<open>rosetta-ethereum\<close>, the server that presents an Ethereum node (geth) through the
  Rosetta API, translated from the Go sources under \<open>src/\<close>, with the theorems that make it correct.

  \<^bold>\<open>The program.\<close> A request reaches a handler of \<open>services/\<close>. The data handlers ask a \<open>Client\<close>, an
  interface that \<open>ethereum/client.go\<close> implements by JSON-RPC and GraphQL calls to the node. A block
  is fetched with its uncles, receipts and call traces; the traces are flattened and turned into
  balance-changing operations, fees and the block reward are added. The construction handlers
  build, sign and submit a transfer in eight calls, mostly without the node. \<open>configuration/\<close> reads
  the environment, \<open>ethereum/bootstrap.go\<close> writes the balances of the genesis block.

  \<^bold>\<open>The theories, bottom up.\<close>
  \<^item> \<open>Prelude\<close>: signed 64-bit wrap-around, consecutively indexed lists, Go maps as association lists and
    the order in which Go ranges over them (a parameter, constrained to a permutation).
  \<^item> \<open>GoRuntime\<close>: errors and error chains, results with panics (\<open>Ok\<close>, \<open>Err\<close>, \<open>Crash\<close>), calls that change
    the world (\<open>io\<close>), loops (\<open>mapM\<close>, \<open>foldM\<close>). \<open>GoText\<close>, \<open>GoJson\<close>, \<open>GoFloat\<close>: integers as text, JSON
    documents as trees, 53-bit floating point products.
  \<^item> \<open>EthTypes\<close>: Rosetta data and the constants of \<open>ethereum/types.go\<close>. \<open>GethLib\<close>: the functions of
    go-ethereum as a record of parameters with named laws, and \<open>ethereum/address.go\<close>.
  \<^item> \<open>Calls\<close>: the tree of calls, its decoder and \<open>flattenTraces\<close>, refined to an abstract traversal.
    \<open>OpStages\<close>: the contract of the stages that emit operations (a locale). \<open>Traces\<close>: \<open>traceOps\<close> and
    its ledger. \<open>Fees\<close>: \<open>calculateGas\<close>, \<open>feeOps\<close>. \<open>Rewards\<close>: \<open>miningReward\<close>, \<open>blockRewardTransaction\<close>.
  \<^item> \<open>NodeRpc\<close>: the node as a record of calls, headers, uncles, receipts, traces and the trace
    semaphore. \<open>Blocks\<close>: \<open>getBlock\<close>, \<open>populateTransaction\<close>, \<open>getParsedBlock\<close>, \<open>Block\<close>, \<open>Transaction\<close>.
    \<open>NodeStatus\<close>: \<open>Status\<close>, \<open>peers\<close>, \<open>Balance\<close>, \<open>GetMempool\<close> and the simple calls. \<open>CallApi\<close>: \<open>Call\<close>.
  \<^item> \<open>Configuration\<close>: \<open>LoadConfiguration\<close>. \<open>Bootstrap\<close>: \<open>GenerateBootstrapFile\<close>.
  \<^item> \<open>ServiceErrors\<close>: \<open>services/errors.go\<close>. \<open>Services\<close>: the interface \<open>Client\<close> and the account, block, call,
    mempool and network handlers. \<open>Wire\<close>: \<open>services/types.go\<close> and \<open>services/utils.go\<close>.
    \<open>Construction\<close>: \<open>services/construction_service.go\<close>. \<open>Server\<close>: the structs of the services, \<open>services/router.go\<close>, and runs of the server
    as a step relation. \<open>Startup\<close>: \<open>NewClient\<close>,
    \<open>ethereum/graphql_client.go\<close>, \<open>ethereum/tracer.go\<close>, \<open>ethereum/geth.go\<close>, the commands of \<open>cmd/\<close> and \<open>main.go\<close>.
  \<^item> \<open>CallTracer\<close>: the script \<open>ethereum/call_tracer.js\<close> that the node runs to produce the calls of \<open>Calls\<close>: its
    stack of unfinished calls, the events of the interpreter, and the report the client decodes. \<open>Machine\<close>: the
    specification of the operations, an abstract machine with balances that undoes failed calls.
  \<^item> \<open>Lifecycle\<close>: the goroutines of a running command (\<open>cmd/run.go\<close>, \<open>cmd/root.go\<close>, \<open>ethereum/geth.go\<close>) as one
    step relation, one rule per statement that blocks or is seen by another goroutine, with the node's process, its pipes
    and the signals as steps of the environment; \<open>logPipe\<close> as a partial function. \<open>TraceLimit\<close>: concurrent requests
    for traces and the semaphore that limits them.

  \<^bold>\<open>How code is read.\<close> A Go struct is a record, an error a value of \<open>gerr\<close>, a pointer an \<open>option\<close>, a nil
  dereference, an index out of range and \<open>log.Fatalf\<close> the outcome \<open>Crash\<close>. \<open>int64\<close> results go through
  \<open>wrap64\<close>, \<open>uint64\<close> values are 64-bit words, a \<open>big.Int\<close> is an integer. A call to the node takes and
  returns a world of arbitrary type, so that theorems hold for every node. Log output is left out.
  A definition named \<open>..._step\<close> is the body of a loop. All recursions are structural or have a
  termination proof; there is no fuel, so a theorem about a result is about the code as it runs. The one
  loop that may not end, \<open>logPipe\<close>, is a partial function with a theorem on exactly when it returns.

  \<^bold>\<open>Interfaces.\<close> The locales are \<open>OpStages\<close>' contract of an operation stage (interpreted for the fee, trace
  and reward stages), \<open>client_contract\<close> (what the services rely on, interpreted for the client of
  \<open>Blocks\<close> and \<open>CallApi\<close>), \<open>endpoint\<close> with its extensions \<open>guarded_endpoint\<close> and \<open>open_endpoint\<close>
  (interpreted for all eighteen handlers) and \<open>wire_codec\<close> (interpreted for the structs that travel).

  \<^bold>\<open>What is shown.\<close> From an execution to the operations of its transaction, what the operations add to an
  account is what the abstract machine did to it, and the operations of \<open>traceOps\<close> alone agree with the ledger of the traces. Two
  kinds of accounts are excepted in these theorems, and theorems of their own show what goes wrong with them: that of a
  self-destruct undone because a call around it failed (it is reported as destroyed, or the process exits), and
  the two parties of a \<open>CALLCODE\<close>, or another call that moves nothing, reported with a value (it is reported as a payment). The
  operations are well formed and use published types and statuses, and conserve value for all traces; receipts of another block are never served as this
  block's; over any run of the server the trace semaphore is given back, the errors and operations
  served are published ones and an offline server leaves the world alone; rewards and fees are exact; the
  mempool and the bootstrap file are complete whatever order Go ranges over maps; the
  configuration loads exactly from the valid environments; every error has the code that belongs
  to it; and a transfer keeps its
  parties, amount, nonce and price from the intent to the signed transaction. Theorems on the
  failures found (panics, overflow, ignored amounts) are part of the development too. The tracer reports
  the calls that were executed, in order, and a node that runs it keeps the law the operations rest on. Every interleaving of the goroutines is finite; once a signal arrives, the
  node stops or the server fails, the command can only end, and leaves nothing running unless the client could not
  be made; log lines still in the pipe when the node exits can be lost. At most 16 traces are fetched at a time, and
  the limit cannot deadlock.

  \<^bold>\<open>Laws.\<close> go-ethereum, the Rosetta SDK and the node are parameters. Theorems that need them to behave
  take the documented behaviour as a hypothesis: \<open>address_laws\<close>, \<open>hexutil_laws\<close>, \<open>gas_tip_law\<close>,
  \<open>reward_laws\<close>, \<open>tracer_law\<close>, \<open>sem_law\<close>, \<open>match_law\<close>, \<open>transaction_laws\<close>, \<open>js_laws\<close>,
  \<open>errgroup_law\<close>, \<open>semaphore_law\<close>, \<open>cobra_law\<close>, and of the virtual machine \<open>transaction_allowed\<close>. Small concrete instances
  satisfy all of them and carry the concrete instance of every theorem with a hypothesis.

  \<^bold>\<open>Not modelled.\<close> Log output but for that of \<open>logPipe\<close>, HTTP middleware and request checking
  (\<open>asserter\<close>, \<open>server\<close> of the SDK) and what the time-outs do: they are libraries' work, the source only
  passes constants. So a handler is modelled for every request, also those the SDK would reject before it is called. The
  mocks are generated. JSON is modelled from the syntax tree on, not from bytes, and objects
  that repeat a key are not read as Go reads them (\<open>GoJson\<close>).
  \<open>Server\<close> serves the requests of a run one after the other; of concurrent requests \<open>TraceLimit\<close> models those
  for the traces of a block or a transaction, each call to the node as one step. Of signals the first is modelled; later ones change nothing in the code.
\<close>

section \<open>Properties that span components\<close>





end
